(* ===== verification/Prelude.thy ===== *)
theory Prelude
  imports Main "HOL-Library.Word" "HOL-Library.State_Monad"
begin

text \<open>
  Shared vocabulary of the development: the machine-integer types of the C sources, the errno
  values their functions return, the arithmetic and bit-field macros they use, byte buffers, and
  the two ways in which effects are threaded:
  \<^item> total code runs in the state monad of \<^theory_text>\<open>HOL-Library.State_Monad\<close>; \<open>seq_neg\<close> and
    \<open>seq_nz\<close> are the \<open>if (ret < 0) return ret;\<close> and \<open>if (ret) return ret;\<close> chains of the
    sources, and \<open>zoom\<close> runs the code of a component on its part of a larger state;
  \<^item> code that may not return, or that may access memory out of bounds, passes its state
    explicitly in the option monad, with \<open>None\<close> for those outcomes.
\<close>

section \<open>Machine integers, errno values, macros\<close>

type_synonym u8 = "8 word"
type_synonym u16 = "16 word"
type_synonym u32 = "32 word"
type_synonym u64 = "64 word"

unbundle bit_operations_syntax

named_theorems word_arith \<open>bounds and conversions of machine words\<close>
named_theorems run_rules \<open>what running a piece of monadic code does\<close>

abbreviation (input) ENODEV :: int where "ENODEV \<equiv> 19"
abbreviation (input) EBADF :: int where "EBADF \<equiv> 9"
abbreviation (input) EINVAL :: int where "EINVAL \<equiv> 22"
abbreviation (input) EBUSY :: int where "EBUSY \<equiv> 16"
abbreviation (input) ENOSPC :: int where "ENOSPC \<equiv> 28"
abbreviation (input) ERANGE :: int where "ERANGE \<equiv> 34"
abbreviation (input) ENOTSUP :: int where "ENOTSUP \<equiv> 134"
abbreviation (input) EALREADY :: int where "EALREADY \<equiv> 120"
abbreviation (input) EOVERFLOW :: int where "EOVERFLOW \<equiv> 139"
abbreviation (input) ECONNRESET :: int where "ECONNRESET \<equiv> 104"
abbreviation (input) ENAMETOOLONG :: int where "ENAMETOOLONG \<equiv> 91"
abbreviation (input) ETIMEDOUT :: int where "ETIMEDOUT \<equiv> 116"

text \<open>Zephyr's \<open>BIT\<close>, \<open>GENMASK\<close>, \<open>FIELD_PREP\<close>, \<open>FIELD_GET\<close>, at the width of the register.\<close>

definition BIT :: "nat \<Rightarrow> 'a::len word" where
  "BIT n = push_bit n 1"

definition GENMASK :: "nat \<Rightarrow> nat \<Rightarrow> 'a::len word" where
  "GENMASK h l = push_bit l (mask (h - l + 1))"

definition LSB_GET :: "'a::len word \<Rightarrow> 'a word" where
  "LSB_GET v = v AND - v"

definition FIELD_PREP :: "'a::len word \<Rightarrow> 'a word \<Rightarrow> 'a word" where
  "FIELD_PREP m v = (v * LSB_GET m) AND m"

definition FIELD_GET :: "'a::len word \<Rightarrow> 'a word \<Rightarrow> 'a word" where
  "FIELD_GET m v = (v AND m) div LSB_GET m"

definition set_bits :: "'a::len word \<Rightarrow> 'a word \<Rightarrow> 'a word \<Rightarrow> 'a word" where
  \<comment> \<open>what a masked register update leaves in the register\<close>
  "set_bits m v old = (old AND NOT m) OR (v AND m)"

lemma bit_BIT [simp]: "bit (BIT k :: 'a::len word) n \<longleftrightarrow> n = k \<and> n < LENGTH('a)"
  by (auto simp: BIT_def bit_simps)

lemma test_BIT: "(v :: 'a::len word) AND BIT k \<noteq> 0 \<longleftrightarrow> bit v k"
proof -
  have "v AND BIT k = 0 \<longleftrightarrow> (\<forall>n. \<not> (bit v n \<and> bit (BIT k :: 'a word) n))"
    using bit_eq_iff [of "v AND BIT k" 0] by (auto simp: bit_and_iff dest: bit_imp_le_length)
  then show ?thesis using bit_imp_le_length [of v k] by auto
qed

lemma unat_u32_less [word_arith]: "unat (w :: u32) < 2 ^ 32"
  using unsigned_less [of w] by simp

lemma unat_u16_less [word_arith]: "unat (w :: u16) < 2 ^ 16"
  using unsigned_less [of w] by simp

lemma unat_u8_less [word_arith]: "unat (w :: u8) < 2 ^ 8"
  using unsigned_less [of w] by simp

lemma unat_w2_less [word_arith]: "unat (w :: 2 word) < 4"
  using unsigned_less [of w] by simp

lemma unat_w4_less [word_arith]: "unat (w :: 4 word) < 16"
  using unsigned_less [of w] by simp

lemma unat_ucast_u8 [simp]: "unat (ucast (w :: u8) :: u32) = unat w" "unat (ucast w :: u16) = unat w"
  using unat_u8_less [of w]
  by (simp_all add: unsigned_ucast_eq take_bit_nat_eq_self)

lemma unat_ucast_u16 [simp]: "unat (ucast (w :: u16) :: u32) = unat w"
  using unat_u16_less [of w] by (simp add: unsigned_ucast_eq take_bit_nat_eq_self)

lemma find_SomeD: "find P xs = Some x \<Longrightarrow> P x \<and> x \<in> set xs"
  by (auto simp: find_Some_iff)

section \<open>Byte buffers\<close>

definition blit :: "nat \<Rightarrow> 'a list \<Rightarrow> 'a list \<Rightarrow> 'a list" where
  \<comment> \<open>\<open>memcpy(buf + off, xs, length xs)\<close>, for a range inside the buffer\<close>
  "blit off xs buf = take off buf @ xs @ drop (off + length xs) buf"

definition slice :: "nat \<Rightarrow> nat \<Rightarrow> 'a list \<Rightarrow> 'a list" where
  "slice off n buf = take n (drop off buf)"

lemma length_blit [simp]:
  "off + length xs \<le> length buf \<Longrightarrow> length (blit off xs buf) = length buf"
  by (simp add: blit_def)

lemma length_slice [simp]: "off + n \<le> length buf \<Longrightarrow> length (slice off n buf) = n"
  by (simp add: slice_def)

lemma take_blit: "off + length xs \<le> length buf \<Longrightarrow> n \<le> off \<Longrightarrow> take n (blit off xs buf) = take n buf"
  by (simp add: blit_def)

lemma drop_blit:
  "off + length xs \<le> length buf \<Longrightarrow> off + length xs \<le> n \<Longrightarrow> drop n (blit off xs buf) = drop n buf"
  by (simp add: blit_def)

lemma take_blit_end:
  "off \<le> length buf \<Longrightarrow> take (off + length xs) (blit off xs buf) = take off buf @ xs"
  by (simp add: blit_def)

lemma slice_blit_same: "off \<le> length buf \<Longrightarrow> slice off (length xs) (blit off xs buf) = xs"
  by (simp add: blit_def slice_def)

definition put_le16 :: "u16 \<Rightarrow> u8 list" where
  "put_le16 v = [ucast v, ucast (drop_bit 8 v)]"

definition put_le32 :: "u32 \<Rightarrow> u8 list" where
  "put_le32 v = [ucast v, ucast (drop_bit 8 v), ucast (drop_bit 16 v), ucast (drop_bit 24 v)]"

definition get_le32 :: "u8 list \<Rightarrow> u32" where
  "get_le32 bs = ucast (bs ! 0) OR push_bit 8 (ucast (bs ! 1)) OR
                 push_bit 16 (ucast (bs ! 2)) OR push_bit 24 (ucast (bs ! 3))"

definition get_le16 :: "u8 list \<Rightarrow> u16" where
  "get_le16 bs = ucast (bs ! 0) OR push_bit 8 (ucast (bs ! 1))"

lemma length_put_le [simp]: "length (put_le16 v) = 2" "length (put_le32 w) = 4"
  by (simp_all add: put_le16_def put_le32_def)

lemma get_put_le32 [simp]: "get_le32 (put_le32 v @ bs) = v"
proof (rule bit_word_eqI)
  fix n assume n: "n < LENGTH(32)"
  consider "n < 8" | "8 \<le> n" "n < 16" | "16 \<le> n" "n < 24" | "24 \<le> n" by linarith
  then show "bit (get_le32 (put_le32 v @ bs)) n = bit v n"
    using n by cases (auto simp: get_le32_def put_le32_def bit_simps)
qed

lemma get_put_le16 [simp]: "get_le16 (put_le16 v @ bs) = v"
proof (rule bit_word_eqI)
  fix n assume n: "n < LENGTH(16)"
  consider "n < 8" | "8 \<le> n" by linarith
  then show "bit (get_le16 (put_le16 v @ bs)) n = bit v n"
    using n by cases (auto simp: get_le16_def put_le16_def bit_simps)
qed

section \<open>Characters\<close>

definition isspace :: "char \<Rightarrow> bool" where
  "isspace c \<longleftrightarrow> (of_char c :: nat) = 32 \<or> 9 \<le> (of_char c :: nat) \<and> (of_char c :: nat) \<le> 13"

text \<open>Decimal numbers, as \<open>printf\<close> formats them.\<close>

fun decimal :: "nat \<Rightarrow> string" where
  "decimal n = (if n < 10 then [char_of (48 + n)] else decimal (n div 10) @ [char_of (48 + n mod 10)])"

declare decimal.simps [simp del]

section \<open>Monadic code\<close>

abbreviation return :: "'a \<Rightarrow> ('s, 'a) state" where
  "return \<equiv> State_Monad.return"

definition zoom :: "('s \<Rightarrow> 't) \<Rightarrow> ('t \<Rightarrow> 's \<Rightarrow> 's) \<Rightarrow> ('t, 'a) state \<Rightarrow> ('s, 'a) state" where
  "zoom g p m = State (\<lambda>s. case run_state m (g s) of (a, t) \<Rightarrow> (a, p t s))"

lemma run_zoom [simp]:
  "run_state (zoom g p m) s = (case run_state m (g s) of (a, t) \<Rightarrow> (a, p t s))"
  by (simp add: zoom_def)

fun seq_neg :: "('s, int) state list \<Rightarrow> ('s, int) state" where
  \<comment> \<open>\<open>ret = m; if (ret < 0) return ret;\<close> for all but the last, whose value is returned\<close>
  "seq_neg [] = return 0"
| "seq_neg [m] = m"
| "seq_neg (m # ms) = do { r \<leftarrow> m; if r < 0 then return r else seq_neg ms }"

fun seq_nz :: "('s, int) state list \<Rightarrow> ('s, int) state" where
  \<comment> \<open>\<open>ret = m; if (ret) return ret;\<close> for all but the last, whose value is returned\<close>
  "seq_nz [] = return 0"
| "seq_nz [m] = m"
| "seq_nz (m # ms) = do { r \<leftarrow> m; if r \<noteq> 0 then return r else seq_nz ms }"

lemma run_if [simp]: "run_state (if b then m else n) s = (if b then run_state m s else run_state n s)"
  by simp

section \<open>Code that may not return\<close>

definition outcome :: "('a \<times> 's) option \<Rightarrow> ('a \<Rightarrow> 's \<Rightarrow> bool) \<Rightarrow> bool" where
  \<comment> \<open>if there is a result, it is as stated\<close>
  "outcome m Q \<longleftrightarrow> (\<forall>a s. m = Some (a, s) \<longrightarrow> Q a s)"

named_theorems outcome_intros \<open>rules for the outcome of code\<close>

lemma outcomeD: "outcome m Q \<Longrightarrow> m = Some (a, s) \<Longrightarrow> Q a s"
  by (simp add: outcome_def)

lemma outcomeI: "(\<And>a s. m = Some (a, s) \<Longrightarrow> Q a s) \<Longrightarrow> outcome m Q"
  by (simp add: outcome_def)

lemma outcome_Some [simp]: "outcome (Some (a, s)) Q \<longleftrightarrow> Q a s"
  by (simp add: outcome_def)

lemma outcome_None [simp]: "outcome None Q"
  by (simp add: outcome_def)

lemma outcome_bind: "outcome m (\<lambda>a s. outcome (f (a, s)) Q) \<Longrightarrow> outcome (Option.bind m f) Q"
  by (cases m) auto

lemma outcome_bind_any: "(\<And>x. outcome (f x) Q) \<Longrightarrow> outcome (Option.bind m f) Q"
  by (cases m) auto

lemma outcome_weaken: "outcome m P \<Longrightarrow> (\<And>a s. P a s \<Longrightarrow> Q a s) \<Longrightarrow> outcome m Q"
  by (auto simp: outcome_def)

lemma outcome_if: "(b \<Longrightarrow> outcome m Q) \<Longrightarrow> (\<not> b \<Longrightarrow> outcome n Q) \<Longrightarrow> outcome (if b then m else n) Q"
  by simp

end
