(* ===== verification/Disk_Cache.thy ===== *)
theory Disk_Cache
  imports Prelude
begin

text \<open>
  The sector cache of \<^verbatim>\<open>firmware/audio/app/src/drivers/disk/disk_cache.c\<close>: a write-through
  cache in front of a backing disk, with least-recently-used replacement.

  The entries live in the blocks of a memory slab and are referred to by pointer, so the model
  has an explicit store: a block number stands for a \<open>struct disk_cache_entry *\<close>, and
  \<open>sector_of\<close> and \<open>data_of\<close> are the fields of the entry in that block. The doubly linked list
  \<open>lru_list\<close> is the list \<open>lru\<close> of block numbers, least recently used first. The aliasing
  matters: a block found by a lookup can be given another sector before its data are read.

  The backing disk and the slab allocator are not part of the repository. They are the parameter
  \<open>ops\<close> of the operations (below), and what the cache relies on is stated by \<open>disk_spec\<close> and
  \<open>slab_spec\<close>. \<open>None\<close> stands for the null pointer dereference of \<open>disk_cache_add\<close> when the slab
  has no block at all. Logging and the debug-only \<open>__ASSERT\<close>s are left out.
\<close>

section \<open>State and operations\<close>

record 'd disk_ops =
  dev_read :: "'d \<Rightarrow> u32 \<Rightarrow> u32 \<Rightarrow> int \<times> u8 list \<times> 'd"
  dev_write :: "'d \<Rightarrow> u8 list \<Rightarrow> u32 \<Rightarrow> u32 \<Rightarrow> int \<times> 'd"
  dev_ioctl :: "'d \<Rightarrow> u8 \<Rightarrow> int \<times> u32 \<times> 'd"
  slab_pick :: "nat list \<Rightarrow> nat option"

record 'd disk_cache =
  sector_size :: nat
  lru :: "nat list"
  sector_of :: "nat \<Rightarrow> u32"
  data_of :: "nat \<Rightarrow> u8 list"
  free_blocks :: "nat list"
  disk :: 'd

definition DISK_IOCTL_GET_SECTOR_SIZE :: u8 where "DISK_IOCTL_GET_SECTOR_SIZE = 2"
definition DISK_IOCTL_CTRL_INIT :: u8 where "DISK_IOCTL_CTRL_INIT = 6"
definition DISK_IOCTL_CTRL_DEINIT :: u8 where "DISK_IOCTL_CTRL_DEINIT = 7"

definition disk_cache_check_config :: "'d disk_ops \<Rightarrow> 'd disk_cache \<Rightarrow> int \<times> 'd disk_cache" where
  "disk_cache_check_config ops s =
     (case dev_ioctl ops (disk s) DISK_IOCTL_GET_SECTOR_SIZE of (ret, sz, d) \<Rightarrow>
        let s = s\<lparr>disk := d\<rparr> in
        if ret < 0 then (ret, s)
        else if unat sz \<noteq> sector_size s then (- EINVAL, s)
        else (0, s))"

fun flush_blocks :: "nat list \<Rightarrow> 'd disk_cache \<Rightarrow> 'd disk_cache" where
  "flush_blocks [] s = s"
| "flush_blocks (b # bs) s =
     flush_blocks bs (s\<lparr>lru := bs, sector_of := (sector_of s)(b := 0),
                        free_blocks := b # free_blocks s\<rparr>)"

definition disk_cache_flush :: "'d disk_cache \<Rightarrow> 'd disk_cache" where
  "disk_cache_flush s = flush_blocks (lru s) s"

definition disk_cache_lookup :: "u32 \<Rightarrow> 'd disk_cache \<Rightarrow> nat option" where
  "disk_cache_lookup sector s = find (\<lambda>b. sector_of s b = sector) (lru s)"

definition disk_cache_add ::
  "'d disk_ops \<Rightarrow> u32 \<Rightarrow> u8 list \<Rightarrow> 'd disk_cache \<Rightarrow> 'd disk_cache option" where
  "disk_cache_add ops sector data s =
     (case slab_pick ops (free_blocks s) of
        Some b \<Rightarrow>
          Some (s\<lparr>free_blocks := remove1 b (free_blocks s),
                  sector_of := (sector_of s)(b := sector),
                  data_of := (data_of s)(b := take (sector_size s) data),
                  lru := lru s @ [b]\<rparr>)
      | None \<Rightarrow>
          (case lru s of
             [] \<Rightarrow> None
           | b # bs \<Rightarrow>
               Some (s\<lparr>sector_of := (sector_of s)(b := sector),
                       data_of := (data_of s)(b := take (sector_size s) data),
                       lru := bs @ [b]\<rparr>)))"

definition disk_cache_bump :: "nat \<Rightarrow> 'd disk_cache \<Rightarrow> 'd disk_cache" where
  "disk_cache_bump b s = s\<lparr>lru := remove1 b (lru s) @ [b]\<rparr>"

text \<open>The loop of \<open>disk_cache_populate\<close>, over the indices \<open>i\<close> still to do.\<close>

fun populate_add ::
  "'d disk_ops \<Rightarrow> u8 list \<Rightarrow> nat \<Rightarrow> u32 \<Rightarrow> nat list \<Rightarrow> 'd disk_cache \<Rightarrow> 'd disk_cache option" where
  "populate_add ops buf off start [] s = Some s"
| "populate_add ops buf off start (i # is) s =
     do { s \<leftarrow> disk_cache_add ops (start + of_nat i) (drop (off + i * sector_size s) buf) s;
          populate_add ops buf off start is s }"

definition disk_cache_populate ::
  "'d disk_ops \<Rightarrow> u8 list \<Rightarrow> nat \<Rightarrow> u32 \<Rightarrow> u32 \<Rightarrow> 'd disk_cache
     \<Rightarrow> (int \<times> u8 list \<times> 'd disk_cache) option" where
  \<comment> \<open>\<open>buf + off\<close> is the pointer the source passes\<close>
  "disk_cache_populate ops buf off start num s =
     (case dev_read ops (disk s) start num of (ret, bytes, d) \<Rightarrow>
        let buf = blit off bytes buf; s = s\<lparr>disk := d\<rparr> in
        if ret < 0 then Some (ret, buf, s)
        else do { s \<leftarrow> populate_add ops buf off start [0..<unat num] s; Some (0, buf, s) })"

text \<open>
  The loop of \<open>disk_cache_access_read\<close>, with the first sector of the current run of misses; the
  result \<open>Inl ret\<close> is the early return.
\<close>

fun access_read_loop ::
  "'d disk_ops \<Rightarrow> u32 \<Rightarrow> nat list \<Rightarrow> u32 \<Rightarrow> u8 list \<Rightarrow> 'd disk_cache
     \<Rightarrow> ((int + u32) \<times> u8 list \<times> 'd disk_cache) option" where
  "access_read_loop ops start [] miss buf s = Some (Inr miss, buf, s)"
| "access_read_loop ops start (i # is) miss buf s =
     (let sector = start + of_nat i in
      case disk_cache_lookup sector s of
        None \<Rightarrow> access_read_loop ops start is miss buf s
      | Some b \<Rightarrow>
          do { (ret, buf, s) \<leftarrow>
                 (if miss \<noteq> sector
                  then disk_cache_populate ops buf (unat (miss - start) * sector_size s) miss
                         (sector - miss) s
                  else Some (0, buf, s));
               if ret < 0 then Some (Inl ret, buf, s)
               else
                 access_read_loop ops start is (sector + 1)
                   (blit (i * sector_size s) (data_of s b) buf) (disk_cache_bump b s) })"

definition disk_cache_access_read ::
  "'d disk_ops \<Rightarrow> u8 list \<Rightarrow> u32 \<Rightarrow> u32 \<Rightarrow> 'd disk_cache
     \<Rightarrow> (int \<times> u8 list \<times> 'd disk_cache) option" where
  "disk_cache_access_read ops buff start num s =
     do { (r, buff, s) \<leftarrow> access_read_loop ops start [0..<unat num] start buff s;
          case r of
            Inl ret \<Rightarrow> Some (ret, buff, s)
          | Inr miss \<Rightarrow>
              let last = start + num in
              if miss \<noteq> last then
                do { (ret, buff, s) \<leftarrow>
                       disk_cache_populate ops buff (unat (miss - start) * sector_size s) miss
                         (last - miss) s;
                     if ret < 0 then Some (ret, buff, s) else Some (0, buff, s) }
              else Some (0, buff, s) }"

fun write_update :: "u8 list \<Rightarrow> u32 \<Rightarrow> nat list \<Rightarrow> 'd disk_cache \<Rightarrow> 'd disk_cache" where
  "write_update buf start [] s = s"
| "write_update buf start (i # is) s =
     write_update buf start is
       (case disk_cache_lookup (start + of_nat i) s of
          None \<Rightarrow> s
        | Some b \<Rightarrow>
            s\<lparr>data_of := (data_of s)(b := slice (i * sector_size s) (sector_size s) buf)\<rparr>)"

definition disk_cache_access_write ::
  "'d disk_ops \<Rightarrow> u8 list \<Rightarrow> u32 \<Rightarrow> u32 \<Rightarrow> 'd disk_cache \<Rightarrow> int \<times> 'd disk_cache" where
  "disk_cache_access_write ops buf start num s =
     (case dev_write ops (disk s) buf start num of (ret, d) \<Rightarrow>
        let s = s\<lparr>disk := d\<rparr> in
        if ret < 0 then (ret, s) else (0, write_update buf start [0..<unat num] s))"

definition disk_cache_access_ioctl ::
  "'d disk_ops \<Rightarrow> u8 \<Rightarrow> 'd disk_cache \<Rightarrow> int \<times> 'd disk_cache" where
  "disk_cache_access_ioctl ops cmd s =
     (case dev_ioctl ops (disk s) cmd of (ret, _, d) \<Rightarrow>
        let s = s\<lparr>disk := d\<rparr> in
        if ret < 0 then (ret, s)
        else if cmd = DISK_IOCTL_CTRL_INIT then
          (case disk_cache_check_config ops s of (ret, s) \<Rightarrow>
             if ret < 0 then (ret, s) else (0, disk_cache_flush s))
        else if cmd = DISK_IOCTL_CTRL_DEINIT then (0, disk_cache_flush s)
        else (0, s))"

section \<open>What the cache relies on\<close>

definition slab_spec :: "'d disk_ops \<Rightarrow> bool" where
  \<comment> \<open>the allocator hands out a free block, and fails only when there is none\<close>
  "slab_spec ops \<longleftrightarrow> (\<forall>fr. case slab_pick ops fr of None \<Rightarrow> fr = [] | Some b \<Rightarrow> b \<in> set fr)"

definition sectors :: "('a \<Rightarrow> u32 \<Rightarrow> u8 list) \<Rightarrow> 'a \<Rightarrow> u32 \<Rightarrow> nat \<Rightarrow> u8 list" where
  "sectors content d start n = concat (map (\<lambda>i. content d (start + of_nat i)) [0..<n])"

definition disk_spec :: "'d disk_ops \<Rightarrow> nat \<Rightarrow> ('d \<Rightarrow> u32 \<Rightarrow> u8 list) \<Rightarrow> bool" where
  \<comment> \<open>\<open>content\<close>: the sectors of the backing disk, as \<open>disk_access_read\<close> and \<open>disk_access_write\<close>
      see them\<close>
  "disk_spec ops ss content \<longleftrightarrow>
     (\<forall>d s. length (content d s) = ss) \<and>
     (\<forall>d start num. case dev_read ops d start num of (ret, bytes, d') \<Rightarrow>
        content d' = content d \<and> length bytes = unat num * ss \<and>
        (0 \<le> ret \<longrightarrow> bytes = sectors content d start (unat num))) \<and>
     (\<forall>d buf start num. case dev_write ops d buf start num of (ret, d') \<Rightarrow>
        0 \<le> ret \<longrightarrow> length buf = unat num * ss \<longrightarrow>
        (\<forall>i < unat num. content d' (start + of_nat i) = slice (i * ss) ss buf) \<and>
        (\<forall>s. s \<notin> (\<lambda>i. start + of_nat i) ` {..<unat num} \<longrightarrow> content d' s = content d s))"

section \<open>The cache as a map from sectors to data\<close>

definition cached_sectors :: "'d disk_cache \<Rightarrow> u32 set" where
  "cached_sectors s = sector_of s ` set (lru s)"

definition dc_wf :: "'d disk_cache \<Rightarrow> bool" where
  \<comment> \<open>no block is in two places, no sector in two blocks\<close>
  "dc_wf s \<longleftrightarrow> distinct (lru s @ free_blocks s) \<and> distinct (map (sector_of s) (lru s))"

definition coherent :: "('d \<Rightarrow> u32 \<Rightarrow> u8 list) \<Rightarrow> 'd disk_cache \<Rightarrow> bool" where
  \<comment> \<open>every cached sector holds what the disk holds\<close>
  "coherent content s \<longleftrightarrow> (\<forall>b \<in> set (lru s). data_of s b = content (disk s) (sector_of s b))"

definition capacity :: "'d disk_cache \<Rightarrow> nat" where
  "capacity s = length (lru s) + length (free_blocks s)"

lemma lookup_SomeD:
  "disk_cache_lookup sec s = Some b \<Longrightarrow> b \<in> set (lru s) \<and> sector_of s b = sec"
  by (auto simp: disk_cache_lookup_def find_Some_iff)

lemma lookup_None_iff: "disk_cache_lookup sec s = None \<longleftrightarrow> sec \<notin> cached_sectors s"
  by (auto simp: disk_cache_lookup_def find_None_iff cached_sectors_def)

lemma lookup_unique:
  assumes "dc_wf s" "b \<in> set (lru s)"
  shows "disk_cache_lookup (sector_of s b) s = Some b"
proof -
  obtain c where c: "disk_cache_lookup (sector_of s b) s = Some c"
    using assms(2) lookup_None_iff [of "sector_of s b" s] by (auto simp: cached_sectors_def)
  with lookup_SomeD [OF c] assms have "c = b"
    by (auto simp: dc_wf_def distinct_map inj_on_def)
  with c show ?thesis by simp
qed

lemma slab_pick_cases:
  "slab_spec ops \<Longrightarrow> case slab_pick ops fr of None \<Rightarrow> fr = [] | Some b \<Rightarrow> b \<in> set fr"
  by (simp add: slab_spec_def)

text \<open>What one insertion does, whichever block it uses.\<close>

lemma add_step:
  assumes "slab_spec ops" "dc_wf s" "sec \<notin> cached_sectors s"
    and "disk_cache_add ops sec data s = Some s'"
  shows "dc_wf s'" "disk s' = disk s" "sector_size s' = sector_size s"
    and "capacity s' = capacity s" "set (lru s) \<subseteq> set (lru s')"
    and "cached_sectors s' \<subseteq> insert sec (cached_sectors s)"
    and "coherent content s \<Longrightarrow> take (sector_size s) data = content (disk s) sec \<Longrightarrow> coherent content s'"
proof -
  consider (new) b where "b \<in> set (free_blocks s)"
      "s' = s\<lparr>free_blocks := remove1 b (free_blocks s), sector_of := (sector_of s)(b := sec),
             data_of := (data_of s)(b := take (sector_size s) data), lru := lru s @ [b]\<rparr>"
    | (replace) b bs where "free_blocks s = []" "lru s = b # bs"
      "s' = s\<lparr>sector_of := (sector_of s)(b := sec),
             data_of := (data_of s)(b := take (sector_size s) data), lru := bs @ [b]\<rparr>"
    using assms(4) slab_pick_cases [OF assms(1), of "free_blocks s"]
    by (auto simp: disk_cache_add_def split: option.splits list.splits)
  note cs = this
  from cs show "dc_wf s'"
  proof cases
    case new
    with assms(2,3) show ?thesis
      by (auto simp: dc_wf_def cached_sectors_def distinct_map inj_on_def dest: notin_set_remove1)
  next
    case replace
    with assms(2,3) show ?thesis
      by (auto simp: dc_wf_def cached_sectors_def distinct_map inj_on_def)
  qed
  from cs show "capacity s' = capacity s"
    by cases (auto simp: capacity_def length_remove1 dest: length_pos_if_in_set)
  from cs assms(2) show "disk s' = disk s" "sector_size s' = sector_size s"
    "set (lru s) \<subseteq> set (lru s')" "cached_sectors s' \<subseteq> insert sec (cached_sectors s)"
    by (cases; auto simp: cached_sectors_def dc_wf_def)+
  assume "coherent content s" "take (sector_size s) data = content (disk s) sec"
  with cs assms(2) show "coherent content s'"
    by cases (auto simp: coherent_def dc_wf_def)
qed

text \<open>With a free block left, an insertion disturbs no entry.\<close>

lemma add_free:
  assumes "slab_spec ops" "dc_wf s" "free_blocks s \<noteq> []"
  shows "\<exists>b s'. disk_cache_add ops sec data s = Some s' \<and> lru s' = lru s @ [b] \<and>
           length (free_blocks s') = length (free_blocks s) - 1 \<and>
           (\<forall>c \<in> set (lru s). sector_of s' c = sector_of s c \<and> data_of s' c = data_of s c)"
proof -
  obtain b where b: "slab_pick ops (free_blocks s) = Some b" "b \<in> set (free_blocks s)"
    using assms(1,3) by (auto simp: slab_spec_def split: option.splits)
  with assms(2) have "b \<notin> set (lru s)" by (auto simp: dc_wf_def)
  with b show ?thesis by (auto simp: disk_cache_add_def length_remove1)
qed

lemma add_Some:
  assumes "slab_spec ops" "capacity s \<noteq> 0"
  shows "\<exists>s'. disk_cache_add ops sec data s = Some s'"
  using assms
  by (auto simp: disk_cache_add_def capacity_def slab_spec_def split: option.splits list.splits)

section \<open>Filling the cache with a run of missed sectors\<close>

lemma index_inj:
  "i < 2 ^ 32 \<Longrightarrow> j < 2 ^ 32 \<Longrightarrow> (start :: u32) + of_nat i = start + of_nat j \<longleftrightarrow> i = j"
  by (simp add: word_of_nat_eq_iff take_bit_nat_eq_self)

lemma still_fresh:
  assumes "cached_sectors t \<subseteq> insert (start + of_nat i) (cached_sectors s)"
    and "distinct (i # is)" "\<forall>i \<in> set (i # is). i < 2 ^ 32"
    and "\<forall>i \<in> set (i # is). start + of_nat i \<notin> cached_sectors s"
  shows "\<forall>j \<in> set is. start + of_nat j \<notin> cached_sectors t"
proof
  fix j assume j: "j \<in> set is"
  with assms(2,3) index_inj [of j i start] have "start + of_nat j \<noteq> start + of_nat i" by auto
  with assms(1,4) j show "start + of_nat j \<notin> cached_sectors t" by auto
qed

lemma populate_add_step:
  assumes "slab_spec ops" "dc_wf s" "distinct is" "\<forall>i \<in> set is. i < 2 ^ 32"
    and "\<forall>i \<in> set is. start + of_nat i \<notin> cached_sectors s"
    and "populate_add ops buf off start is s = Some s'"
  shows "dc_wf s' \<and> disk s' = disk s \<and> sector_size s' = sector_size s \<and> capacity s' = capacity s \<and>
         set (lru s) \<subseteq> set (lru s') \<and>
         cached_sectors s' \<subseteq> cached_sectors s \<union> (\<lambda>i. start + of_nat i) ` set is \<and>
         (coherent content s \<longrightarrow>
          (\<forall>i \<in> set is. slice (off + i * sector_size s) (sector_size s) buf
                         = content (disk s) (start + of_nat i)) \<longrightarrow> coherent content s')"
  using assms(2-)
proof (induction "is" arbitrary: s)
  case Nil
  then show ?case by simp
next
  case (Cons i "is")
  let ?sec = "start + of_nat i"
  from Cons.prems obtain t where
    t: "disk_cache_add ops ?sec (drop (off + i * sector_size s) buf) s = Some t" and
    rest: "populate_add ops buf off start is t = Some s'"
    by (auto split: Option.bind_splits)
  note step = add_step [OF assms(1) Cons.prems(1) _ t]
  have fresh: "?sec \<notin> cached_sectors s" using Cons.prems by simp
  have "\<forall>j \<in> set is. start + of_nat j \<notin> cached_sectors t"
    by (rule still_fresh [OF step(6) [OF fresh] Cons.prems(2-4)])
  with Cons.IH [OF step(1) [OF fresh] _ _ _ rest] Cons.prems
  have IH: "dc_wf s' \<and> disk s' = disk t \<and> sector_size s' = sector_size t \<and> capacity s' = capacity t \<and>
         set (lru t) \<subseteq> set (lru s') \<and>
         cached_sectors s' \<subseteq> cached_sectors t \<union> (\<lambda>i. start + of_nat i) ` set is \<and>
         (coherent content t \<longrightarrow>
          (\<forall>i \<in> set is. slice (off + i * sector_size t) (sector_size t) buf
                         = content (disk t) (start + of_nat i)) \<longrightarrow> coherent content s')"
    by simp
  show ?case
    using IH step(2-5) [OF fresh] step(6) [OF fresh] step(7) [OF fresh, of content]
    by (auto simp: slice_def)
qed

lemma populate_add_free:
  assumes "slab_spec ops" "dc_wf s" "distinct is" "\<forall>i \<in> set is. i < 2 ^ 32"
    and "\<forall>i \<in> set is. start + of_nat i \<notin> cached_sectors s"
    and "populate_add ops buf off start is s = Some s'" "length is \<le> length (free_blocks s)"
  shows "length (free_blocks s') = length (free_blocks s) - length is \<and>
         (\<forall>c \<in> set (lru s). c \<in> set (lru s') \<and> sector_of s' c = sector_of s c \<and> data_of s' c = data_of s c)"
  using assms(2-)
proof (induction "is" arbitrary: s)
  case Nil
  then show ?case by simp
next
  case (Cons i "is")
  let ?sec = "start + of_nat i"
  from Cons.prems obtain t where
    t: "disk_cache_add ops ?sec (drop (off + i * sector_size s) buf) s = Some t" and
    rest: "populate_add ops buf off start is t = Some s'"
    by (auto split: Option.bind_splits)
  have fresh: "?sec \<notin> cached_sectors s" using Cons.prems by simp
  note step = add_step [OF assms(1) Cons.prems(1) fresh t]
  have new: "\<forall>j \<in> set is. start + of_nat j \<notin> cached_sectors t"
    by (rule still_fresh [OF step(6) Cons.prems(2-4)])
  from Cons.prems have "free_blocks s \<noteq> []" by auto
  from add_free [OF assms(1) Cons.prems(1) this, of ?sec "drop (off + i * sector_size s) buf"] t
  obtain b where b: "lru t = lru s @ [b]" "length (free_blocks t) = length (free_blocks s) - 1"
    "\<forall>c \<in> set (lru s). sector_of t c = sector_of s c \<and> data_of t c = data_of s c" by auto
  with Cons.IH [OF step(1) _ _ new rest] Cons.prems show ?case by auto
qed

lemma populate_add_Some:
  assumes "slab_spec ops" "dc_wf s" "distinct is" "\<forall>i \<in> set is. i < 2 ^ 32"
    and "\<forall>i \<in> set is. start + of_nat i \<notin> cached_sectors s" "capacity s \<noteq> 0"
  shows "\<exists>s'. populate_add ops buf off start is s = Some s'"
  using assms(2-)
proof (induction "is" arbitrary: s)
  case Nil
  then show ?case by simp
next
  case (Cons i "is")
  let ?sec = "start + of_nat i"
  from add_Some [OF assms(1) Cons.prems(5)] obtain t where
    t: "disk_cache_add ops ?sec (drop (off + i * sector_size s) buf) s = Some t" by blast
  have fresh: "?sec \<notin> cached_sectors s" using Cons.prems by simp
  note step = add_step [OF assms(1) Cons.prems(1) fresh t]
  have "\<forall>j \<in> set is. start + of_nat j \<notin> cached_sectors t"
    by (rule still_fresh [OF step(6) Cons.prems(2-4)])
  with Cons.IH [of t] step Cons.prems t show ?case by simp
qed

lemma disk_spec_length: "disk_spec ops ss content \<Longrightarrow> length (content d sec) = ss"
  by (simp add: disk_spec_def)

lemma disk_spec_read:
  assumes "disk_spec ops ss content" "dev_read ops d start num = (ret, bytes, d')"
  shows "content d' = content d" "length bytes = unat num * ss"
    and "0 \<le> ret \<Longrightarrow> bytes = sectors content d start (unat num)"
  using disk_spec_def [THEN iffD1, OF assms(1), THEN conjunct2, THEN conjunct1, rule_format,
    where d = d and start = start and num = num] assms(2) by simp_all

lemma disk_spec_write:
  assumes "disk_spec ops ss content" "dev_write ops d buf start num = (ret, d')" "0 \<le> ret"
    and "length buf = unat num * ss"
  shows "i < unat num \<Longrightarrow> content d' (start + of_nat i) = slice (i * ss) ss buf"
    and "sec \<notin> (\<lambda>i. start + of_nat i) ` {..<unat num} \<Longrightarrow> content d' sec = content d sec"
  using disk_spec_def [THEN iffD1, OF assms(1), THEN conjunct2, THEN conjunct2, rule_format,
    where d = d and buf = buf and start = start and num = num] assms(2-4) by simp_all

lemma length_sectors:
  "disk_spec ops ss content \<Longrightarrow> length (sectors content d start n) = n * ss"
  by (induction n) (simp_all add: sectors_def disk_spec_length)

lemma sectors_Suc:
  "sectors content d start (Suc n) = sectors content d start n @ content d (start + of_nat n)"
  by (simp add: sectors_def)

lemma sectors_append:
  "sectors content d start m @ sectors content d (start + of_nat m) k = sectors content d start (m + k)"
proof (induction k)
  case 0
  then show ?case by (simp add: sectors_def)
next
  case (Suc k)
  then show ?case
    by (simp add: sectors_Suc append_assoc [symmetric] add.assoc del: append_assoc)
qed

lemma sectors_0 [simp]: "sectors content d start 0 = []"
  by (simp add: sectors_def)

lemma slice_sectors:
  assumes "disk_spec ops ss content" "i < n"
  shows "slice (i * ss) ss (sectors content d start n) = content d (start + of_nat i)"
proof -
  have "sectors content d start n = sectors content d start i @
          content d (start + of_nat i) @ sectors content d (start + of_nat (Suc i)) (n - Suc i)"
    using sectors_append [of content d start "Suc i" "n - Suc i"] assms(2)
    by (simp add: sectors_Suc)
  then show ?thesis
    by (simp add: slice_def length_sectors [OF assms(1)] disk_spec_length [OF assms(1)])
qed

lemma slice_blit_inner:
  "off + length xs \<le> length buf \<Longrightarrow> k + n \<le> length xs \<Longrightarrow>
   slice (off + k) n (blit off xs buf) = slice k n xs"
  by (simp add: slice_def blit_def)

definition dc_inv :: "('d \<Rightarrow> u32 \<Rightarrow> u8 list) \<Rightarrow> nat \<Rightarrow> 'd disk_cache \<Rightarrow> bool" where
  "dc_inv content ss s \<longleftrightarrow> dc_wf s \<and> coherent content s \<and> sector_size s = ss"

lemma populate_step:
  assumes slab: "slab_spec ops" and dsk: "disk_spec ops ss content" and inv: "dc_inv content ss s"
    and room: "off + unat num * ss \<le> length buf"
    and fresh: "\<forall>i < unat num. start + of_nat i \<notin> cached_sectors s"
    and run: "disk_cache_populate ops buf off start num s = Some (ret, buf', s')"
  shows "dc_inv content ss s'" "content (disk s') = content (disk s)" "capacity s' = capacity s"
    and "set (lru s) \<subseteq> set (lru s')" "length buf' = length buf" "ret \<le> 0"
    and "cached_sectors s' \<subseteq> cached_sectors s \<union> (\<lambda>i. start + of_nat i) ` {..<unat num}"
    and "ret = 0 \<Longrightarrow> buf' = blit off (sectors content (disk s) start (unat num)) buf"
    and "ret = 0 \<Longrightarrow> unat num \<le> length (free_blocks s) \<Longrightarrow>
           length (free_blocks s') = length (free_blocks s) - unat num \<and>
           (\<forall>c \<in> set (lru s). sector_of s' c = sector_of s c)"
proof -
  obtain r bytes d where rd: "dev_read ops (disk s) start num = (r, bytes, d)"
    by (metis prod_cases3)
  note spec = disk_spec_read [OF dsk rd]
  let ?s = "s\<lparr>disk := d\<rparr>" and ?buf = "blit off bytes buf"
  have inv': "dc_wf ?s" "coherent content ?s" "sector_size ?s = ss"
    using inv spec(1) by (auto simp: dc_inv_def dc_wf_def coherent_def)
  have len: "length ?buf = length buf" using room spec(2) by simp
  show "length buf' = length buf"
    using run rd len by (auto simp: disk_cache_populate_def Let_def split: if_splits Option.bind_splits)
  consider (err) "r < 0" "ret = r" "buf' = ?buf" "s' = ?s"
    | (ok) "0 \<le> r" "ret = 0" "buf' = ?buf" "populate_add ops ?buf off start [0..<unat num] ?s = Some s'"
    using run rd by (auto simp: disk_cache_populate_def Let_def split: if_splits Option.bind_splits)
  note cs = this
  have *: "populate_add ops ?buf off start [0..<unat num] ?s = Some s' \<Longrightarrow> 0 \<le> r \<Longrightarrow>
     dc_inv content ss s' \<and> content (disk s') = content (disk s) \<and> capacity s' = capacity s \<and>
     set (lru s) \<subseteq> set (lru s') \<and>
     cached_sectors s' \<subseteq> cached_sectors s \<union> (\<lambda>i. start + of_nat i) ` {..<unat num} \<and>
     (unat num \<le> length (free_blocks s) \<longrightarrow>
        length (free_blocks s') = length (free_blocks s) - unat num \<and>
        (\<forall>c \<in> set (lru s). sector_of s' c = sector_of s c))"
  proof -
    assume add: "populate_add ops ?buf off start [0..<unat num] ?s = Some s'" and "0 \<le> r"
    have small: "\<forall>i \<in> set [0..<unat num]. i < 2 ^ 32"
      using unat_u32_less [of num] by auto
    have fresh': "\<forall>i \<in> set [0..<unat num]. start + of_nat i \<notin> cached_sectors ?s"
      using fresh by (simp add: cached_sectors_def)
    note step = populate_add_step [OF slab inv'(1) distinct_upt small fresh' add, of content]
    have "slice (off + i * ss) ss ?buf = content d (start + of_nat i)" if "i < unat num" for i
    proof -
      have "i * ss + ss \<le> unat num * ss"
        using that mult_le_mono1 [of "Suc i" "unat num" ss] by simp
      then show ?thesis
        using that room spec \<open>0 \<le> r\<close> by (simp add: slice_blit_inner slice_sectors [OF dsk])
    qed
    with step inv' spec(1)
      populate_add_free [OF slab inv'(1) distinct_upt small fresh' add]
    show ?thesis
      by (auto simp: dc_inv_def capacity_def cached_sectors_def lessThan_atLeast0)
  qed
  show "ret \<le> 0" using cs by cases auto
  show "dc_inv content ss s'" "content (disk s') = content (disk s)" "capacity s' = capacity s"
    "set (lru s) \<subseteq> set (lru s')"
    "cached_sectors s' \<subseteq> cached_sectors s \<union> (\<lambda>i. start + of_nat i) ` {..<unat num}"
    using cs * inv' spec(1)
    by (cases; auto simp: dc_inv_def capacity_def cached_sectors_def)+
  show "ret = 0 \<Longrightarrow> buf' = blit off (sectors content (disk s) start (unat num)) buf"
    using cs spec(3) by cases auto
  show "ret = 0 \<Longrightarrow> unat num \<le> length (free_blocks s) \<Longrightarrow>
           length (free_blocks s') = length (free_blocks s) - unat num \<and>
           (\<forall>c \<in> set (lru s). sector_of s' c = sector_of s c)"
    using cs * by cases auto
qed

section \<open>Reading through the cache\<close>

lemma index_diff:
  assumes "m \<le> i" "i < 2 ^ 32"
  shows "unat ((start :: u32) + of_nat i - (start + of_nat m)) = i - m"
proof -
  have "start + of_nat i - (start + of_nat m) = (of_nat (i - m) :: u32)"
    using assms(1) by simp
  then show ?thesis
    using assms by (simp add: unat_of_nat take_bit_nat_eq_self del: of_nat_diff)
qed

text \<open>A hit at index \<open>i\<close>: the pending misses are read, then the cached sector is copied.\<close>

lemma hit_step:
  assumes slab: "slab_spec ops" and dsk: "disk_spec ops ss content" and inv: "dc_inv content ss s"
    and idx: "m \<le> i" "i < n" "n < 2 ^ 32" and len: "n * ss \<le> length buf"
    and fresh: "\<forall>j. m \<le> j \<longrightarrow> j < i \<longrightarrow> start + of_nat j \<notin> cached_sectors s"
    and hit: "disk_cache_lookup (start + of_nat i) s = Some b"
    and pop: "(if start + of_nat m \<noteq> start + of_nat i
               then disk_cache_populate ops buf (unat (start + of_nat m - start) * sector_size s)
                      (start + of_nat m) (start + of_nat i - (start + of_nat m)) s
               else Some (0, buf, s)) = Some (ret, buf1, s1)"
  shows "dc_inv content ss s1 \<and> content (disk s1) = content (disk s) \<and> capacity s1 = capacity s \<and>
         b \<in> set (lru s1) \<and> length buf1 = length buf \<and> ret \<le> 0 \<and>
         (ret = 0 \<longrightarrow> n - m \<le> length (free_blocks s) \<longrightarrow>
            take (m * ss) buf = sectors content (disk s) start m \<longrightarrow>
            sector_of s1 b = start + of_nat i \<and> n - i \<le> length (free_blocks s1) \<and>
            take (i * ss) buf1 = sectors content (disk s) start i)"
proof (cases "m = i")
  case True
  with pop inv lookup_SomeD [OF hit] show ?thesis by auto
next
  case False
  have "start + of_nat m \<noteq> start + of_nat i"
    using False idx index_inj [of m i start] by simp
  moreover have off: "unat (start + of_nat m - start) = m"
    using index_diff [of 0 m start] idx by simp
  moreover have num: "unat (start + of_nat i - (start + of_nat m)) = i - m"
    using index_diff [of m i start] idx by simp
  moreover have ssz: "sector_size s = ss" using inv by (simp add: dc_inv_def)
  ultimately have pop': "disk_cache_populate ops buf (m * ss) (start + of_nat m)
      (start + of_nat i - (start + of_nat m)) s = Some (ret, buf1, s1)"
    using pop by simp
  have ims: "i * ss = m * ss + (i - m) * ss" using idx by (simp add: add_mult_distrib [symmetric])
  have "i * ss \<le> n * ss" using idx by simp
  with len ims have room: "m * ss + unat (start + of_nat i - (start + of_nat m)) * ss \<le> length buf"
    unfolding num by linarith
  have fr: "\<forall>j < unat (start + of_nat i - (start + of_nat m)).
      start + of_nat m + of_nat j \<notin> cached_sectors s"
  proof (intro allI impI)
    fix j assume "j < unat (start + of_nat i - (start + of_nat m))"
    then have "m + j < i" unfolding num by simp
    with fresh [rule_format, of "m + j"] show "start + of_nat m + of_nat j \<notin> cached_sectors s"
      by (simp add: add.assoc)
  qed
  note step = populate_step [OF slab dsk inv room fr pop']
  have "take (i * ss) buf1 = sectors content (disk s) start i"
    if "ret = 0" "take (m * ss) buf = sectors content (disk s) start m"
  proof -
    have "take (i * ss) buf1 = take (m * ss) buf @ sectors content (disk s) (start + of_nat m) (i - m)"
      using step(8) [OF that(1), unfolded num] room [unfolded num] take_blit_end [of "m * ss" buf
          "sectors content (disk s) (start + of_nat m) (i - m)"]
      by (simp add: length_sectors [OF dsk] ims)
    then show ?thesis
      using that(2) sectors_append [of content "disk s" start m "i - m"] idx by simp
  qed
  moreover have "n - i \<le> length (free_blocks s1)" "sector_of s1 b = start + of_nat i"
    if "ret = 0" "n - m \<le> length (free_blocks s)"
    using step(9) [OF that(1), unfolded num] that(2) idx lookup_SomeD [OF hit] by auto
  ultimately show ?thesis using step(1-6) lookup_SomeD [OF hit] by auto
qed

lemma bump_inv:
  assumes "dc_inv content ss s" "b \<in> set (lru s)"
  shows "dc_inv content ss (disk_cache_bump b s)"
    and "cached_sectors (disk_cache_bump b s) = cached_sectors s"
    and "capacity (disk_cache_bump b s) = capacity s"
    and "free_blocks (disk_cache_bump b s) = free_blocks s"
    and "disk (disk_cache_bump b s) = disk s"
    and "set (lru (disk_cache_bump b s)) = set (lru s)"
proof -
  have d: "distinct (lru s)" using assms by (simp add: dc_inv_def dc_wf_def)
  then have st: "set (remove1 b (lru s) @ [b]) = set (lru s)" using assms(2) by auto
  have lr: "set (lru (disk_cache_bump b s)) = set (lru s)"
    using assms(2) d by (auto simp: disk_cache_bump_def)
  have sec: "sector_of (disk_cache_bump b s) = sector_of s" by (simp add: disk_cache_bump_def)
  show "set (lru (disk_cache_bump b s)) = set (lru s)" by (rule lr)
  show "cached_sectors (disk_cache_bump b s) = cached_sectors s"
    unfolding cached_sectors_def lr sec ..
  from assms d st show "dc_inv content ss (disk_cache_bump b s)"
    by (auto simp: dc_inv_def dc_wf_def coherent_def disk_cache_bump_def distinct_map inj_on_def)
  show "capacity (disk_cache_bump b s) = capacity s"
    using assms(2) by (auto simp: capacity_def disk_cache_bump_def length_remove1 dest: length_pos_if_in_set)
qed (simp_all add: disk_cache_bump_def)

lemma read_loop_step:
  assumes slab: "slab_spec ops" and dsk: "disk_spec ops ss content" and n: "n < 2 ^ 32"
  shows "dc_inv content ss s \<Longrightarrow> m \<le> i \<Longrightarrow> i \<le> n \<Longrightarrow> n * ss \<le> length buf \<Longrightarrow>
    \<forall>j. m \<le> j \<longrightarrow> j < i \<longrightarrow> start + of_nat j \<notin> cached_sectors s \<Longrightarrow>
    access_read_loop ops start [i..<n] (start + of_nat m) buf s = Some (r, buf', s') \<Longrightarrow>
    dc_inv content ss s' \<and> content (disk s') = content (disk s) \<and> capacity s' = capacity s \<and>
    length buf' = length buf \<and>
    (case r of Inl e \<Rightarrow> e < 0
     | Inr miss \<Rightarrow> \<exists>m'. m' \<le> n \<and> miss = start + of_nat m' \<and>
         (\<forall>j. m' \<le> j \<longrightarrow> j < n \<longrightarrow> start + of_nat j \<notin> cached_sectors s') \<and>
         (n - m \<le> length (free_blocks s) \<longrightarrow>
          take (m * ss) buf = sectors content (disk s) start m \<longrightarrow>
          take (m' * ss) buf' = sectors content (disk s) start m' \<and>
          n - m' \<le> length (free_blocks s')))"
proof (induction "[i..<n]" arbitrary: i m buf s)
  case Nil
  have "length [i..<n] = 0" using Nil.hyps by (metis list.size(3))
  with Nil.prems(3) have "i = n" by simp
  with Nil.prems show ?case by (auto intro!: exI [of _ m])
next
  case (Cons i0 "is")
  from Cons.hyps(2) have "i < n" by (cases "i < n") auto
  with Cons.hyps(2) have i: "i < n" "i0 = i" "is = [Suc i..<n]"
    by (simp_all add: upt_conv_Cons)
  note IH = Cons.hyps(1) [OF i(3)]
  have upt: "[i..<n] = i # [Suc i..<n]" using i(1) by (simp add: upt_conv_Cons)
  show ?case
  proof (cases "disk_cache_lookup (start + of_nat i) s")
    case None
    then have "start + of_nat i \<notin> cached_sectors s" by (simp add: lookup_None_iff)
    with Cons.prems(5) have "\<forall>j. m \<le> j \<longrightarrow> j < Suc i \<longrightarrow> start + of_nat j \<notin> cached_sectors s"
      by (auto simp: less_Suc_eq)
    with IH [of s m buf] Cons.prems i(1) None show ?thesis by (simp add: upt)
  next
    case (Some b)
    from Cons.prems(6) obtain ret buf1 s1 where
      pop: "(if start + of_nat m \<noteq> start + of_nat i
             then disk_cache_populate ops buf (unat (start + of_nat m - start) * sector_size s)
                    (start + of_nat m) (start + of_nat i - (start + of_nat m)) s
             else Some (0, buf, s)) = Some (ret, buf1, s1)" and
      rest: "(if ret < 0 then Some (Inl ret, buf1, s1)
              else access_read_loop ops start [Suc i..<n] (start + of_nat i + 1)
                     (blit (i * sector_size s1) (data_of s1 b) buf1) (disk_cache_bump b s1))
             = Some (r, buf', s')"
      by (auto simp: upt Some Let_def split: Option.bind_splits)
    note hit = hit_step [OF slab dsk Cons.prems(1,2) i(1) n Cons.prems(4,5) Some pop]
    show ?thesis
    proof (cases "ret < 0")
      case True
      with rest hit show ?thesis by auto
    next
      case False
      with hit have ret0: "ret = 0" by auto
      let ?s2 = "disk_cache_bump b s1"
      let ?buf2 = "blit (i * sector_size s1) (data_of s1 b) buf1"
      have inv1: "dc_inv content ss s1" and b1: "b \<in> set (lru s1)" and len1: "length buf1 = length buf"
        and cds: "content (disk s1) = content (disk s)" and cap1: "capacity s1 = capacity s"
        using hit by blast+
      note bump = bump_inv [OF inv1 b1]
      have ss1: "sector_size s1 = ss" using inv1 by (simp add: dc_inv_def)
      have data: "data_of s1 b = content (disk s) (sector_of s1 b)"
        using inv1 b1 unfolding cds [symmetric] by (simp add: dc_inv_def coherent_def)
      then have dlen: "length (data_of s1 b) = ss" by (simp add: disk_spec_length [OF dsk])
      have isn: "i * ss + ss \<le> n * ss" using mult_le_mono1 [of "Suc i" n ss] i(1) by simp
      then have len2: "length ?buf2 = length buf"
        using dlen len1 ss1 Cons.prems(4) by simp
      have call: "access_read_loop ops start [Suc i..<n] (start + of_nat (Suc i)) ?buf2 ?s2
          = Some (r, buf', s')"
        using rest ret0 by (simp add: ac_simps)
      have res: "take (Suc i * ss) ?buf2 = sectors content (disk s) start (Suc i)"
        if "n - m \<le> length (free_blocks s)" "take (m * ss) buf = sectors content (disk s) start m"
      proof -
        from hit ret0 that have "sector_of s1 b = start + of_nat i"
          "take (i * ss) buf1 = sectors content (disk s) start i" by auto
        with take_blit_end [of "i * ss" buf1 "data_of s1 b"] dlen isn len1 Cons.prems(4) data ss1
        show ?thesis by (simp add: sectors_Suc add.commute)
      qed
      have fr: "n - Suc i \<le> length (free_blocks ?s2)" if "n - m \<le> length (free_blocks s)"
          "take (m * ss) buf = sectors content (disk s) start m"
        using hit ret0 that bump(4) by auto
      have "n * ss \<le> length ?buf2" using len2 Cons.prems(4) by simp
      from IH [OF bump(1) order_refl _ this _ call] i(1)
      have *: "dc_inv content ss s' \<and> content (disk s') = content (disk ?s2) \<and>
        capacity s' = capacity ?s2 \<and> length buf' = length ?buf2 \<and>
        (case r of Inl e \<Rightarrow> e < 0
         | Inr miss \<Rightarrow> \<exists>m'. m' \<le> n \<and> miss = start + of_nat m' \<and>
           (\<forall>j. m' \<le> j \<longrightarrow> j < n \<longrightarrow> start + of_nat j \<notin> cached_sectors s') \<and>
           (n - Suc i \<le> length (free_blocks ?s2) \<longrightarrow>
            take (Suc i * ss) ?buf2 = sectors content (disk ?s2) start (Suc i) \<longrightarrow>
            take (m' * ss) buf' = sectors content (disk ?s2) start m' \<and>
            n - m' \<le> length (free_blocks s')))" by auto
      have cd: "content (disk ?s2) = content (disk s)" using bump(5) cds by simp
      then have "sectors content (disk ?s2) = sectors content (disk s)"
        by (simp add: sectors_def fun_eq_iff)
      with * cd res fr len2 bump(3) cap1 show ?thesis by (auto split: sum.splits)
    qed
  qed
qed

text \<open>The whole read: everything the later theorems need, in one statement.\<close>

lemma access_read_step:
  assumes slab: "slab_spec ops" and dsk: "disk_spec ops ss content" and inv: "dc_inv content ss s"
    and len: "length buf = unat num * ss"
    and run: "disk_cache_access_read ops buf start num s = Some (ret, buf', s')"
  shows "dc_inv content ss s' \<and> content (disk s') = content (disk s) \<and> capacity s' = capacity s \<and>
         length buf' = length buf \<and> ret \<le> 0 \<and>
         (ret = 0 \<longrightarrow> unat num \<le> length (free_blocks s) \<longrightarrow>
            buf' = sectors content (disk s) start (unat num))"
proof -
  let ?n = "unat num"
  have n: "?n < 2 ^ 32" by (rule unat_u32_less)
  obtain r buf1 s1 where loop: "access_read_loop ops start [0..<?n] (start + of_nat 0) buf s = Some (r, buf1, s1)"
    using run by (auto simp: disk_cache_access_read_def split: Option.bind_splits)
  from read_loop_step [OF slab dsk n inv order_refl _ _ _ loop] len
  have L: "dc_inv content ss s1 \<and> content (disk s1) = content (disk s) \<and> capacity s1 = capacity s \<and>
    length buf1 = length buf \<and>
    (case r of Inl e \<Rightarrow> e < 0
     | Inr miss \<Rightarrow> \<exists>m'. m' \<le> ?n \<and> miss = start + of_nat m' \<and>
         (\<forall>j. m' \<le> j \<longrightarrow> j < ?n \<longrightarrow> start + of_nat j \<notin> cached_sectors s1) \<and>
         (?n \<le> length (free_blocks s) \<longrightarrow> take (m' * ss) buf1 = sectors content (disk s) start m' \<and>
          ?n - m' \<le> length (free_blocks s1)))"
    by (cases r) simp_all
  show ?thesis
  proof (cases r)
    case (Inl e)
    with L loop run show ?thesis by (auto simp: disk_cache_access_read_def)
  next
    case (Inr miss)
    with L obtain m where m: "m \<le> ?n" "miss = start + of_nat m"
      "\<forall>j. m \<le> j \<longrightarrow> j < ?n \<longrightarrow> start + of_nat j \<notin> cached_sectors s1"
      "?n \<le> length (free_blocks s) \<Longrightarrow> take (m * ss) buf1 = sectors content (disk s) start m"
      by auto
    have last: "start + num = start + of_nat ?n" by simp
    show ?thesis
    proof (cases "m = ?n")
      case True
      with Inr L loop run m len show ?thesis
        by (auto simp: disk_cache_access_read_def last [symmetric])
    next
      case False
      with m(1) have mn: "m < ?n" by simp
      have neq: "miss \<noteq> start + num"
        using index_inj [of m ?n start] mn n unfolding m(2) last by simp
      have off: "unat (miss - start) = m" using index_diff [of 0 m start] mn n m(2) by simp
      have cnt: "unat (start + num - miss) = ?n - m"
        using index_diff [of m ?n start] mn n unfolding m(2) last by simp
      have ssz: "sector_size s1 = ss" using L by (simp add: dc_inv_def)
      have nms: "?n * ss = m * ss + (?n - m) * ss" using mn by (simp add: add_mult_distrib [symmetric])
      obtain buf2 s2 where pop: "disk_cache_populate ops buf1 (m * ss) miss (start + num - miss) s1
          = Some (ret, buf2, s2)" and fin: "buf' = buf2" "s' = s2"
      proof -
        from run Inr loop neq off ssz obtain r2 b2 t2 where
          "disk_cache_populate ops buf1 (m * ss) miss (start + num - miss) s1 = Some (r2, b2, t2)"
          "(if r2 < 0 then Some (r2, b2, t2) else Some (0, b2, t2)) = Some (ret, buf', s')"
          by (auto simp: disk_cache_access_read_def Let_def split: Option.bind_splits if_splits)
        moreover have "r2 < 0 \<or> r2 = 0"
          using calculation(1)
          by (auto simp: disk_cache_populate_def Let_def split: prod.splits if_splits Option.bind_splits)
        ultimately show ?thesis using that by (auto split: if_splits)
      qed
      have room: "m * ss + unat (start + num - miss) * ss \<le> length buf1"
        using L len nms unfolding cnt by simp
      have fr: "\<forall>i < unat (start + num - miss). miss + of_nat i \<notin> cached_sectors s1"
      proof (intro allI impI)
        fix i assume "i < unat (start + num - miss)"
        then have "m + i < ?n" unfolding cnt by simp
        with m(3) [rule_format, of "m + i"] show "miss + of_nat i \<notin> cached_sectors s1"
          by (simp add: m(2) add.assoc)
      qed
      from L have inv1: "dc_inv content ss s1" by blast
      note step = populate_step [OF slab dsk inv1 room fr pop]
      have "buf' = sectors content (disk s) start ?n"
        if "ret = 0" "?n \<le> length (free_blocks s)"
      proof -
        have "buf2 = take (m * ss + length (sectors content (disk s1) miss (?n - m))) buf2"
          using step(5) L len nms by (simp add: length_sectors [OF dsk])
        also have "\<dots> = take (m * ss) buf1 @ sectors content (disk s1) miss (?n - m)"
          using step(8) [OF that(1), unfolded cnt] room [unfolded cnt]
            take_blit_end [of "m * ss" buf1 "sectors content (disk s1) miss (?n - m)"] by simp
        also have "sectors content (disk s1) = sectors content (disk s)"
          using L by (simp add: sectors_def fun_eq_iff)
        finally show ?thesis
          using m(4) [OF that(2)] sectors_append [of content "disk s" start m "?n - m"] mn fin m(2)
          by simp
      qed
      with step(1-6) L fin show ?thesis by auto
    qed
  qed
qed

lemma access_read_one:
  assumes slab: "slab_spec ops" and dsk: "disk_spec ops ss content" and inv: "dc_inv content ss s"
    and len: "length buf = ss"
    and run: "disk_cache_access_read ops buf start 1 s = Some (0, buf', s')"
  shows "buf' = content (disk s) start"
proof (cases "disk_cache_lookup start s")
  case None
  then have fresh: "\<forall>i < unat (1 :: u32). start + of_nat i \<notin> cached_sectors s"
    by (simp add: lookup_None_iff)
  obtain r b2 t2 where pop: "disk_cache_populate ops buf 0 start 1 s = Some (r, b2, t2)"
    and res: "(if r < 0 then Some (r, b2, t2) else Some (0, b2, t2)) = Some (0, buf', s')"
    using run None inv
    by (auto simp: disk_cache_access_read_def Let_def split: Option.bind_splits)
  have room: "0 + unat (1 :: u32) * ss \<le> length buf" using len by simp
  note step = populate_step [OF slab dsk inv room fresh pop]
  from res step(6) have "r = 0" "b2 = buf'" by (auto split: if_splits)
  with step(8) len show ?thesis
    by (simp add: blit_def sectors_Suc [of _ _ _ 0, simplified] disk_spec_length [OF dsk])
next
  case (Some b)
  with run have "buf' = blit 0 (data_of s b) buf"
    by (auto simp: disk_cache_access_read_def Let_def)
  with lookup_SomeD [OF Some] inv len show ?thesis
    by (simp add: dc_inv_def coherent_def blit_def disk_spec_length [OF dsk])
qed

section \<open>Writing through the cache\<close>

lemma write_update_frame [simp]:
  "lru (write_update buf start is s) = lru s" "sector_of (write_update buf start is s) = sector_of s"
  "free_blocks (write_update buf start is s) = free_blocks s"
  "disk (write_update buf start is s) = disk s"
  "sector_size (write_update buf start is s) = sector_size s"
  by (induction "is" arbitrary: s) (auto split: option.split)

lemma write_update_other:
  "b \<in> set (lru s) \<Longrightarrow> \<forall>i \<in> set is. sector_of s b \<noteq> start + of_nat i \<Longrightarrow>
   data_of (write_update buf start is s) b = data_of s b"
  by (induction "is" arbitrary: s) (auto split: option.split dest!: lookup_SomeD)

lemma write_update_hit:
  assumes "dc_wf s" "b \<in> set (lru s)" "distinct is" "\<forall>i \<in> set is. i < 2 ^ 32"
    and "i \<in> set is" "sector_of s b = start + of_nat i"
  shows "data_of (write_update buf start is s) b = slice (i * sector_size s) (sector_size s) buf"
  using assms
proof (induction "is" arbitrary: s)
  case Nil
  then show ?case by simp
next
  case (Cons j "is")
  show ?case
  proof (cases "j = i")
    case True
    let ?s = "s\<lparr>data_of := (data_of s)(b := slice (i * sector_size s) (sector_size s) buf)\<rparr>"
    have ne: "\<forall>k \<in> set is. sector_of s b \<noteq> start + of_nat k"
    proof
      fix k assume "k \<in> set is"
      with Cons.prems(3-5) True have "k \<noteq> i" "k < 2 ^ 32" "i < 2 ^ 32" by auto
      then show "sector_of s b \<noteq> start + of_nat k"
        unfolding Cons.prems(6) using index_inj [of i k start] by simp
    qed
    have "disk_cache_lookup (start + of_nat i) s = Some b"
      using lookup_unique [OF Cons.prems(1,2)] Cons.prems(6) by simp
    with True write_update_other [of b ?s "is" start buf] ne Cons.prems(2) show ?thesis by simp
  next
    case False
    let ?s = "case disk_cache_lookup (start + of_nat j) s of None \<Rightarrow> s | Some b \<Rightarrow>
      s\<lparr>data_of := (data_of s)(b := slice (j * sector_size s) (sector_size s) buf)\<rparr>"
    have eq: "lru ?s = lru s" "sector_of ?s = sector_of s" "free_blocks ?s = free_blocks s"
      "sector_size ?s = sector_size s"
      by (simp_all split: option.split)
    with Cons.IH [of ?s] Cons.prems False show ?thesis by (simp add: dc_wf_def)
  qed
qed

lemma access_write_step:
  assumes dsk: "disk_spec ops ss content" and inv: "dc_inv content ss s"
    and len: "length buf = unat num * ss"
    and run: "disk_cache_access_write ops buf start num s = (0, s')"
  shows "dc_inv content ss s'" "capacity s' = capacity s"
    and "i < unat num \<Longrightarrow> content (disk s') (start + of_nat i) = slice (i * ss) ss buf"
    and "sec \<notin> (\<lambda>i. start + of_nat i) ` {..<unat num} \<Longrightarrow> content (disk s') sec = content (disk s) sec"
proof -
  obtain r d where w: "dev_write ops (disk s) buf start num = (r, d)" by fastforce
  with run have r: "0 \<le> r" and s': "s' = write_update buf start [0..<unat num] (s\<lparr>disk := d\<rparr>)"
    by (auto simp: disk_cache_access_write_def Let_def split: if_splits)
  note spec = disk_spec_write [OF dsk w r len]
  show "i < unat num \<Longrightarrow> content (disk s') (start + of_nat i) = slice (i * ss) ss buf"
    and "sec \<notin> (\<lambda>i. start + of_nat i) ` {..<unat num} \<Longrightarrow> content (disk s') sec = content (disk s) sec"
    using spec by (simp_all add: s')
  show "capacity s' = capacity s" by (simp add: s' capacity_def)
  have wf: "dc_wf (s\<lparr>disk := d\<rparr>)" and ssz: "sector_size s = ss"
    using inv by (simp_all add: dc_inv_def dc_wf_def)
  have small: "\<forall>i \<in> set [0..<unat num]. i < 2 ^ 32" using unat_u32_less [of num] by auto
  have "data_of s' b = content d (sector_of s b)" if b: "b \<in> set (lru s)" for b
  proof (cases "\<exists>i < unat num. sector_of s b = start + of_nat i")
    case True
    then obtain i where i: "i < unat num" "sector_of s b = start + of_nat i" by blast
    with write_update_hit [OF wf _ distinct_upt small, of b i start buf] b spec(1) ssz
    show ?thesis by (simp add: s')
  next
    case False
    then have "sector_of s b \<notin> (\<lambda>i. start + of_nat i) ` {..<unat num}" by auto
    with spec(2) inv b have "content d (sector_of s b) = data_of s b"
      by (simp add: dc_inv_def coherent_def)
    with write_update_other [of b "s\<lparr>disk := d\<rparr>" "[0..<unat num]" start buf] b False
    show ?thesis by (auto simp: s')
  qed
  with inv wf show "dc_inv content ss s'"
    by (simp add: dc_inv_def coherent_def dc_wf_def s')
qed

section \<open>Flushing\<close>

lemma flush_blocks_result:
  "lru (flush_blocks bs s) = (if bs = [] then lru s else [])"
  "set (free_blocks (flush_blocks bs s)) = set bs \<union> set (free_blocks s)"
  "length (free_blocks (flush_blocks bs s)) = length bs + length (free_blocks s)"
  "distinct (bs @ free_blocks s) \<Longrightarrow> distinct (free_blocks (flush_blocks bs s))"
  "disk (flush_blocks bs s) = disk s" "sector_size (flush_blocks bs s) = sector_size s"
  by (induction bs arbitrary: s) auto

lemma flush_step:
  assumes "dc_wf s"
  shows "dc_inv content (sector_size s) (disk_cache_flush s)" "lru (disk_cache_flush s) = []"
    and "capacity (disk_cache_flush s) = capacity s" "disk (disk_cache_flush s) = disk s"
  using assms
  by (auto simp: disk_cache_flush_def dc_inv_def dc_wf_def coherent_def capacity_def
      flush_blocks_result)

section \<open>The cache as a sector device\<close>

text \<open>
  What a user of a disk relies on when it accesses one sector at a time: reads return the sector's
  content and change nothing, writes change exactly that sector. The client is any sequence of
  accesses, and the abstract specification is an array of sectors.
\<close>

datatype access = Rd u32 | Wr u32 "u8 list"

fun array_run :: "access list \<Rightarrow> (u32 \<Rightarrow> u8 list) \<Rightarrow> u8 list list \<times> (u32 \<Rightarrow> u8 list)" where
  "array_run [] c = ([], c)"
| "array_run (Rd sec # as) c = (case array_run as c of (out, c') \<Rightarrow> (c sec # out, c'))"
| "array_run (Wr sec bs # as) c = array_run as (c(sec := bs))"

fun device_run ::
  "(u32 \<Rightarrow> 's \<Rightarrow> (int \<times> u8 list \<times> 's) option) \<Rightarrow> (u32 \<Rightarrow> u8 list \<Rightarrow> 's \<Rightarrow> int \<times> 's)
     \<Rightarrow> access list \<Rightarrow> 's \<Rightarrow> (u8 list list \<times> 's) option" where
  \<comment> \<open>\<open>None\<close> as soon as an access fails\<close>
  "device_run rd wr [] s = Some ([], s)"
| "device_run rd wr (Rd sec # as) s =
     do { (r, bs, s) \<leftarrow> rd sec s;
          if r \<noteq> 0 then None
          else do { (out, s) \<leftarrow> device_run rd wr as s; Some (bs # out, s) } }"
| "device_run rd wr (Wr sec bs # as) s =
     (case wr sec bs s of (r, s) \<Rightarrow> if r \<noteq> 0 then None else device_run rd wr as s)"

fun access_ok :: "nat \<Rightarrow> access \<Rightarrow> bool" where
  "access_ok ss (Rd sec) = True"
| "access_ok ss (Wr sec bs) = (length bs = ss)"

locale sector_device =
  fixes rd :: "u32 \<Rightarrow> 's \<Rightarrow> (int \<times> u8 list \<times> 's) option"
    and wr :: "u32 \<Rightarrow> u8 list \<Rightarrow> 's \<Rightarrow> int \<times> 's"
    and content :: "'s \<Rightarrow> u32 \<Rightarrow> u8 list"
    and ok :: "'s \<Rightarrow> bool" and ss :: nat
  assumes rd_law: "ok s \<Longrightarrow> rd sec s = Some (0, bs, s') \<Longrightarrow>
      ok s' \<and> content s' = content s \<and> bs = content s sec"
    and wr_law: "ok s \<Longrightarrow> length bs = ss \<Longrightarrow> wr sec bs s = (0, s') \<Longrightarrow>
      ok s' \<and> content s' = (content s)(sec := bs)"
begin

lemma run_refines:
  assumes "ok s" "list_all (access_ok ss) as" "device_run rd wr as s = Some (out, s')"
  shows "ok s' \<and> array_run as (content s) = (out, content s')"
  using assms
proof (induction "as" arbitrary: s out)
  case Nil
  then show ?case by simp
next
  case (Cons a "as")
  show ?case
  proof (cases a)
    case (Rd sec)
    with Cons.prems(3) obtain bs t out' where rd: "rd sec s = Some (0, bs, t)"
      and rest: "device_run rd wr as t = Some (out', s')" "out = bs # out'"
      by (auto split: Option.bind_splits if_splits)
    from rd_law [OF Cons.prems(1) rd] Cons.IH [OF _ _ rest(1)] Cons.prems(2) Rd rest(2)
    show ?thesis by auto
  next
    case (Wr sec bs)
    with Cons.prems(3) obtain t where wr: "wr sec bs s = (0, t)"
      and rest: "device_run rd wr as t = Some (out, s')"
      by (auto split: prod.splits if_splits)
    from Cons.prems(2) Wr have "length bs = ss" by simp
    note law = wr_law [OF Cons.prems(1) this wr]
    have IH: "ok s' \<and> array_run as (content t) = (out, content s')"
      by (rule Cons.IH [OF conjunct1 [OF law] _ rest]) (use Cons.prems(2) in simp)
    from IH conjunct2 [OF law] Wr show ?thesis by (simp only: array_run.simps)
  qed
qed

end

definition cache_read1 ::
  "'d disk_ops \<Rightarrow> u32 \<Rightarrow> 'd disk_cache \<Rightarrow> (int \<times> u8 list \<times> 'd disk_cache) option" where
  "cache_read1 ops sec s = disk_cache_access_read ops (replicate (sector_size s) 0) sec 1 s"

definition cache_write1 :: "'d disk_ops \<Rightarrow> u32 \<Rightarrow> u8 list \<Rightarrow> 'd disk_cache \<Rightarrow> int \<times> 'd disk_cache" where
  "cache_write1 ops sec bs s = disk_cache_access_write ops bs sec 1 s"

definition cache_ok ::
  "'d disk_ops \<Rightarrow> ('d \<Rightarrow> u32 \<Rightarrow> u8 list) \<Rightarrow> nat \<Rightarrow> 'd disk_cache \<Rightarrow> bool" where
  "cache_ok ops content ss s \<longleftrightarrow>
     slab_spec ops \<and> disk_spec ops ss content \<and> dc_inv content ss s"

interpretation dc: sector_device "cache_read1 ops" "cache_write1 ops"
  "\<lambda>s. content (disk s)" "cache_ok ops content ss" ss for ops content ss
proof (unfold_locales, goal_cases)
  case (1 s sec bs s')
  then have ok: "slab_spec ops" "disk_spec ops ss content" "dc_inv content ss s"
    and run: "disk_cache_access_read ops (replicate ss 0) sec 1 s = Some (0, bs, s')"
    by (simp_all add: cache_ok_def cache_read1_def dc_inv_def)
  from access_read_step [OF ok _ run] access_read_one [OF ok _ run] ok
  show ?case by (simp add: cache_ok_def)
next
  case (2 s bs sec s')
  then have ok: "slab_spec ops" "disk_spec ops ss content" "dc_inv content ss s"
    and run: "disk_cache_access_write ops bs sec 1 s = (0, s')"
    by (simp_all add: cache_ok_def cache_write1_def)
  have len: "length bs = unat (1 :: u32) * ss" using 2 by simp
  note step = access_write_step [OF ok(2,3) len run]
  have "content (disk s') x = ((content (disk s))(sec := bs)) x" for x
    using step(3) [of 0] step(4) [of x] 2 by (auto simp: slice_def)
  with step(1) ok show ?case by (auto simp: cache_ok_def fun_eq_iff)
qed

section \<open>A slab with a block never blocks the cache\<close>

lemma populate_add_returns:
  assumes "slab_spec ops" "capacity s \<noteq> 0"
  shows "\<exists>s'. populate_add ops buf off start is s = Some s' \<and> capacity s' = capacity s"
  using assms(2)
proof (induction "is" arbitrary: s)
  case Nil
  then show ?case by simp
next
  case (Cons i "is")
  obtain t where t: "disk_cache_add ops (start + of_nat i) (drop (off + i * sector_size s) buf) s = Some t"
    using add_Some [OF assms(1) Cons.prems] by blast
  moreover have "capacity t = capacity s"
  proof (cases "slab_pick ops (free_blocks s)")
    case None
    with t show ?thesis by (auto simp: disk_cache_add_def capacity_def split: list.splits)
  next
    case (Some b)
    with slab_pick_cases [OF assms(1), of "free_blocks s"] have "b \<in> set (free_blocks s)" by simp
    with t Some length_pos_if_in_set [OF this] show ?thesis
      by (auto simp: disk_cache_add_def capacity_def length_remove1)
  qed
  ultimately show ?case using Cons.IH [of t] Cons.prems by simp
qed

lemma populate_returns:
  assumes "slab_spec ops" "capacity s \<noteq> 0"
  shows "\<exists>ret buf' s'. disk_cache_populate ops buf off start num s = Some (ret, buf', s') \<and>
           capacity s' = capacity s"
proof -
  obtain ret bytes d where r: "dev_read ops (disk s) start num = (ret, bytes, d)"
    by (cases "dev_read ops (disk s) start num")
  have "capacity (s\<lparr>disk := d\<rparr>) = capacity s" by (simp add: capacity_def)
  with populate_add_returns [OF assms(1), of "s\<lparr>disk := d\<rparr>" "blit off bytes buf" off start
      "[0..<unat num]"] assms(2) r
  show ?thesis by (auto simp: disk_cache_populate_def Let_def)
qed

lemma bump_capacity: "disk_cache_lookup sec s = Some b \<Longrightarrow> capacity t = capacity s \<Longrightarrow>
  capacity (disk_cache_bump c t) = 0 \<longrightarrow> capacity s = 0"
  by (simp add: capacity_def disk_cache_bump_def)

lemma read_loop_returns:
  assumes "slab_spec ops" "capacity s \<noteq> 0"
  shows "\<exists>r buf' s'. access_read_loop ops start is miss buf s = Some (r, buf', s') \<and> capacity s' \<noteq> 0"
  using assms(2)
proof (induction "is" arbitrary: miss buf s)
  case Nil
  then show ?case by simp
next
  case (Cons i "is")
  show ?case
  proof (cases "disk_cache_lookup (start + of_nat i) s")
    case None
    with Cons show ?thesis by simp
  next
    case (Some b)
    let ?sec = "start + of_nat i"
    obtain ret buf1 s1 where p: "(if miss \<noteq> ?sec
        then disk_cache_populate ops buf (unat (miss - start) * sector_size s) miss (?sec - miss) s
        else Some (0, buf, s)) = Some (ret, buf1, s1)" "capacity s1 = capacity s"
      using populate_returns [OF assms(1) Cons.prems, of buf "unat (miss - start) * sector_size s"
          miss "?sec - miss"] by (cases "miss = ?sec") auto
    have "capacity (disk_cache_bump b s1) \<noteq> 0"
      using bump_capacity [OF Some p(2)] Cons.prems by auto
    with Cons.IH [of "disk_cache_bump b s1"] Some p Cons.prems show ?thesis
      by (simp add: Let_def)
  qed
qed

section \<open>Properties\<close>

text \<open>
  A backing disk in memory and a first-fit allocator, to apply the theorems at concrete inputs.
\<close>

definition ram_content :: "nat \<Rightarrow> (u32 \<Rightarrow> u8 list) \<Rightarrow> u32 \<Rightarrow> u8 list" where
  "ram_content ss d s = take ss (d s @ replicate ss 0)"

definition ram_ops :: "nat \<Rightarrow> (u32 \<Rightarrow> u8 list) disk_ops" where
  "ram_ops ss = \<lparr>
     dev_read = (\<lambda>d start num. (0, sectors (ram_content ss) d start (unat num), d)),
     dev_write = (\<lambda>d buf start num.
       (0, \<lambda>s. if unat (s - start) < unat num then slice (unat (s - start) * ss) ss buf else d s)),
     dev_ioctl = (\<lambda>d cmd. (0, of_nat ss, d)),
     slab_pick = (\<lambda>fr. case fr of [] \<Rightarrow> None | b # _ \<Rightarrow> Some b)\<rparr>"

lemma ram_slab: "slab_spec (ram_ops ss)"
  by (auto simp: slab_spec_def ram_ops_def split: list.splits)

lemma length_ram_content: "length (ram_content ss d s) = ss"
  by (simp add: ram_content_def)

lemma ram_spec: "disk_spec (ram_ops ss) ss (ram_content ss)"
proof -
  have len: "length (sectors (ram_content ss) d start n) = n * ss" for d start n
    by (induction n) (simp_all add: sectors_def length_ram_content)
  have w1: "ram_content ss (\<lambda>s. if unat (s - start) < unat num
        then slice (unat (s - start) * ss) ss buf else d s) (start + of_nat i) = slice (i * ss) ss buf"
    if "length buf = unat num * ss" "i < unat num" for d buf i and start num :: u32
  proof -
    have "i < 2 ^ 32" using that unat_u32_less [of num] by simp
    then have "unat (start + of_nat i - start) = i" using index_diff [of 0 i start] by simp
    moreover have "i * ss + ss \<le> unat num * ss" using mult_le_mono1 [of "Suc i" "unat num" ss] that by simp
    ultimately show ?thesis using that by (simp add: ram_content_def)
  qed
  have w2: "\<not> unat (s - start) < unat num"
    if "s \<notin> (\<lambda>i. start + of_nat i) ` {..<unat num}" for s start and num :: u32
  proof
    assume "unat (s - start) < unat num"
    moreover have "s = start + of_nat (unat (s - start))" by simp
    ultimately show False using that by blast
  qed
  have w3: "ram_content ss (\<lambda>s. if unat (s - start) < unat num
        then slice (unat (s - start) * ss) ss buf else d s) s = ram_content ss d s"
    if "s \<notin> (\<lambda>i. start + of_nat i) ` {..<unat num}" for d buf s start and num :: u32
    using w2 [OF that] by (simp add: ram_content_def)
  show ?thesis
    using w1 w3 by (simp add: disk_spec_def length_ram_content ram_ops_def len)
qed

definition example_cache :: "(u32 \<Rightarrow> u8 list) disk_cache" where
  \<comment> \<open>two blocks of one byte, holding sectors 5 (older) and 9\<close>
  "example_cache = \<lparr>sector_size = 1, lru = [0, 1],
     sector_of = (\<lambda>b. if b = 0 then 5 else 9), data_of = (\<lambda>b. if b = 0 then [5] else [9]),
     free_blocks = [], disk = (\<lambda>s. [ucast s])\<rparr>"

definition empty_cache :: "(u32 \<Rightarrow> u8 list) disk_cache" where
  "empty_cache = \<lparr>sector_size = 1, lru = [], sector_of = (\<lambda>b. 0), data_of = (\<lambda>b. [0]),
     free_blocks = [0, 1, 2], disk = (\<lambda>s. [ucast s])\<rparr>"

lemma example_cache_inv: "dc_inv (ram_content 1) 1 example_cache"
  by (simp add: dc_inv_def dc_wf_def coherent_def example_cache_def ram_content_def)

lemma empty_cache_inv: "dc_inv (ram_content 1) 1 empty_cache"
  by (simp add: dc_inv_def dc_wf_def coherent_def empty_cache_def ram_content_def)

text \<open>
  Property C1. A read that succeeds fills the caller's buffer with what the backing disk holds,
  sector by sector, whenever the slab has a free block for each sector asked for or a single sector
  is read, for any mixture of hits and misses.
\<close>

theorem disk_cache_read_content:
  assumes "slab_spec ops" "disk_spec ops ss content" "dc_inv content ss s"
    and "length buf = unat num * ss"
    and "disk_cache_access_read ops buf start num s = Some (0, buf', s')"
    and "unat num \<le> length (free_blocks s) \<or> num = 1"
  shows "buf' = sectors content (disk s) start (unat num)"
  using access_read_step [OF assms(1-5)] access_read_one [OF assms(1-3)] assms(4-6)
  by (auto simp: sectors_def)

theorem disk_cache_read_content_witness:
  "\<exists>s'. disk_cache_access_read (ram_ops 1) [0, 0] 4 2 empty_cache = Some (0, [4, 5], s') \<and>
        [4, 5] = sectors (ram_content 1) (disk empty_cache) 4 2"
proof -
  obtain s' where run: "disk_cache_access_read (ram_ops 1) [0, 0] 4 2 empty_cache = Some (0, [4, 5], s')"
    by (simp add: disk_cache_access_read_def upt_rec disk_cache_lookup_def empty_cache_def
        disk_cache_populate_def ram_ops_def disk_cache_add_def sectors_def ram_content_def blit_def)
  with disk_cache_read_content [OF ram_slab ram_spec empty_cache_inv _ run]
  show ?thesis by (simp add: empty_cache_def)
qed

text \<open>
  Property C2. A read keeps the cache coherent whatever it returns: a cached sector still holds what
  the disk holds, no block is lost or used twice, the disk keeps its content, the caller's buffer
  its length, and the result is zero or a negative error.
\<close>

theorem disk_cache_read_invariant:
  assumes "slab_spec ops" "disk_spec ops ss content" "dc_inv content ss s"
    and "length buf = unat num * ss"
    and "disk_cache_access_read ops buf start num s = Some (ret, buf', s')"
  shows "dc_inv content ss s' \<and> content (disk s') = content (disk s) \<and> capacity s' = capacity s \<and>
         length buf' = length buf \<and> ret \<le> 0"
  using access_read_step [OF assms] by blast

theorem disk_cache_read_invariant_witness:
  "\<exists>ret buf' s'. disk_cache_access_read (ram_ops 1) [0, 0] 4 2 example_cache = Some (ret, buf', s') \<and>
     dc_inv (ram_content 1) 1 s' \<and> capacity s' = 2"
proof -
  obtain r where run: "disk_cache_access_read (ram_ops 1) [0, 0] 4 2 example_cache = Some r"
    by (simp add: disk_cache_access_read_def upt_rec disk_cache_lookup_def example_cache_def
        disk_cache_populate_def ram_ops_def disk_cache_add_def sectors_def ram_content_def blit_def)
  have cap: "capacity example_cache = 2" by (simp add: capacity_def example_cache_def)
  obtain ret buf' s' where r: "r = (ret, buf', s')" by (cases r)
  have "length [0, 0 :: u8] = unat (2 :: u32) * 1" by simp
  note disk_cache_read_invariant [OF ram_slab ram_spec example_cache_inv this run [unfolded r]]
  with run r cap show ?thesis by auto
qed

text \<open>
  A read always returns when the slab has at least one block.
\<close>

theorem disk_cache_read_returns:
  assumes "slab_spec ops" "capacity s \<noteq> 0"
  shows "\<exists>ret buf' s'. disk_cache_access_read ops buf start num s = Some (ret, buf', s')"
proof -
  obtain r buf1 s1 where "access_read_loop ops start [0..<unat num] start buf s = Some (r, buf1, s1)"
    "capacity s1 \<noteq> 0"
    using read_loop_returns [OF assms] by blast
  moreover obtain ret buf2 s2 where "disk_cache_populate ops buf1
      (unat (projr r - start) * sector_size s1) (projr r) (start + num - projr r) s1 = Some (ret, buf2, s2)"
    using populate_returns [OF assms(1) calculation(2)] by blast
  ultimately show ?thesis
    by (cases r) (auto simp: disk_cache_access_read_def Let_def)
qed

theorem disk_cache_read_returns_witness:
  "\<exists>ret buf' s'. disk_cache_access_read (ram_ops 1) [0, 0, 0] 8 3 example_cache = Some (ret, buf', s')"
  by (rule disk_cache_read_returns [OF ram_slab]) (simp add: capacity_def example_cache_def)

text \<open>
  Property C3. A write that succeeds reaches the disk for exactly the sectors written, and leaves no
  stale copy of them in the cache.
\<close>

theorem disk_cache_write_through:
  assumes "disk_spec ops ss content" "dc_inv content ss s" "length buf = unat num * ss"
    and "disk_cache_access_write ops buf start num s = (0, s')"
  shows "dc_inv content ss s' \<and>
         (\<forall>i < unat num. content (disk s') (start + of_nat i) = slice (i * ss) ss buf) \<and>
         (\<forall>sec. sec \<notin> (\<lambda>i. start + of_nat i) ` {..<unat num} \<longrightarrow>
            content (disk s') sec = content (disk s) sec)"
  using access_write_step [OF assms] by blast

theorem disk_cache_write_through_witness:
  "\<exists>s'. disk_cache_access_write (ram_ops 1) [7, 8] 5 2 example_cache = (0, s') \<and>
     dc_inv (ram_content 1) 1 s' \<and> ram_content 1 (disk s') 6 = [8]"
proof -
  obtain s' where run: "disk_cache_access_write (ram_ops 1) [7, 8] 5 2 example_cache = (0, s')"
    by (simp add: disk_cache_access_write_def example_cache_def ram_ops_def)
  have len: "length [7, 8 :: u8] = unat (2 :: u32) * 1" by simp
  note through = disk_cache_write_through [OF ram_spec example_cache_inv len run]
  have "1 < unat (2 :: u32)" by simp
  with through have "ram_content 1 (disk s') (5 + of_nat 1) = slice (1 * 1) 1 [7, 8]" by blast
  with run through show ?thesis by (simp add: slice_def)
qed

text \<open>
  Property C4. Refinement: for any sequence of single-sector reads and writes that all succeed, the
  cached disk answers exactly as an array of sectors does, and ends with the array's content.
\<close>

theorem cache_refines_sector_array:
  assumes "slab_spec ops" "disk_spec ops ss content" "dc_inv content ss s"
    and "list_all (access_ok ss) as"
    and "device_run (cache_read1 ops) (cache_write1 ops) as s = Some (out, s')"
  shows "array_run as (content (disk s)) = (out, content (disk s'))"
  using dc.run_refines [of ops content ss s "as" out s'] assms by (simp add: cache_ok_def)

theorem cache_refines_sector_array_witness:
  "\<exists>s'. device_run (cache_read1 (ram_ops 1)) (cache_write1 (ram_ops 1))
          [Rd 9, Wr 9 [3], Rd 9] example_cache = Some ([[9], [3]], s') \<and>
     array_run [Rd 9, Wr 9 [3], Rd 9] (ram_content 1 (disk example_cache))
       = ([[9], [3]], ram_content 1 (disk s'))"
proof -
  obtain s' where run: "device_run (cache_read1 (ram_ops 1)) (cache_write1 (ram_ops 1))
      [Rd 9, Wr 9 [3], Rd 9] example_cache = Some ([[9], [3]], s')"
    by (simp add: cache_read1_def cache_write1_def disk_cache_access_read_def upt_rec
        disk_cache_access_write_def disk_cache_lookup_def example_cache_def disk_cache_bump_def
        ram_ops_def slice_def blit_def)
  have "list_all (access_ok 1) [Rd 9, Wr 9 [3], Rd 9]" by simp
  from cache_refines_sector_array [OF ram_slab ram_spec example_cache_inv this run] run
  show ?thesis by blast
qed

text \<open>
  Property C5. A defect of multi-sector reads: when the slab is exhausted and the least recently used
  entry is the second of the two sectors asked for, filling in the first one reuses the block that
  the lookup has just found. The read returns 0, with the first sector's data in the place of the
  second's.
\<close>

theorem disk_cache_read_evicted_hit:
  assumes "slab_spec ops" "disk_spec ops ss content" "dc_inv content ss s"
    and "free_blocks s = []" "lru s = b # bs" "sector_of s b = start + 1"
    and "start \<notin> cached_sectors s" "dev_read ops (disk s) start 1 = (0, content (disk s) start, d)"
    and "length buf = 2 * ss"
  shows "\<exists>s'. disk_cache_access_read ops buf start 2 s
           = Some (0, content (disk s) start @ content (disk s) start, s')"
proof -
  have pick: "slab_pick ops [] = None"
    using slab_pick_cases [OF assms(1), of "[]"] by (auto split: option.splits)
  have ssz: "sector_size s = ss" and len: "length (content (disk s) start) = ss"
    using assms(3) disk_spec_length [OF assms(2)] by (simp_all add: dc_inv_def)
  have miss: "disk_cache_lookup start s = None" using assms(7) by (simp add: lookup_None_iff)
  have hit: "disk_cache_lookup (start + 1) s = Some b"
    using assms(5,6) by (simp add: disk_cache_lookup_def)
  show ?thesis
    using assms(4-9) pick ssz len miss hit
    by (simp add: disk_cache_access_read_def upt_rec disk_cache_populate_def disk_cache_add_def
        disk_cache_bump_def blit_def)
qed

theorem disk_cache_read_evicted_hit_witness:
  "\<exists>s'. disk_cache_access_read (ram_ops 1) [0, 0] 4 2 example_cache = Some (0, [4] @ [4], s')"
  using disk_cache_read_evicted_hit [OF ram_slab ram_spec example_cache_inv,
      where b = 0 and bs = "[1]" and start = 4 and buf = "[0, 0]" and d = "disk example_cache"]
  by (simp add: example_cache_def cached_sectors_def ram_ops_def sectors_def ram_content_def)

text \<open>
  Initialising or removing the disk empties the cache and returns every block to the
  slab; initialising fails with -EINVAL, and keeps the cache, when the disk's sector size is not
  the configured one.
\<close>

theorem disk_cache_ioctl_flushes:
  fixes content :: "'d \<Rightarrow> u32 \<Rightarrow> u8 list"
  assumes "dc_wf s" "dev_ioctl ops (disk s) cmd = (r, v, d)" "0 \<le> r"
    and "dev_ioctl ops d DISK_IOCTL_GET_SECTOR_SIZE = (0, sz, d2)"
    and "disk_cache_access_ioctl ops cmd s = (ret, s')"
  shows "(cmd = DISK_IOCTL_CTRL_DEINIT \<or> cmd = DISK_IOCTL_CTRL_INIT \<and> unat sz = sector_size s \<longrightarrow>
            ret = 0 \<and> lru s' = [] \<and> dc_inv content (sector_size s) s' \<and> capacity s' = capacity s) \<and>
         (cmd = DISK_IOCTL_CTRL_INIT \<and> unat sz \<noteq> sector_size s \<longrightarrow>
            ret = - EINVAL \<and> s' = s\<lparr>disk := d2\<rparr>)"
proof -
  have wf: "dc_wf (s\<lparr>disk := e\<rparr>)" "capacity (s\<lparr>disk := e\<rparr>) = capacity s" for e
    using assms(1) by (simp_all add: dc_wf_def capacity_def)
  note fl = flush_step [OF wf(1) [of d]] flush_step [OF wf(1) [of d2]]
  show ?thesis
    using assms(2-5) fl wf(2)
    by (auto simp: disk_cache_access_ioctl_def disk_cache_check_config_def Let_def
        DISK_IOCTL_CTRL_DEINIT_def DISK_IOCTL_CTRL_INIT_def split: if_splits)
qed

theorem disk_cache_ioctl_flushes_witness:
  "\<exists>s'. disk_cache_access_ioctl (ram_ops 1) DISK_IOCTL_CTRL_INIT example_cache = (0, s') \<and>
     lru s' = [] \<and> capacity s' = 2"
proof -
  obtain ret s' where run:
    "disk_cache_access_ioctl (ram_ops 1) DISK_IOCTL_CTRL_INIT example_cache = (ret, s')"
    by fastforce
  have wf: "dc_wf example_cache" using example_cache_inv by (simp add: dc_inv_def)
  have io: "dev_ioctl (ram_ops 1) (disk example_cache) DISK_IOCTL_CTRL_INIT = (0, 1, disk example_cache)"
    "dev_ioctl (ram_ops 1) (disk example_cache) DISK_IOCTL_GET_SECTOR_SIZE = (0, 1, disk example_cache)"
    by (simp_all add: ram_ops_def)
  have "ret = 0 \<and> lru s' = [] \<and> dc_inv (ram_content 1) (sector_size example_cache) s' \<and>
      capacity s' = capacity example_cache"
    using disk_cache_ioctl_flushes [OF wf io(1) _ io(2) run, of "ram_content 1"] by (simp add: example_cache_def)
  moreover have "capacity example_cache = 2" by (simp add: capacity_def example_cache_def)
  ultimately show ?thesis using run by simp
qed

end
