(* ===== verification/Zephyr.thy ===== *)
theory Zephyr
  imports Prelude
begin

text \<open>
  The calls the drivers make to the Zephyr kernel and to the buses. None of this code is part of
  the repository: a call is an event, and what it answers is decided by a parameter \<open>env\<close> that may
  depend on everything that was called before. Code that talks to the outside world runs in the
  state monad over the trace of the calls made so far with their replies, so that a statement can
  speak of the exact sequence of bus transactions a function performs.

  \<open>r_ret\<close> is the return value of the call, \<open>r_byte i\<close> is the byte at index \<open>i\<close> of its output
  buffer, \<open>r_num\<close> its output value when that is a number,
  \<open>r_text\<close> when it is a string, \<open>r_size\<close> a size.
\<close>

datatype (plugins only: code size) ext_call =
    I2cReady u8
  | I2cRegWrite u8 u8 u8          \<comment> \<open>device address, register, value\<close>
  | I2cRegRead u8 u8
  | I2cRegUpdate u8 u8 u8 u8      \<comment> \<open>device address, register, mask, value\<close>
  | I2cWrite u8 "u8 list"
  | I2cWriteRead u8 "u8 list" nat
  | WorkSchedule u64              \<comment> \<open>delay in milliseconds\<close>
  | WorkSubmit string
  | DeviceReady string
  | GpioReady string
  | GpioConfigure string string   \<comment> \<open>pin, flags\<close>
  | GpioSet string bool
  | GpioAddCallback string
  | GpioInterrupt string
  | FireCallbacks u32             \<comment> \<open>run the callbacks interested in these events\<close>
  | ManageCallback u32 bool       \<comment> \<open>events of the callback, add it or remove it\<close>
  | MSleep nat
  | SemGive string
  | SemReset string
  | SemTake string nat            \<comment> \<open>semaphore, timeout in milliseconds\<close>
  | RegulatorCommonInit bool
  | FsOpen string                 \<comment> \<open>create or truncate for writing; \<open>r_num\<close> is the file\<close>
  | FsWrite int "u8 list"         \<comment> \<open>\<open>r_num\<close> is \<open>errno\<close> after the call\<close>
  | FsSeekSet int nat
  | FsSeekEnd int
  | FsSync int
  | FsClose int
  | FsOpenDir string
  | FsReadDir                     \<comment> \<open>\<open>r_text\<close> is the name of the entry, empty at the end, \<open>r_num\<close> its type,
                                      \<open>r_size\<close> its size\<close>
  | FsCloseDir
  | UptimeGet
  | MsgqPut string
  | SettingsLoad string
  | SettingsSave string string    \<comment> \<open>key, value\<close>
  | ThreadCreate string
  | CodecStartInput
  | CodecStopInput
  | SockSocket
  | SockBind int nat              \<comment> \<open>socket, port\<close>
  | SockListen int
  | SockAccept int
  | SockGetsockname int           \<comment> \<open>\<open>r_num\<close> is the port, \<open>r_size\<close> the address family, \<open>r_byte\<close> the address\<close>
  | SockGetpeername int
  | SockRecv int nat              \<comment> \<open>socket, room; \<open>r_text\<close> is the data\<close>
  | SockSend int string
  | SockClose int
  | FsOpenRead string
  | FsOpenCreate string           \<comment> \<open>for writing, created when it does not exist, not truncated\<close>
  | FsRead int nat                \<comment> \<open>file, room; \<open>r_text\<close> is the data\<close>
  | FsStat string                 \<comment> \<open>\<open>r_num\<close> is the type of the entry, \<open>r_size\<close> its size\<close>
  | FsStatvfs string
  | FsUnlink string
  | FsMkdir string
  | MboxPut int                   \<comment> \<open>the socket in the message\<close>
  | Bt string "nat list"          \<comment> \<open>a call of the Bluetooth host, with its numeric arguments\<close>
  | BtSetData "u8 list"           \<comment> \<open>\<open>bt_le_per_adv_set_data\<close>\<close>
  | Nrf string                    \<comment> \<open>a call of the nrfx library; \<open>r_num\<close> is its result\<close>
  | IpcSend "u8 list"
  | SysCall string "nat list"     \<comment> \<open>another call of the kernel, with its numeric arguments\<close>
  | CodecCall string "int list"   \<comment> \<open>a call of the codec driver, with its arguments\<close>
  | I2sCall string                \<comment> \<open>a call of the I2S driver; \<open>r_text\<close> is the block read\<close>
  | MboxGet                       \<comment> \<open>\<open>r_num\<close> is the socket in the message\<close>

record reply =
  r_ret :: int
  r_byte :: "nat \<Rightarrow> u8"
  r_num :: int
  r_text :: string
  r_size :: nat

type_synonym trace = "(ext_call \<times> reply) list"
type_synonym env = "trace \<Rightarrow> ext_call \<Rightarrow> reply"

definition ext :: "env \<Rightarrow> ext_call \<Rightarrow> (trace, reply) state" where
  "ext env c = State (\<lambda>tr. (env tr c, tr @ [(c, env tr c)]))"

lemma run_ext [simp]: "run_state (ext env c) tr = (env tr c, tr @ [(c, env tr c)])"
  by (simp add: ext_def)

definition ext_ret :: "env \<Rightarrow> ext_call \<Rightarrow> (trace, int) state" where
  "ext_ret env c = do { r \<leftarrow> ext env c; return (r_ret r) }"

lemma run_ext_ret [simp]:
  "run_state (ext_ret env c) tr = (r_ret (env tr c), tr @ [(c, env tr c)])"
  by (simp add: ext_ret_def)

text \<open>An environment in which every call succeeds and reads return zeros.\<close>

definition quiet_reply :: reply where
  "quiet_reply = \<lparr>r_ret = 0, r_byte = (\<lambda>i. 0), r_num = 0, r_text = [], r_size = 0\<rparr>"

definition quiet_env :: env where
  "quiet_env tr c = quiet_reply"

lemma quiet_env_simps [simp]:
  "r_ret (quiet_env tr c) = 0" "r_byte (quiet_env tr c) = (\<lambda>i. 0)" "r_num (quiet_env tr c) = 0"
  "r_text (quiet_env tr c) = []" "r_size (quiet_env tr c) = 0"
  by (simp_all add: quiet_env_def quiet_reply_def)

text \<open>An environment in which one given call fails.\<close>

definition failing_env :: "(ext_call \<Rightarrow> bool) \<Rightarrow> env" where
  "failing_env bad tr c = (if bad c then quiet_reply\<lparr>r_ret := - 5\<rparr> else quiet_reply)"

section \<open>Sequences of calls\<close>

text \<open>Code that only appends to the trace.\<close>

definition extends :: "(trace, 'a) state \<Rightarrow> bool" where
  "extends m \<longleftrightarrow> (\<forall>tr. \<exists>evs. snd (run_state m tr) = tr @ evs)"

named_theorems extends_intros \<open>code that only appends to the trace\<close>

lemma extendsD: "extends m \<Longrightarrow> run_state m tr = (a, tr') \<Longrightarrow> \<exists>evs. tr' = tr @ evs"
  by (metis extends_def snd_conv)

lemma extends_return [extends_intros]: "extends (return x)"
  by (simp add: extends_def)

lemma extends_ext [extends_intros]: "extends (ext env c)" "extends (ext_ret env c)"
  by (simp_all add: extends_def)

lemma extends_bind [extends_intros]:
  assumes "extends m" "\<And>x. extends (f x)"
  shows "extends (State_Monad.bind m f)"
  unfolding extends_def
proof
  fix tr
  obtain x t where m: "run_state m tr = (x, t)" by fastforce
  with extendsD [OF assms(1)] obtain evs where "t = tr @ evs" by blast
  moreover obtain evs2 where "snd (run_state (f x) t) = t @ evs2"
    using assms(2) by (auto simp: extends_def)
  ultimately show "\<exists>evs. snd (run_state (State_Monad.bind m f) tr) = tr @ evs"
    using m by simp
qed

lemma extends_if [extends_intros]:
  "extends m \<Longrightarrow> extends n \<Longrightarrow> extends (if b then m else n)"
  by simp

lemma extends_seq_neg [extends_intros]: "list_all extends ms \<Longrightarrow> extends (seq_neg ms)"
  by (induction ms rule: seq_neg.induct) (auto intro!: extends_intros)

text \<open>Code that returns zero in every state.\<close>

definition succeeds :: "('s, int) state \<Rightarrow> bool" where
  "succeeds m \<longleftrightarrow> (\<forall>s. fst (run_state m s) = 0)"

lemma succeedsD: "succeeds m \<Longrightarrow> run_state m s = (r, s') \<Longrightarrow> r = 0"
  by (metis fst_conv succeeds_def)

lemma succeeds_seq_neg: "list_all succeeds ms \<Longrightarrow> succeeds (seq_neg ms)"
  by (induction ms rule: seq_neg.induct) (auto simp: succeeds_def split_beta)

lemma succeeds_ext_ret [simp]: "succeeds (ext_ret quiet_env c)"
  by (simp add: succeeds_def)

text \<open>The calls of a trace, without their replies.\<close>

definition calls :: "trace \<Rightarrow> ext_call list" where
  "calls tr = map fst tr"

lemma calls_append [simp]: "calls (tr @ evs) = calls tr @ calls evs"
  and calls_Cons [simp]: "calls (ev # evs) = fst ev # calls evs"
  and calls_Nil [simp]: "calls [] = []"
  by (simp_all add: calls_def)

section \<open>Register files\<close>

text \<open>
  What a trace of bus transactions leaves in the registers of a chip. \<open>rm\<close> maps a device address and
  a register number to the register, for the addresses of the chip. A transfer that succeeds writes
  the registers it names, a burst goes to consecutive registers, a failed transfer changes nothing.
\<close>

definition chip_step ::
  "(u8 \<Rightarrow> u8 \<Rightarrow> nat option) \<Rightarrow> (nat \<Rightarrow> u8) \<Rightarrow> ext_call \<times> reply \<Rightarrow> nat \<Rightarrow> u8" where
  "chip_step rm f ev =
     (if r_ret (snd ev) < 0 then f
      else case fst ev of
        I2cRegWrite a r v \<Rightarrow> (case rm a r of None \<Rightarrow> f | Some k \<Rightarrow> f(k := v))
      | I2cRegUpdate a r m v \<Rightarrow>
          (case rm a r of None \<Rightarrow> f | Some k \<Rightarrow> f(k := set_bits m v (f k)))
      | I2cWrite a bs \<Rightarrow>
          (case bs of
             [] \<Rightarrow> f
           | r # vs \<Rightarrow>
               (case rm a r of
                  None \<Rightarrow> f
                | Some k \<Rightarrow> (\<lambda>i. if k \<le> i \<and> i < k + length vs then vs ! (i - k) else f i)))
      | _ \<Rightarrow> f)"

definition chip_regs :: "(u8 \<Rightarrow> u8 \<Rightarrow> nat option) \<Rightarrow> (nat \<Rightarrow> u8) \<Rightarrow> trace \<Rightarrow> nat \<Rightarrow> u8" where
  "chip_regs rm f0 tr = foldl (chip_step rm) f0 tr"

lemma chip_regs_snoc [simp]: "chip_regs rm f0 (tr @ [ev]) = chip_step rm (chip_regs rm f0 tr) ev"
  by (simp add: chip_regs_def)

end
