(* ===== verification/Lp58xx.thy ===== *)
theory Lp58xx
  imports Zephyr
begin

text \<open>
  The driver of the LP5810/LP5811/LP5812/LP5813 LED controllers,
  \<^verbatim>\<open>firmware/drivers/led/lp58xx.c\<close>, with the interface types of
  \<^verbatim>\<open>firmware/include/zeus/drivers/led/lp58xx.h\<close>.

  The bit fields of the interface types have their width (\<open>2 word\<close>, \<open>4 word\<close>). The scratch buffer
  \<open>write_buf\<close> is overwritten before each transfer, so only its length is kept. A pointer to bytes is
  a list. Faults are only logged by the source, and logging is left out.
\<close>

section \<open>Data\<close>

record lp58xx_aeu_config =
  aeu_pwm :: "u8 list"
  aeu_time_msec :: "u16 list"
  aeu_repeat :: "2 word"

record lp58xx_ae_config =
  pause_start_msec :: u16
  pause_end_msec :: u16
  num_aeu :: "2 word"
  ae_repeat :: "4 word"
  aeu :: "lp58xx_aeu_config list"

definition aeu_wf :: "lp58xx_aeu_config \<Rightarrow> bool" where
  \<comment> \<open>the array sizes of \<open>struct lp58xx_aeu_config\<close>\<close>
  "aeu_wf c \<longleftrightarrow> length (aeu_pwm c) = 5 \<and> length (aeu_time_msec c) = 4"

definition ae_wf :: "lp58xx_ae_config \<Rightarrow> bool" where
  "ae_wf c \<longleftrightarrow> length (aeu c) = 3 \<and> (\<forall>a \<in> set (aeu c). aeu_wf a)"

record led_info =
  led_index :: u8
  num_colors :: u8

record lp58xx_led_config =
  manual_current_ua :: "u16 list"
  auto_current_ua :: "u16 list"
  exponential_dimming :: bool

record lp58xx_config =
  lp_addr :: u8
  num_channels :: u8
  num_leds :: u8
  led_infos :: "led_info list"
  led_configs :: "lp58xx_led_config list"
  max_current_ua :: u32
  lsd_threshold_percent :: u8
  write_buf_len :: nat

definition LP58XX_AEU_REPEAT_INFINITE :: "2 word" where "LP58XX_AEU_REPEAT_INFINITE = 0x3"
definition LP58XX_AE_REPEAT_INFINITE :: "4 word" where "LP58XX_AE_REPEAT_INFINITE = 0xf"
definition LP58XX_MAX_BRIGHTNESS :: u8 where "LP58XX_MAX_BRIGHTNESS = 100"
definition LP58XX_CHIP_EN_ADDR :: u16 where "LP58XX_CHIP_EN_ADDR = 0x000"
definition LP58XX_DEV_CONFIG_0_ADDR :: u16 where "LP58XX_DEV_CONFIG_0_ADDR = 0x001"
definition LP58XX_DEV_CONFIG_0_MAX_CURRENT :: u8 where "LP58XX_DEV_CONFIG_0_MAX_CURRENT = BIT 0"
definition LP58XX_DEV_CONFIG_3_ADDR :: u8 where "LP58XX_DEV_CONFIG_3_ADDR = 0x004"
definition LP58XX_DEV_CONFIG_5_ADDR :: u16 where "LP58XX_DEV_CONFIG_5_ADDR = 0x006"
definition LP58XX_DEV_CONFIG_12_ADDR :: u16 where "LP58XX_DEV_CONFIG_12_ADDR = 0x00d"
definition LP58XX_DEV_CONFIG_12_LOD_ACTION :: u8 where "LP58XX_DEV_CONFIG_12_LOD_ACTION = BIT 3"
definition LP58XX_DEV_CONFIG_12_LSD_THRESHOLD :: u8 where
  "LP58XX_DEV_CONFIG_12_LSD_THRESHOLD = GENMASK 1 0"
definition LP58XX_CMD_UPDATE_ADDR :: u16 where "LP58XX_CMD_UPDATE_ADDR = 0x010"
definition LP58XX_CMD_UPDATE_KEY :: u8 where "LP58XX_CMD_UPDATE_KEY = 0x55"
definition LP58XX_CMD_START_ADDR :: u16 where "LP58XX_CMD_START_ADDR = 0x011"
definition LP58XX_CMD_START_KEY :: u8 where "LP58XX_CMD_START_KEY = 0xff"
definition LP58XX_CMD_STOP_ADDR :: u16 where "LP58XX_CMD_STOP_ADDR = 0x012"
definition LP58XX_CMD_STOP_KEY :: u8 where "LP58XX_CMD_STOP_KEY = 0xaa"
definition LP58XX_CMD_PAUSE_ADDR :: u16 where "LP58XX_CMD_PAUSE_ADDR = 0x013"
definition LP58XX_CMD_PAUSE_KEY :: u8 where "LP58XX_CMD_PAUSE_KEY = 0x33"
definition LP58XX_CMD_CONTINUE_ADDR :: u16 where "LP58XX_CMD_CONTINUE_ADDR = 0x014"
definition LP58XX_CMD_CONTINUE_KEY :: u8 where "LP58XX_CMD_CONTINUE_KEY = 0xcc"
definition LP58XX_LED_ENABLE_ADDR :: u16 where "LP58XX_LED_ENABLE_ADDR = 0x020"
definition LP58XX_RESET_ADDR :: u16 where "LP58XX_RESET_ADDR = 0x023"
definition LP58XX_RESET_KEY :: u8 where "LP58XX_RESET_KEY = 0x66"
definition LP58XX_MANUAL_DC_ADDR :: "u32 \<Rightarrow> u16" where "LP58XX_MANUAL_DC_ADDR ch = ucast (0x30 + ch)"
definition LP58XX_MANUAL_PWM_ADDR :: "u32 \<Rightarrow> u16" where "LP58XX_MANUAL_PWM_ADDR ch = ucast (0x40 + ch)"
definition LP58XX_AUTO_DC_ADDR :: "u32 \<Rightarrow> u16" where "LP58XX_AUTO_DC_ADDR ch = ucast (0x50 + ch)"
definition LP58XX_AE_SIZE :: nat where "LP58XX_AE_SIZE = 0x1a"
definition LP58XX_AE_ADDR :: "u32 \<Rightarrow> u16" where "LP58XX_AE_ADDR ch = ucast (0x080 + ch * 0x1a)"
definition LP58XX_TSD_CONFIG_STATUS_ADDR :: u16 where "LP58XX_TSD_CONFIG_STATUS_ADDR = 0x300"
definition LP58XX_TSD_CONFIG_STATUS_ERR :: u8 where "LP58XX_TSD_CONFIG_STATUS_ERR = BIT 0"
definition LP58XX_LOD_STATUS_0_ADDR :: u16 where "LP58XX_LOD_STATUS_0_ADDR = 0x301"
definition LP58XX_LSD_STATUS_0_ADDR :: u16 where "LP58XX_LSD_STATUS_0_ADDR = 0x303"
definition LP58XX_AUTO_PWM_ADDR :: "u32 \<Rightarrow> u16" where "LP58XX_AUTO_PWM_ADDR ch = ucast (0x305 + ch)"

lemmas lp58xx_consts =
  LP58XX_CHIP_EN_ADDR_def LP58XX_DEV_CONFIG_0_ADDR_def LP58XX_DEV_CONFIG_3_ADDR_def
  LP58XX_DEV_CONFIG_5_ADDR_def LP58XX_DEV_CONFIG_12_ADDR_def LP58XX_CMD_UPDATE_ADDR_def
  LP58XX_CMD_UPDATE_KEY_def LP58XX_CMD_START_ADDR_def LP58XX_CMD_START_KEY_def
  LP58XX_CMD_PAUSE_ADDR_def LP58XX_CMD_PAUSE_KEY_def LP58XX_LED_ENABLE_ADDR_def
  LP58XX_RESET_ADDR_def LP58XX_RESET_KEY_def LP58XX_TSD_CONFIG_STATUS_ADDR_def
  LP58XX_LOD_STATUS_0_ADDR_def LP58XX_LSD_STATUS_0_ADDR_def

section \<open>Bus access\<close>

definition lp58xx_dev_addr :: "lp58xx_config \<Rightarrow> u16 \<Rightarrow> u8" where
  \<comment> \<open>two bits of the register address are part of the device address\<close>
  "lp58xx_dev_addr cfg reg = lp_addr cfg OR ucast (drop_bit 8 reg AND 0xff)"

definition lp58xx_reg_write :: "env \<Rightarrow> lp58xx_config \<Rightarrow> u16 \<Rightarrow> u8 \<Rightarrow> (trace, int) state" where
  "lp58xx_reg_write env cfg reg val =
     ext_ret env (I2cRegWrite (lp58xx_dev_addr cfg reg) (ucast (reg AND 0xff)) val)"

definition lp58xx_reg_read :: "env \<Rightarrow> lp58xx_config \<Rightarrow> u16 \<Rightarrow> (trace, int \<times> u8) state" where
  "lp58xx_reg_read env cfg reg =
     do { r \<leftarrow> ext env (I2cRegRead (lp58xx_dev_addr cfg reg) (ucast (reg AND 0xff)));
          return (r_ret r, r_byte r 0) }"

definition lp58xx_burst_write ::
  "env \<Rightarrow> lp58xx_config \<Rightarrow> u16 \<Rightarrow> u8 list \<Rightarrow> u8 \<Rightarrow> (trace, int) state" where
  "lp58xx_burst_write env cfg reg buf len =
     (if unat len + 1 > write_buf_len cfg then return (- EINVAL)
      else ext_ret env
             (I2cWrite (lp58xx_dev_addr cfg reg) (ucast (reg AND 0xff) # take (unat len) buf)))"

definition lp58xx_burst_read ::
  "env \<Rightarrow> lp58xx_config \<Rightarrow> u16 \<Rightarrow> u8 \<Rightarrow> (trace, int \<times> u8 list) state" where
  "lp58xx_burst_read env cfg reg len =
     (if unat len + 1 > write_buf_len cfg then return (- EINVAL, [])
      else do { r \<leftarrow> ext env (I2cWriteRead (lp58xx_dev_addr cfg reg) [ucast (reg AND 0xff)] (unat len));
                return (r_ret r, map (r_byte r) [0..<unat len]) })"

definition lp58xx_write_channel_field ::
  "env \<Rightarrow> lp58xx_config \<Rightarrow> u8 \<Rightarrow> u8 \<Rightarrow> u8 \<Rightarrow> u8 \<Rightarrow> (trace, int) state" where
  "lp58xx_write_channel_field env cfg reg channel bits value =
     (if channel > num_channels cfg then return (- EINVAL)
      else if \<not> (bits = 1 \<or> bits = 2 \<or> bits = 4 \<or> bits = 8) then return (- EINVAL)
      else let bt = channel * bits; reg = reg + bt div 8; shift = unat (bt mod 8) in
        ext_ret env (I2cRegUpdate (lp_addr cfg) reg (GENMASK (shift + unat bits - 1) shift)
                       (push_bit shift value)))"

section \<open>Currents and brightness\<close>

definition lp58xx_current_from_microamps :: "lp58xx_config \<Rightarrow> u16 \<Rightarrow> int" where
  "lp58xx_current_from_microamps cfg current =
     (if ucast current > max_current_ua cfg then - EINVAL
      else uint ((ucast current * 0xff) div max_current_ua cfg))"

definition lp58xx_set_manual_current ::
  "env \<Rightarrow> lp58xx_config \<Rightarrow> u8 \<Rightarrow> u16 \<Rightarrow> (trace, int) state" where
  \<comment> \<open>the \<open>int\<close> result of the conversion is passed as a \<open>uint8_t\<close>\<close>
  "lp58xx_set_manual_current env cfg channel current =
     (if channel \<ge> num_channels cfg then return (- EINVAL)
      else lp58xx_reg_write env cfg (LP58XX_MANUAL_DC_ADDR (ucast channel))
             (word_of_int (lp58xx_current_from_microamps cfg current)))"

definition lp58xx_set_auto_current ::
  "env \<Rightarrow> lp58xx_config \<Rightarrow> u8 \<Rightarrow> u16 \<Rightarrow> (trace, int) state" where
  "lp58xx_set_auto_current env cfg channel current =
     (if channel \<ge> num_channels cfg then return (- EINVAL)
      else lp58xx_reg_write env cfg (LP58XX_AUTO_DC_ADDR (ucast channel))
             (word_of_int (lp58xx_current_from_microamps cfg current)))"

definition lp58xx_update_config :: "env \<Rightarrow> lp58xx_config \<Rightarrow> (trace, int) state" where
  "lp58xx_update_config env cfg =
     do { ret \<leftarrow> lp58xx_reg_write env cfg LP58XX_CMD_UPDATE_ADDR LP58XX_CMD_UPDATE_KEY;
          if ret < 0 then return ret
          else do {
            (ret, val) \<leftarrow> lp58xx_reg_read env cfg LP58XX_TSD_CONFIG_STATUS_ADDR;
            if ret < 0 then return ret
            else if val AND LP58XX_TSD_CONFIG_STATUS_ERR \<noteq> 0 then return (- EINVAL)
            else return 0 } }"

definition lp58xx_led_to_info :: "lp58xx_config \<Rightarrow> u32 \<Rightarrow> led_info option" where
  "lp58xx_led_to_info cfg led =
     (if led < ucast (num_leds cfg) then Some (led_infos cfg ! unat led) else None)"

definition lp58xx_led_to_config :: "lp58xx_config \<Rightarrow> u32 \<Rightarrow> lp58xx_led_config option" where
  "lp58xx_led_to_config cfg led =
     (if led < ucast (num_leds cfg) then Some (led_configs cfg ! unat led) else None)"

definition lp58xx_get_info :: "lp58xx_config \<Rightarrow> u32 \<Rightarrow> int + led_info" where
  "lp58xx_get_info cfg led =
     (case lp58xx_led_to_info cfg led of None \<Rightarrow> Inl (- EINVAL) | Some info \<Rightarrow> Inr info)"

definition lp58xx_set_brightness ::
  "env \<Rightarrow> lp58xx_config \<Rightarrow> u32 \<Rightarrow> u8 \<Rightarrow> (trace, int) state" where
  "lp58xx_set_brightness env cfg led value =
     (if led \<ge> ucast (num_channels cfg) then return (- EINVAL)
      else if value > LP58XX_MAX_BRIGHTNESS then return (- EINVAL)
      else let pwm = word_of_nat (unat value * 0xff div unat LP58XX_MAX_BRIGHTNESS) in
        do { ret \<leftarrow> lp58xx_reg_write env cfg (LP58XX_MANUAL_PWM_ADDR led) pwm;
             if ret < 0 then return ret
             else do {
               (ret, _) \<leftarrow> lp58xx_reg_read env cfg LP58XX_LOD_STATUS_0_ADDR;
               if ret < 0 then return ret
               else do {
                 (ret, _) \<leftarrow> lp58xx_reg_read env cfg LP58XX_LSD_STATUS_0_ADDR;
                 if ret < 0 then return ret else return 0 } } })"

definition lp58xx_on :: "env \<Rightarrow> lp58xx_config \<Rightarrow> u32 \<Rightarrow> (trace, int) state" where
  "lp58xx_on env cfg led = lp58xx_set_brightness env cfg led 100"

definition lp58xx_off :: "env \<Rightarrow> lp58xx_config \<Rightarrow> u32 \<Rightarrow> (trace, int) state" where
  "lp58xx_off env cfg led = lp58xx_set_brightness env cfg led 0"

definition lp58xx_write_channels ::
  "env \<Rightarrow> lp58xx_config \<Rightarrow> u32 \<Rightarrow> u32 \<Rightarrow> u8 list \<Rightarrow> (trace, int) state" where
  "lp58xx_write_channels env cfg start_channel n buf =
     (if start_channel + n > ucast (num_channels cfg) then return (- EINVAL)
      else lp58xx_burst_write env cfg (LP58XX_MANUAL_PWM_ADDR start_channel) buf (ucast n))"

definition lp58xx_set_color ::
  "env \<Rightarrow> lp58xx_config \<Rightarrow> u32 \<Rightarrow> u8 \<Rightarrow> u8 list \<Rightarrow> (trace, int) state" where
  "lp58xx_set_color env cfg led n color =
     (case lp58xx_led_to_info cfg led of
        None \<Rightarrow> return (- ENODEV)
      | Some info \<Rightarrow>
          if n \<noteq> num_colors info then return (- EINVAL)
          else lp58xx_write_channels env cfg (ucast (led_index info)) (ucast n) color)"

section \<open>Start-up\<close>

fun reset_tries :: "env \<Rightarrow> lp58xx_config \<Rightarrow> nat \<Rightarrow> (trace, int) state" where
  \<comment> \<open>the \<open>do ... while\<close> loop of \<open>lp58xx_reset\<close>, with the tries left after this one\<close>
  "reset_tries env cfg tries =
     do { (ret, _) \<leftarrow> lp58xx_reg_read env cfg LP58XX_RESET_ADDR;
          case tries of
            0 \<Rightarrow> return ret
          | Suc t \<Rightarrow> if ret < 0 then reset_tries env cfg t else return ret }"

definition lp58xx_reset :: "env \<Rightarrow> lp58xx_config \<Rightarrow> (trace, int) state" where
  "lp58xx_reset env cfg =
     do { _ \<leftarrow> lp58xx_reg_write env cfg LP58XX_RESET_ADDR LP58XX_RESET_KEY;
          reset_tries env cfg 4 }"

definition lp58xx_enable :: "env \<Rightarrow> lp58xx_config \<Rightarrow> bool \<Rightarrow> (trace, int) state" where
  "lp58xx_enable env cfg enable = lp58xx_reg_write env cfg LP58XX_CHIP_EN_ADDR (of_bool enable)"

text \<open>
  The two nested loops of \<open>lp58xx_leds_configure\<close>. They carry the error of a failed call
  (the early return) or the masks of the enabled and of the exponentially dimmed channels.
\<close>

fun leds_configure_colors ::
  "env \<Rightarrow> lp58xx_config \<Rightarrow> led_info \<Rightarrow> lp58xx_led_config \<Rightarrow> nat list \<Rightarrow> u16 \<Rightarrow> u16
     \<Rightarrow> (trace, int + u16 \<times> u16) state" where
  "leds_configure_colors env cfg info lc [] led_en exp_en = return (Inr (led_en, exp_en))"
| "leds_configure_colors env cfg info lc (i # is) led_en exp_en =
     (let ch = led_index info + of_nat i; led_en = led_en OR BIT (unat ch) in
      do { ret \<leftarrow> lp58xx_set_manual_current env cfg ch (manual_current_ua lc ! i);
           if ret < 0 then return (Inl ret)
           else do {
             ret \<leftarrow> lp58xx_set_auto_current env cfg ch (auto_current_ua lc ! i);
             if ret < 0 then return (Inl ret)
             else leds_configure_colors env cfg info lc is led_en
                    (if exponential_dimming lc then exp_en OR BIT (unat ch) else exp_en) } })"

fun leds_configure_loop ::
  "env \<Rightarrow> lp58xx_config \<Rightarrow> nat list \<Rightarrow> u16 \<Rightarrow> u16 \<Rightarrow> (trace, int + u16 \<times> u16) state" where
  "leds_configure_loop env cfg [] led_en exp_en = return (Inr (led_en, exp_en))"
| "leds_configure_loop env cfg (l # ls) led_en exp_en =
     (case (lp58xx_led_to_info cfg (of_nat l), lp58xx_led_to_config cfg (of_nat l)) of
        (Some info, Some lc) \<Rightarrow>
          do { r \<leftarrow> leds_configure_colors env cfg info lc [0..<unat (num_colors info)] led_en exp_en;
               case r of
                 Inl ret \<Rightarrow> return (Inl ret)
               | Inr (led_en, exp_en) \<Rightarrow> leds_configure_loop env cfg ls led_en exp_en }
      | _ \<Rightarrow> return (Inr (led_en, exp_en)))"

definition lp58xx_leds_configure :: "env \<Rightarrow> lp58xx_config \<Rightarrow> (trace, int) state" where
  "lp58xx_leds_configure env cfg =
     do { r \<leftarrow> leds_configure_loop env cfg [0..<unat (num_leds cfg)] 0 0;
          case r of
            Inl ret \<Rightarrow> return ret
          | Inr (led_en, exp_en) \<Rightarrow>
              do { ret \<leftarrow> lp58xx_burst_write env cfg LP58XX_DEV_CONFIG_5_ADDR (put_le16 exp_en) 2;
                   if ret < 0 then return ret
                   else do {
                     ret \<leftarrow> lp58xx_burst_write env cfg LP58XX_LED_ENABLE_ADDR (put_le16 led_en) 2;
                     if ret < 0 then return ret else return 0 } } }"

definition lsd_threshold :: "u8 \<Rightarrow> u8 option" where
  "lsd_threshold percent =
     (if percent = 35 then Some 0 else if percent = 45 then Some 1
      else if percent = 55 then Some 2 else if percent = 65 then Some 3 else None)"

definition lp58xx_init :: "env \<Rightarrow> lp58xx_config \<Rightarrow> (trace, int) state" where
  "lp58xx_init env cfg =
     do { ready \<leftarrow> ext_ret env (I2cReady (lp_addr cfg));
          if ready = 0 then return (- ENODEV)
          else do {
            ret \<leftarrow> lp58xx_reset env cfg;
            if ret < 0 then return ret
            else do {
              ret \<leftarrow> lp58xx_enable env cfg True;
              if ret < 0 then return ret
              else do {
                ret \<leftarrow> lp58xx_reg_write env cfg LP58XX_DEV_CONFIG_0_ADDR
                         (if max_current_ua cfg = 51000 then LP58XX_DEV_CONFIG_0_MAX_CURRENT else 0);
                if ret < 0 then return ret
                else (case lsd_threshold (lsd_threshold_percent cfg) of
                        None \<Rightarrow> return (- EINVAL)
                      | Some t \<Rightarrow>
                          seq_neg
                            [lp58xx_reg_write env cfg LP58XX_DEV_CONFIG_12_ADDR
                               (LP58XX_DEV_CONFIG_12_LOD_ACTION OR
                                FIELD_PREP LP58XX_DEV_CONFIG_12_LSD_THRESHOLD t),
                             lp58xx_leds_configure env cfg,
                             lp58xx_update_config env cfg]) } } } }"

datatype pm_device_action = PM_DEVICE_ACTION_SUSPEND | PM_DEVICE_ACTION_RESUME
  | PM_DEVICE_ACTION_TURN_OFF | PM_DEVICE_ACTION_TURN_ON

definition lp58xx_pm_action :: "env \<Rightarrow> lp58xx_config \<Rightarrow> pm_device_action \<Rightarrow> (trace, int) state" where
  "lp58xx_pm_action env cfg action =
     (case action of
        PM_DEVICE_ACTION_SUSPEND \<Rightarrow> lp58xx_enable env cfg False
      | PM_DEVICE_ACTION_RESUME \<Rightarrow> lp58xx_enable env cfg True
      | _ \<Rightarrow> return (- ENOTSUP))"

section \<open>The autonomous animation engine\<close>

definition lp58xx_ae_time_from_msec :: "u16 \<Rightarrow> u8" where
  "lp58xx_ae_time_from_msec msec =
     (if msec < 45 then 0x0
      else if msec < 135 then 0x1
      else if msec < 270 then 0x2
      else if msec < 450 then 0x3
      else if msec < 670 then 0x4
      else if msec < 935 then 0x5
      else if msec < 1295 then 0x6
      else if msec < 1790 then 0x7
      else if msec < 2280 then 0x8
      else if msec < 2770 then 0x9
      else if msec < 3530 then 0xa
      else if msec < 4515 then 0xb
      else if msec < 5500 then 0xc
      else if msec < 6525 then 0xd
      else if msec < 7555 then 0xe
      else 0xf)"

text \<open>
  The generators write every byte of the buffer they are given, so they are functions to the list of
  these bytes (8 of a unit, 26 of an engine).
\<close>

definition lp58xx_aeu_config_generate :: "lp58xx_aeu_config \<Rightarrow> int + u8 list" where
  "lp58xx_aeu_config_generate c =
     (let t = \<lambda>i. lp58xx_ae_time_from_msec (aeu_time_msec c ! i) in
      if aeu_repeat c > LP58XX_AEU_REPEAT_INFINITE then Inl (- EINVAL)
      else Inr (map (\<lambda>i. aeu_pwm c ! i) [0..<5] @
                [FIELD_PREP (GENMASK 3 0) (t 0) OR FIELD_PREP (GENMASK 7 4) (t 1),
                 FIELD_PREP (GENMASK 3 0) (t 2) OR FIELD_PREP (GENMASK 7 4) (t 3),
                 FIELD_PREP (GENMASK 1 0) (ucast (aeu_repeat c))]))"

definition lp58xx_ae_config_generate :: "lp58xx_ae_config \<Rightarrow> int + u8 list" where
  "lp58xx_ae_config_generate c =
     (let pause = FIELD_PREP (GENMASK 7 4) (lp58xx_ae_time_from_msec (pause_start_msec c)) OR
                  FIELD_PREP (GENMASK 3 0) (lp58xx_ae_time_from_msec (pause_end_msec c)) in
      if num_aeu c < 1 \<or> unat (num_aeu c) > 3 then Inl (- EINVAL)
      else if ae_repeat c > LP58XX_AE_REPEAT_INFINITE then Inl (- EINVAL)
      else let playback = FIELD_PREP (GENMASK 5 4) (ucast (num_aeu c) - 1) OR
                          FIELD_PREP (GENMASK 3 0) (ucast (ae_repeat c)) in
        (case lp58xx_aeu_config_generate (aeu c ! 0) of Inl e \<Rightarrow> Inl e | Inr b0 \<Rightarrow>
         (case lp58xx_aeu_config_generate (aeu c ! 1) of Inl e \<Rightarrow> Inl e | Inr b1 \<Rightarrow>
          (case lp58xx_aeu_config_generate (aeu c ! 2) of Inl e \<Rightarrow> Inl e | Inr b2 \<Rightarrow>
             Inr (pause # playback # b0 @ b1 @ b2)))))"

definition lp58xx_ae_configure ::
  "env \<Rightarrow> lp58xx_config \<Rightarrow> u8 \<Rightarrow> lp58xx_ae_config \<Rightarrow> (trace, int) state" where
  "lp58xx_ae_configure env cfg channel c =
     (if channel \<ge> num_channels cfg then return (- EINVAL)
      else (case lp58xx_ae_config_generate c of
              Inl ret \<Rightarrow> return ret
            | Inr buf \<Rightarrow>
                seq_neg
                  [lp58xx_burst_write env cfg (LP58XX_AE_ADDR (ucast channel)) buf
                     (of_nat LP58XX_AE_SIZE),
                   lp58xx_write_channel_field env cfg LP58XX_DEV_CONFIG_3_ADDR channel 1 1,
                   lp58xx_update_config env cfg]))"

definition lp58xx_get_auto_pwm ::
  "env \<Rightarrow> lp58xx_config \<Rightarrow> u8 \<Rightarrow> u8 \<Rightarrow> (trace, int \<times> u8 list) state" where
  "lp58xx_get_auto_pwm env cfg start_channel n =
     lp58xx_burst_read env cfg (LP58XX_AUTO_PWM_ADDR (ucast start_channel)) n"

definition lp58xx_start :: "env \<Rightarrow> lp58xx_config \<Rightarrow> (trace, int) state" where
  "lp58xx_start env cfg = lp58xx_reg_write env cfg LP58XX_CMD_START_ADDR LP58XX_CMD_START_KEY"

definition lp58xx_stop :: "env \<Rightarrow> lp58xx_config \<Rightarrow> (trace, int) state" where
  "lp58xx_stop env cfg = lp58xx_reg_write env cfg LP58XX_CMD_STOP_ADDR LP58XX_CMD_STOP_KEY"

definition lp58xx_pause :: "env \<Rightarrow> lp58xx_config \<Rightarrow> (trace, int) state" where
  "lp58xx_pause env cfg = lp58xx_reg_write env cfg LP58XX_CMD_PAUSE_ADDR LP58XX_CMD_PAUSE_KEY"

definition lp58xx_continue :: "env \<Rightarrow> lp58xx_config \<Rightarrow> (trace, int) state" where
  "lp58xx_continue env cfg = lp58xx_reg_write env cfg LP58XX_CMD_CONTINUE_ADDR LP58XX_CMD_CONTINUE_KEY"

definition aeu_zero :: lp58xx_aeu_config where
  \<comment> \<open>an element of the array that the initialiser leaves out\<close>
  "aeu_zero = \<lparr>aeu_pwm = replicate 5 0, aeu_time_msec = replicate 4 0, aeu_repeat = 0\<rparr>"

definition lp58xx_blink :: "env \<Rightarrow> lp58xx_config \<Rightarrow> u32 \<Rightarrow> u32 \<Rightarrow> u32 \<Rightarrow> (trace, int) state" where
  \<comment> \<open>the delays are stored in 16 bit fields, the LED number is passed as a \<open>uint8_t\<close>\<close>
  "lp58xx_blink env cfg led delay_on delay_off =
     (let c = \<lparr>pause_start_msec = 0, pause_end_msec = 0, num_aeu = 1, ae_repeat = 1,
               aeu = [\<lparr>aeu_pwm = [255, 255, 0, 0, 0],
                       aeu_time_msec = [ucast delay_on, 0, ucast delay_off, 0],
                       aeu_repeat = LP58XX_AEU_REPEAT_INFINITE\<rparr>, aeu_zero, aeu_zero]\<rparr> in
      seq_neg [lp58xx_ae_configure env cfg (ucast led) c, lp58xx_start env cfg])"

section \<open>Encoding and decoding an animation\<close>

text \<open>The times of the 16 codes, from the comments of the lookup table.\<close>

definition ae_times :: "nat list" where
  "ae_times = [0, 90, 180, 360, 540, 800, 1070, 1520, 2060, 2500, 3040, 4020, 5010, 5990, 7060, 8050]"

definition ae_time_decode :: "u8 \<Rightarrow> u16" where
  "ae_time_decode code = of_nat (ae_times ! unat code)"

definition ae_round :: "u16 \<Rightarrow> u16" where
  \<comment> \<open>the supported time an animation really uses\<close>
  "ae_round t = ae_time_decode (lp58xx_ae_time_from_msec t)"

definition aeu_quantise :: "lp58xx_aeu_config \<Rightarrow> lp58xx_aeu_config" where
  "aeu_quantise c = c\<lparr>aeu_time_msec := map ae_round (aeu_time_msec c)\<rparr>"

definition ae_quantise :: "lp58xx_ae_config \<Rightarrow> lp58xx_ae_config" where
  "ae_quantise c = c\<lparr>pause_start_msec := ae_round (pause_start_msec c),
     pause_end_msec := ae_round (pause_end_msec c), aeu := map aeu_quantise (aeu c)\<rparr>"

definition lo_nibble :: "u8 \<Rightarrow> u8" where "lo_nibble b = take_bit 4 b"
definition hi_nibble :: "u8 \<Rightarrow> u8" where "hi_nibble b = drop_bit 4 b"

definition aeu_decode :: "u8 list \<Rightarrow> lp58xx_aeu_config" where
  "aeu_decode bs = \<lparr>aeu_pwm = take 5 bs,
     aeu_time_msec = map ae_time_decode
       [lo_nibble (bs ! 5), hi_nibble (bs ! 5), lo_nibble (bs ! 6), hi_nibble (bs ! 6)],
     aeu_repeat = ucast (bs ! 7)\<rparr>"

definition ae_decode :: "u8 list \<Rightarrow> lp58xx_ae_config" where
  "ae_decode bs = \<lparr>pause_start_msec = ae_time_decode (hi_nibble (bs ! 0)),
     pause_end_msec = ae_time_decode (lo_nibble (bs ! 0)),
     num_aeu = ucast (drop_bit 4 (bs ! 1)) + 1, ae_repeat = ucast (bs ! 1),
     aeu = [aeu_decode (slice 2 8 bs), aeu_decode (slice 10 8 bs), aeu_decode (slice 18 8 bs)]\<rparr>"

lemma ae_time_code_less: "lp58xx_ae_time_from_msec t < 16"
  by (simp add: lp58xx_ae_time_from_msec_def)

lemma lsb_masks:
  "LSB_GET (GENMASK 3 0) = (1 :: u8)" "LSB_GET (GENMASK 7 4) = (16 :: u8)"
  "LSB_GET (GENMASK 5 4) = (16 :: u8)" "LSB_GET (GENMASK 1 0) = (1 :: u8)"
  by (simp_all add: GENMASK_def LSB_GET_def mask_eq_exp_minus_1)

lemma times_16_u8: "v * 16 = push_bit 4 (v :: u8)"
  by (simp add: push_bit_eq_mult)

lemma field_prep_masks: "FIELD_PREP (GENMASK 3 0) (v :: u8) = take_bit 4 v"
  "FIELD_PREP (GENMASK 7 4) (v :: u8) = push_bit 4 v"
  "FIELD_PREP (GENMASK 5 4) (v :: u8) = push_bit 4 (take_bit 2 v)"
  "FIELD_PREP (GENMASK 1 0) (v :: u8) = take_bit 2 v"
  unfolding FIELD_PREP_def lsb_masks times_16_u8 mult_1_right
  by (rule bit_word_eqI; auto simp: GENMASK_def bit_simps)+

lemma take_bit4_self: "a < 16 \<Longrightarrow> take_bit 4 a = (a::u8)"
  by (simp add: word_unat_eq_iff word_less_nat_alt unsigned_take_bit_eq take_bit_nat_eq_self)

lemma aeu_num_pack: assumes "n \<noteq> 0" shows "(ucast (ucast (n:: 2 word) - 1 :: u8) :: 2 word) + 1 = n"
proof -
  obtain k where k: "n = of_nat k" "k < 4"
    using unsigned_less [of n] word_nat_cases [of n] by auto
  then have "k = 1 \<or> k = 2 \<or> k = 3" using assms by (cases "k = 0") auto
  with k assms show ?thesis by auto
qed

lemma ae_code_mid:
  assumes "lp58xx_ae_time_from_msec t = code" "unat code = c"
  shows "c < 16"
   "0 < c \<Longrightarrow> ae_times ! (c - 1) + ae_times ! c \<le> 2 * unat t"
   "c < 15 \<Longrightarrow> 2 * unat t \<le> ae_times ! c + ae_times ! Suc c"
  using assms
  by (auto simp: lp58xx_ae_time_from_msec_def word_less_nat_alt ae_times_def split: if_splits)

lemma ae_times_sorted: "sorted ae_times" "length ae_times = 16"
  by (simp_all add: ae_times_def)

lemma ae_time_nearest:
  assumes "i < 16"
  shows "\<bar>int (ae_times ! unat (lp58xx_ae_time_from_msec t)) - int (unat t)\<bar>
      \<le> \<bar>int (ae_times ! i) - int (unat t)\<bar>"
proof -
  let ?c = "unat (lp58xx_ae_time_from_msec t)"
  note mid = ae_code_mid [OF refl refl, of t]
  note mono = sorted_nth_mono [OF ae_times_sorted(1)]
  consider "i < ?c" | "i = ?c" | "?c < i" by linarith
  then show ?thesis
  proof cases
    case 1
    then have "ae_times ! i \<le> ae_times ! (?c - 1)" "ae_times ! i \<le> ae_times ! ?c" "0 < ?c"
      using mono [of i "?c - 1"] mono [of i ?c] mid(1) by (simp_all add: ae_times_sorted)
    with mid(2) show ?thesis by linarith
  next
    case 3
    then have "ae_times ! Suc ?c \<le> ae_times ! i" "ae_times ! ?c \<le> ae_times ! i" "?c < 15"
      using mono [of "Suc ?c" i] mono [of ?c i] assms by (simp_all add: ae_times_sorted)
    with mid(3) show ?thesis by linarith
  qed simp
qed

lemma nibble_pack:
  "take_bit 4 (take_bit 4 a OR push_bit 4 b) = take_bit 4 (a :: u8)"
  "take_bit 4 (push_bit 4 b OR take_bit 4 a) = take_bit 4 (a :: u8)"
  "drop_bit 4 (take_bit 4 a OR push_bit 4 b) = take_bit 4 (b :: u8)"
  "drop_bit 4 (push_bit 4 b OR take_bit 4 a) = take_bit 4 (b :: u8)"
  by (rule bit_word_eqI; auto simp: bit_simps)+

lemma playback_pack:
  "ucast (push_bit 4 (take_bit 2 a) OR take_bit 4 (ucast (r :: 4 word)) :: u8) = r"
  "ucast (drop_bit 4 (push_bit 4 (take_bit 2 a) OR take_bit 4 b) :: u8) = (ucast a :: 2 word)"
  "ucast (take_bit 2 (ucast (q :: 2 word)) :: u8) = q"
  by (rule bit_word_eqI; auto simp: bit_simps)+

lemma playback_fields:
  "ucast (FIELD_PREP (GENMASK 5 4) a OR FIELD_PREP (GENMASK 3 0) (ucast (r :: 4 word)) :: u8) = r"
  "ucast (drop_bit 4 (FIELD_PREP (GENMASK 5 4) a OR FIELD_PREP (GENMASK 3 0) b) :: u8)
     = (ucast a :: 2 word)"
  unfolding field_prep_masks by (rule playback_pack)+

lemma ae_codes_unpack:
  "lo_nibble (FIELD_PREP (GENMASK 3 0) (lp58xx_ae_time_from_msec s) OR
     FIELD_PREP (GENMASK 7 4) (lp58xx_ae_time_from_msec t)) = lp58xx_ae_time_from_msec s"
  "lo_nibble (FIELD_PREP (GENMASK 7 4) (lp58xx_ae_time_from_msec t) OR
     FIELD_PREP (GENMASK 3 0) (lp58xx_ae_time_from_msec s)) = lp58xx_ae_time_from_msec s"
  "hi_nibble (FIELD_PREP (GENMASK 3 0) (lp58xx_ae_time_from_msec s) OR
     FIELD_PREP (GENMASK 7 4) (lp58xx_ae_time_from_msec t)) = lp58xx_ae_time_from_msec t"
  "hi_nibble (FIELD_PREP (GENMASK 7 4) (lp58xx_ae_time_from_msec t) OR
     FIELD_PREP (GENMASK 3 0) (lp58xx_ae_time_from_msec s)) = lp58xx_ae_time_from_msec t"
  unfolding field_prep_masks lo_nibble_def hi_nibble_def nibble_pack
  by (rule take_bit4_self [OF ae_time_code_less])+

lemma aeu_roundtrip:
  assumes "aeu_wf c"
  shows "\<exists>bs. lp58xx_aeu_config_generate c = Inr bs \<and> length bs = 8 \<and> aeu_decode bs = aeu_quantise c"
proof -
  have "\<not> aeu_repeat c > LP58XX_AEU_REPEAT_INFINITE"
    using unat_w2_less [of "aeu_repeat c"]
    by (simp add: LP58XX_AEU_REPEAT_INFINITE_def word_less_nat_alt)
  moreover obtain p0 p1 p2 p3 p4 t0 t1 t2 t3
    where "aeu_pwm c = [p0, p1, p2, p3, p4]" "aeu_time_msec c = [t0, t1, t2, t3]"
    using assms by (auto simp: aeu_wf_def length_Suc_conv numeral_eq_Suc)
  ultimately show ?thesis
    by (simp add: lp58xx_aeu_config_generate_def aeu_decode_def aeu_quantise_def ae_codes_unpack
        field_prep_masks(4) [simplified] playback_pack ae_round_def upt_rec)
qed

lemma ae_roundtrip:
  assumes "ae_wf c" "num_aeu c \<noteq> 0"
  shows "\<exists>bs. lp58xx_ae_config_generate c = Inr bs \<and> length bs = LP58XX_AE_SIZE \<and>
           ae_decode bs = ae_quantise c"
proof -
  obtain a0 a1 a2 where as: "aeu c = [a0, a1, a2]" "aeu_wf a0" "aeu_wf a1" "aeu_wf a2"
    using assms(1) by (auto simp: ae_wf_def length_Suc_conv numeral_eq_Suc)
  obtain b0 b1 b2 where bs: "lp58xx_aeu_config_generate a0 = Inr b0" "length b0 = 8"
      "aeu_decode b0 = aeu_quantise a0" "lp58xx_aeu_config_generate a1 = Inr b1" "length b1 = 8"
      "aeu_decode b1 = aeu_quantise a1" "lp58xx_aeu_config_generate a2 = Inr b2" "length b2 = 8"
      "aeu_decode b2 = aeu_quantise a2"
    using as(2-4) [THEN aeu_roundtrip] by blast
  have "\<not> (num_aeu c < 1 \<or> unat (num_aeu c) > 3)"
    using unat_w2_less [of "num_aeu c"] assms(2) by (simp add: word_less_nat_alt unat_eq_0)
  moreover have "\<not> ae_repeat c > LP58XX_AE_REPEAT_INFINITE"
    using unat_w4_less [of "ae_repeat c"] by (simp add: LP58XX_AE_REPEAT_INFINITE_def word_less_nat_alt)
  ultimately show ?thesis
    using as(1) bs aeu_num_pack [OF assms(2)]
    by (cases c) (simp add: lp58xx_ae_config_generate_def ae_decode_def ae_quantise_def
        ae_codes_unpack playback_fields ae_round_def slice_def LP58XX_AE_SIZE_def del: drop_bit_or)
qed

section \<open>The registers of the chip\<close>

text \<open>
  Two bits of the register address are taken from the device address; the other bits of the device
  address select the chip.
\<close>

definition lp_reg :: "u8 \<Rightarrow> u8 \<Rightarrow> nat" where
  "lp_reg a r = unat (take_bit 2 a) * 256 + unat r"

definition lp_map :: "u8 \<Rightarrow> u8 \<Rightarrow> u8 \<Rightarrow> nat option" where
  "lp_map base a r = (if drop_bit 2 a = drop_bit 2 base then Some (lp_reg a r) else None)"

definition lp_chip :: "u8 \<Rightarrow> (nat \<Rightarrow> u8) \<Rightarrow> trace \<Rightarrow> nat \<Rightarrow> u8" where
  "lp_chip base f0 tr = chip_regs (lp_map base) f0 tr"

lemma lp_chip_snoc [simp]:
  "lp_chip base f0 (tr @ [ev]) = chip_step (lp_map base) (lp_chip base f0 tr) ev"
  by (simp add: lp_chip_def)

lemmas lp_step_def = chip_step_def lp_map_def

definition lp_cfg_wf :: "lp58xx_config \<Rightarrow> bool" where
  \<comment> \<open>the device address leaves two bits for the register, the scratch buffer holds an engine\<close>
  "lp_cfg_wf cfg \<longleftrightarrow> take_bit 2 (lp_addr cfg) = 0 \<and> num_channels cfg \<le> 12 \<and>
     LP58XX_AE_SIZE + 1 \<le> write_buf_len cfg"

lemma u16_bytes:
  "unat (ucast (drop_bit 8 reg AND 0xff) :: u8) = unat (reg :: u16) div 256"
  "unat (ucast (reg AND 0xff) :: u8) = unat reg mod 256"
proof -
  have low: "(n :: nat) AND 255 = n mod 256" for n
    using take_bit_eq_mask [of 8 n] by (simp add: take_bit_eq_mod mask_eq_exp_minus_1)
  show "unat (ucast (drop_bit 8 reg AND 0xff) :: u8) = unat (reg :: u16) div 256"
    using unat_u16_less [of reg]
    by (simp add: unsigned_ucast_eq unsigned_take_bit_eq unsigned_and_eq unat_div low
        take_bit_eq_mod drop_bit_eq_div)
  show "unat (ucast (reg AND 0xff) :: u8) = unat reg mod 256"
    by (simp add: unsigned_ucast_eq unsigned_take_bit_eq unsigned_and_eq take_bit_eq_mod low)
qed

lemma lp_addr_split:
  assumes "take_bit 2 (lp_addr cfg) = 0" "reg < 0x400"
  shows "lp_reg (lp58xx_dev_addr cfg reg) (ucast (reg AND 0xff)) = unat reg"
    and "drop_bit 2 (lp58xx_dev_addr cfg reg) = drop_bit 2 (lp_addr cfg)"
proof -
  let ?hi = "ucast (drop_bit 8 reg AND 0xff) :: u8"
  have small: "unat reg div 256 < 4" using assms(2) by (simp add: word_less_nat_alt)
  have "unat (take_bit 2 ?hi) = unat reg div 256"
    using small u16_bytes(1) [of reg] by (simp add: unsigned_take_bit_eq take_bit_nat_eq_self)
  then show "lp_reg (lp58xx_dev_addr cfg reg) (ucast (reg AND 0xff)) = unat reg"
    using assms(1) u16_bytes(2) [of reg] by (simp add: lp58xx_dev_addr_def lp_reg_def)
  have "drop_bit 2 ?hi = 0"
    using small u16_bytes(1) [of reg]
    by (simp add: drop_bit_eq_div word_unat_eq_iff unat_div)
  then show "drop_bit 2 (lp58xx_dev_addr cfg reg) = drop_bit 2 (lp_addr cfg)"
    by (simp add: lp58xx_dev_addr_def)
qed

lemma chip_reg_write:
  assumes "lp_cfg_wf cfg" "reg < 0x400" "run_state (lp58xx_reg_write env cfg reg v) tr = (r, tr')"
  shows "lp_chip (lp_addr cfg) f0 tr' =
    (if r < 0 then lp_chip (lp_addr cfg) f0 tr else (lp_chip (lp_addr cfg) f0 tr)(unat reg := v))"
  using assms lp_addr_split [of cfg reg]
  by (auto simp: lp58xx_reg_write_def lp_step_def lp_cfg_wf_def)

lemma chip_reg_read:
  "run_state (lp58xx_reg_read env cfg reg) tr = (r, tr') \<Longrightarrow> lp_chip base f0 tr' = lp_chip base f0 tr"
  by (auto simp: lp58xx_reg_read_def lp_step_def)

lemma chip_burst_write:
  assumes "lp_cfg_wf cfg" "reg < 0x400" "length buf = unat len"
    and "run_state (lp58xx_burst_write env cfg reg buf len) tr = (r, tr')"
  shows "lp_chip (lp_addr cfg) f0 tr' =
    (if r < 0 then lp_chip (lp_addr cfg) f0 tr
     else (\<lambda>i. if unat reg \<le> i \<and> i < unat reg + unat len then buf ! (i - unat reg)
               else lp_chip (lp_addr cfg) f0 tr i))"
  using assms lp_addr_split [of cfg reg]
  by (auto simp: lp58xx_burst_write_def lp_step_def lp_cfg_wf_def fun_eq_iff split: if_splits)

lemma chip_burst_read:
  "run_state (lp58xx_burst_read env cfg reg len) tr = (r, tr') \<Longrightarrow> lp_chip base f0 tr' = lp_chip base f0 tr"
  by (auto simp: lp58xx_burst_read_def lp_step_def split: if_splits)

lemma chip_update_config:
  assumes "lp_cfg_wf cfg" "run_state (lp58xx_update_config env cfg) tr = (r, tr')"
  shows "lp_chip (lp_addr cfg) f0 tr' \<in>
      {lp_chip (lp_addr cfg) f0 tr, (lp_chip (lp_addr cfg) f0 tr)(16 := LP58XX_CMD_UPDATE_KEY)}"
    and "0 \<le> r \<Longrightarrow> r = 0 \<and>
      lp_chip (lp_addr cfg) f0 tr' = (lp_chip (lp_addr cfg) f0 tr)(16 := LP58XX_CMD_UPDATE_KEY)"
proof -
  obtain r1 t1 where w: "run_state (lp58xx_reg_write env cfg LP58XX_CMD_UPDATE_ADDR
      LP58XX_CMD_UPDATE_KEY) tr = (r1, t1)" by fastforce
  obtain r2 v t2 where rd: "run_state (lp58xx_reg_read env cfg LP58XX_TSD_CONFIG_STATUS_ADDR) t1
      = ((r2, v), t2)" by (metis prod.collapse)
  note chip_reg_write [OF assms(1) _ w, of f0] chip_reg_read [OF rd, of "lp_addr cfg" f0]
  then show "lp_chip (lp_addr cfg) f0 tr' \<in>
      {lp_chip (lp_addr cfg) f0 tr, (lp_chip (lp_addr cfg) f0 tr)(16 := LP58XX_CMD_UPDATE_KEY)}"
    and "0 \<le> r \<Longrightarrow> r = 0 \<and>
      lp_chip (lp_addr cfg) f0 tr' = (lp_chip (lp_addr cfg) f0 tr)(16 := LP58XX_CMD_UPDATE_KEY)"
    using assms(2) w rd
    by (auto simp: lp58xx_update_config_def LP58XX_CMD_UPDATE_ADDR_def split: if_splits)
qed

lemma chip_auto_mode:
  assumes "lp_cfg_wf cfg" "channel < num_channels cfg"
    and "run_state (lp58xx_write_channel_field env cfg LP58XX_DEV_CONFIG_3_ADDR channel 1 1) tr = (r, tr')"
  shows "lp_chip (lp_addr cfg) f0 tr' =
    (let f = lp_chip (lp_addr cfg) f0 tr; i = 4 + unat channel div 8 in
     if r < 0 then f else f(i := f i OR BIT (unat channel mod 8)))"
proof -
  let ?sh = "unat channel mod 8"
  have small: "unat channel < 12" using assms(1,2) by (simp add: lp_cfg_wf_def word_less_nat_alt word_le_nat_alt)
  have reg: "unat (LP58XX_DEV_CONFIG_3_ADDR + channel div 8) = 4 + unat channel div 8"
    using small by (simp add: LP58XX_DEV_CONFIG_3_ADDR_def unat_word_ariths unat_div)
  have sh: "unat (channel mod 8) = ?sh" by (simp add: unat_mod)
  have "set_bits (GENMASK ?sh ?sh) (push_bit ?sh 1) b = b OR BIT ?sh" for b :: u8
    by (rule bit_word_eqI) (auto simp: set_bits_def GENMASK_def BIT_def bit_simps)
  moreover have "lp_reg (lp_addr cfg) reg = unat reg" for reg
    using assms(1) by (simp add: lp_reg_def lp_cfg_wf_def)
  moreover have "\<not> num_channels cfg < channel" using assms(2) by simp
  ultimately show ?thesis
    using assms(3) reg sh
    by (auto simp: lp58xx_write_channel_field_def lp_step_def Let_def)
qed

text \<open>The registers of a channel's animation engine, and what they mean.\<close>

definition ae_addr :: "u8 \<Rightarrow> nat" where
  "ae_addr channel = 128 + 26 * unat channel"

definition ae_block :: "(nat \<Rightarrow> u8) \<Rightarrow> u8 \<Rightarrow> u8 list" where
  "ae_block f channel = map f [ae_addr channel..<ae_addr channel + 26]"

lemma unat_ae_addr: "unat (LP58XX_AE_ADDR (ucast channel)) = ae_addr channel"
  using unat_u8_less [of channel]
  by (simp add: LP58XX_AE_ADDR_def ae_addr_def unsigned_ucast_eq unat_word_ariths
      take_bit_nat_eq_self)

lemma ae_blocks_disjoint:
  assumes "a \<noteq> b" "ae_addr a \<le> i" "i < ae_addr a + 26"
  shows "\<not> (ae_addr b \<le> i \<and> i < ae_addr b + 26)"
proof -
  have "unat a \<noteq> unat b" using assms(1) by (simp add: word_unat_eq_iff)
  with assms(2,3) show ?thesis by (auto simp: ae_addr_def)
qed

text \<open>What configuring a channel does to the registers, in every outcome.\<close>

lemma ae_configure_chip:
  assumes cfg: "lp_cfg_wf cfg" and ch: "channel < num_channels cfg"
    and c: "ae_wf c" "num_aeu c \<noteq> 0"
    and run: "run_state (lp58xx_ae_configure env cfg channel c) tr = (r, tr')"
  shows "\<exists>bs. lp58xx_ae_config_generate c = Inr bs \<and> length bs = 26 \<and> ae_decode bs = ae_quantise c \<and>
    (let f = lp_chip (lp_addr cfg) f0 tr; mode = 4 + unat channel div 8;
         f1 = (\<lambda>i. if ae_addr channel \<le> i \<and> i < ae_addr channel + 26
                   then bs ! (i - ae_addr channel) else f i);
         f2 = f1(mode := f1 mode OR BIT (unat channel mod 8));
         f3 = f2(16 := LP58XX_CMD_UPDATE_KEY) in
     lp_chip (lp_addr cfg) f0 tr' \<in> {f, f1, f2, f3} \<and>
     (0 \<le> r \<longrightarrow> r = 0 \<and> lp_chip (lp_addr cfg) f0 tr' = f3))"
proof -
  obtain bs where bs: "lp58xx_ae_config_generate c = Inr bs" "length bs = 26" "ae_decode bs = ae_quantise c"
    using ae_roundtrip [OF c] by (auto simp: LP58XX_AE_SIZE_def)
  obtain r1 t1 where b: "run_state (lp58xx_burst_write env cfg (LP58XX_AE_ADDR (ucast channel)) bs
      (of_nat LP58XX_AE_SIZE)) tr = (r1, t1)" by fastforce
  obtain r2 t2 where m: "run_state (lp58xx_write_channel_field env cfg LP58XX_DEV_CONFIG_3_ADDR
      channel 1 1) t1 = (r2, t2)" by fastforce
  obtain r3 t3 where u: "run_state (lp58xx_update_config env cfg) t2 = (r3, t3)" by fastforce
  have "unat channel < 12" using cfg ch by (simp add: lp_cfg_wf_def word_less_nat_alt word_le_nat_alt)
  then have "LP58XX_AE_ADDR (ucast channel) < 0x400"
    by (simp add: word_less_nat_alt unat_ae_addr ae_addr_def)
  note burst = chip_burst_write [OF cfg this _ b, of f0, unfolded unat_ae_addr]
  have "length bs = unat (of_nat LP58XX_AE_SIZE :: u8)" by (simp add: bs(2) LP58XX_AE_SIZE_def)
  note burst = burst [OF this]
  have size: "unat (of_nat LP58XX_AE_SIZE :: u8) = 26" by (simp add: LP58XX_AE_SIZE_def)
  note steps = burst [unfolded size] chip_auto_mode [OF cfg ch m, of f0] chip_update_config [OF cfg u, of f0]
  have out: "(r, tr') = (if r1 < 0 then (r1, t1) else if r2 < 0 then (r2, t2) else (r3, t3))"
    using run leD [of "num_channels cfg" channel] ch b m u bs(1)
    by (cases "num_channels cfg \<le> channel") (auto simp: lp58xx_ae_configure_def)
  show ?thesis
    using bs steps out by (intro exI [of _ bs]) (auto simp: Let_def split: if_splits)
qed

section \<open>A port to program animations\<close>

text \<open>
  What a user of the driver relies on: configuring a channel makes its engine hold the animation,
  with its times rounded, and disturbs no other channel; the commands disturb none. \<open>look\<close> is the
  animation a channel's engine holds.
\<close>

locale ae_port =
  fixes configure :: "u8 \<Rightarrow> lp58xx_ae_config \<Rightarrow> ('s, int) state"
    and pause :: "('s, int) state" and start :: "('s, int) state"
    and get_pwm :: "('s, int \<times> u8 list) state"
    and look :: "'s \<Rightarrow> u8 \<Rightarrow> lp58xx_ae_config" and valid :: "u8 \<Rightarrow> bool"
  assumes configure_same: "valid ch \<Longrightarrow> ae_wf c \<Longrightarrow> num_aeu c \<noteq> 0 \<Longrightarrow>
      run_state (configure ch c) s = (r, s') \<Longrightarrow> 0 \<le> r \<Longrightarrow> look s' ch = ae_quantise c"
    and configure_other: "valid ch \<Longrightarrow> ae_wf c \<Longrightarrow> num_aeu c \<noteq> 0 \<Longrightarrow>
      run_state (configure ch c) s = (r, s') \<Longrightarrow> valid ch' \<Longrightarrow> ch' \<noteq> ch \<Longrightarrow> look s' ch' = look s ch'"
    and pause_law: "valid ch \<Longrightarrow> run_state pause s = (r, s') \<Longrightarrow> look s' ch = look s ch"
    and start_law: "valid ch \<Longrightarrow> run_state start s = (r, s') \<Longrightarrow> look s' ch = look s ch"
    and get_law: "valid ch \<Longrightarrow> run_state get_pwm s = (x, s') \<Longrightarrow> look s' ch = look s ch"
begin

lemma configure_then_start:
  assumes "valid a" "ae_wf ca" "num_aeu ca \<noteq> 0"
    and "run_state (seq_neg [configure a ca, start]) s = (r, s')"
  shows "0 \<le> r \<Longrightarrow> look s' a = ae_quantise ca"
    and "valid ch \<Longrightarrow> ch \<noteq> a \<Longrightarrow> look s' ch = look s ch"
proof -
  obtain r1 s1 where 1: "run_state (configure a ca) s = (r1, s1)" by fastforce
  obtain r2 s2 where 2: "run_state start s1 = (r2, s2)" by fastforce
  have out: "(r, s') = (if r1 < 0 then (r1, s1) else (r2, s2))"
    using assms(4) 1 2 by (simp split: if_splits)
  show "0 \<le> r \<Longrightarrow> look s' a = ae_quantise ca"
    using out configure_same [OF assms(1-3) 1] start_law [OF assms(1) 2] by (auto split: if_splits)
  show "valid ch \<Longrightarrow> ch \<noteq> a \<Longrightarrow> look s' ch = look s ch"
    using out configure_other [OF assms(1-3) 1] start_law [OF _ 2] by (auto split: if_splits)
qed

lemma configure_first:
  assumes "valid a" "ae_wf ca" "num_aeu ca \<noteq> 0"
    and "run_state (seq_neg (configure a ca # m # ms)) s = (r, s')" "0 \<le> r"
  shows "\<exists>t. run_state (seq_neg (m # ms)) t = (r, s') \<and> look t a = ae_quantise ca \<and>
           (\<forall>ch. valid ch \<longrightarrow> ch \<noteq> a \<longrightarrow> look t ch = look s ch)"
proof -
  obtain r1 t where 1: "run_state (configure a ca) s = (r1, t)" by fastforce
  with assms(4,5) have "0 \<le> r1" "run_state (seq_neg (m # ms)) t = (r, s')"
    by (auto split: if_splits)
  with configure_same [OF assms(1-3) 1] configure_other [OF assms(1-3) 1] show ?thesis by blast
qed

text \<open>Programming three different channels, in any order, and starting the engines.\<close>

lemma program_three:
  assumes "valid a" "ae_wf ca" "num_aeu ca \<noteq> 0" and "valid b" "ae_wf cb" "num_aeu cb \<noteq> 0"
    and "valid c" "ae_wf cc" "num_aeu cc \<noteq> 0" and "a \<noteq> b" "a \<noteq> c" "b \<noteq> c"
    and "run_state (seq_neg [configure a ca, configure b cb, configure c cc, start]) s = (r, s')"
    and "0 \<le> r"
  shows "look s' a = ae_quantise ca \<and> look s' b = ae_quantise cb \<and> look s' c = ae_quantise cc"
proof -
  obtain t where t: "run_state (seq_neg [configure b cb, configure c cc, start]) t = (r, s')"
    "look t a = ae_quantise ca"
    using configure_first [OF assms(1-3,13,14)] by blast
  obtain u where u: "run_state (seq_neg [configure c cc, start]) u = (r, s')"
    "look u b = ae_quantise cb" "look u a = ae_quantise ca"
    using configure_first [OF assms(4-6) t(1) assms(14)] t(2) assms(1,10) by metis
  note last = configure_then_start [OF assms(7-9) u(1)]
  show ?thesis
    using last(1) last(2) [of a] last(2) [of b] u(2,3) assms(1,4,11,12,14) by simp
qed

end

definition lp_look :: "lp58xx_config \<Rightarrow> (nat \<Rightarrow> u8) \<Rightarrow> trace \<Rightarrow> u8 \<Rightarrow> lp58xx_ae_config" where
  "lp_look cfg f0 tr channel = ae_decode (ae_block (lp_chip (lp_addr cfg) f0 tr) channel)"

definition lp_valid :: "lp58xx_config \<Rightarrow> u8 \<Rightarrow> bool" where
  "lp_valid cfg channel \<longleftrightarrow> lp_cfg_wf cfg \<and> channel < num_channels cfg"

lemma ae_block_cong: "(\<And>i. 128 \<le> i \<Longrightarrow> f i = g i) \<Longrightarrow> ae_block f ch = ae_block g ch"
  by (simp add: ae_block_def ae_addr_def)

lemma ae_block_ext:
  "length bs = 26 \<Longrightarrow> (\<And>j. j < 26 \<Longrightarrow> f (ae_addr ch + j) = bs ! j) \<Longrightarrow> ae_block f ch = bs"
  by (simp add: ae_block_def list_eq_iff_nth_eq)

lemma lp_look_command:
  assumes "lp_cfg_wf cfg" "reg < 128" "run_state (lp58xx_reg_write env cfg reg v) tr = (r, tr')"
  shows "lp_look cfg f0 tr' ch = lp_look cfg f0 tr ch"
proof -
  have "reg < 0x400" "unat reg < 128" using assms(2) by (simp_all add: word_less_nat_alt)
  with chip_reg_write [OF assms(1) this(1) assms(3), of f0] show ?thesis
    by (auto simp: lp_look_def intro: arg_cong [OF ae_block_cong])
qed

lemma lp_look_configure:
  assumes "lp_valid cfg ch" "ae_wf c" "num_aeu c \<noteq> 0"
    and "run_state (lp58xx_ae_configure env cfg ch c) tr = (r, tr')"
  shows "0 \<le> r \<Longrightarrow> lp_look cfg f0 tr' ch = ae_quantise c"
    and "lp_valid cfg ch' \<Longrightarrow> ch' \<noteq> ch \<Longrightarrow> lp_look cfg f0 tr' ch' = lp_look cfg f0 tr ch'"
proof -
  let ?f = "lp_chip (lp_addr cfg) f0 tr" and ?f' = "lp_chip (lp_addr cfg) f0 tr'"
  have ch: "lp_cfg_wf cfg" "ch < num_channels cfg" using assms(1) by (simp_all add: lp_valid_def)
  then have "unat ch < 12" by (simp add: lp_cfg_wf_def word_less_nat_alt word_le_nat_alt)
  then have mode: "4 + unat ch div 8 < 128" by linarith
  obtain bs where bs: "length bs = 26" "ae_decode bs = ae_quantise c"
    and eff: "let f = ?f; mode = 4 + unat ch div 8;
         f1 = (\<lambda>i. if ae_addr ch \<le> i \<and> i < ae_addr ch + 26 then bs ! (i - ae_addr ch) else f i);
         f2 = f1(mode := f1 mode OR BIT (unat ch mod 8)); f3 = f2(16 := LP58XX_CMD_UPDATE_KEY) in
       ?f' \<in> {f, f1, f2, f3} \<and> (0 \<le> r \<longrightarrow> r = 0 \<and> ?f' = f3)"
    using ae_configure_chip [OF ch assms(2-4), of f0] by blast
  let ?g = "\<lambda>i. if ae_addr ch \<le> i \<and> i < ae_addr ch + 26 then bs ! (i - ae_addr ch) else ?f i"
  note eff = eff [unfolded Let_def]
  from conjunct1 [OF eff] mode have chip: "?f' = ?f \<or> (\<forall>i\<ge>128. ?f' i = ?g i)"
    by (elim insertE emptyE) simp_all
  from conjunct2 [OF eff] mode have chip_ok: "0 \<le> r \<Longrightarrow> \<forall>i\<ge>128. ?f' i = ?g i" by simp
  have big: "128 \<le> ae_addr k" for k by (simp add: ae_addr_def)
  show "0 \<le> r \<Longrightarrow> lp_look cfg f0 tr' ch = ae_quantise c"
    using chip_ok big [of ch] ae_block_ext [OF bs(1), of ?f' ch] bs(2) by (simp add: lp_look_def)
  assume ne: "ch' \<noteq> ch"
  have "ae_block ?f' ch' = ae_block ?f ch'"
    using chip big [of ch'] ae_blocks_disjoint [OF ne]
    by (fastforce simp: ae_block_def)
  then show "lp_look cfg f0 tr' ch' = lp_look cfg f0 tr ch'" by (simp add: lp_look_def)
qed

interpretation lp: ae_port "lp58xx_ae_configure env cfg" "lp58xx_pause env cfg" "lp58xx_start env cfg"
  "lp58xx_get_auto_pwm env cfg 0 3" "lp_look cfg f0" "lp_valid cfg" for env cfg f0
proof (unfold_locales, goal_cases)
  case (1 ch c s r s')
  then show ?case by (rule lp_look_configure(1))
next
  case (2 ch c s r s' ch')
  then show ?case by (metis lp_look_configure(2))
next
  case (3 ch s r s')
  then show ?case
    using lp_look_command [of cfg LP58XX_CMD_PAUSE_ADDR] by (simp add: lp58xx_pause_def lp_valid_def lp58xx_consts)
next
  case (4 ch s r s')
  then show ?case
    using lp_look_command [of cfg LP58XX_CMD_START_ADDR] by (simp add: lp58xx_start_def lp_valid_def lp58xx_consts)
next
  case (5 ch s x s')
  then show ?case
    using chip_burst_read by (metis lp58xx_get_auto_pwm_def lp_look_def prod.collapse)
qed

section \<open>Enabling the channels\<close>

definition channels_of :: "led_info \<Rightarrow> nat set \<Rightarrow> nat set" where
  "channels_of info is = (\<lambda>i. unat (led_index info + of_nat i)) ` is"

definition led_channels :: "lp58xx_config \<Rightarrow> nat set" where
  \<comment> \<open>the channels of all configured LEDs\<close>
  "led_channels cfg =
     (\<Union>l < unat (num_leds cfg). channels_of (led_infos cfg ! l) {..<unat (num_colors (led_infos cfg ! l))})"

definition exp_channels :: "lp58xx_config \<Rightarrow> nat set" where
  \<comment> \<open>the channels with exponential dimming\<close>
  "exp_channels cfg =
     (\<Union>l \<in> {l. l < unat (num_leds cfg) \<and> exponential_dimming (led_configs cfg ! l)}.
        channels_of (led_infos cfg ! l) {..<unat (num_colors (led_infos cfg ! l))})"

lemma bit_BIT_u16: "bit (BIT k :: u16) n \<longleftrightarrow> n = k \<and> n < 16"
  by (auto simp: BIT_def bit_simps)

lemma leds_configure_colors_error:
  "run_state (leds_configure_colors env cfg info lc is le ex) tr = (Inl e, tr') \<Longrightarrow> e < 0"
  by (induction "is" arbitrary: le ex tr) (auto simp: Let_def split: prod.splits if_splits)

lemma leds_configure_loop_error:
  "run_state (leds_configure_loop env cfg ls le ex) tr = (Inl e, tr') \<Longrightarrow> e < 0"
  by (induction ls arbitrary: le ex tr)
    (auto dest: leds_configure_colors_error split: prod.splits option.splits sum.splits)

lemma leds_configure_colors_masks:
  assumes "run_state (leds_configure_colors env cfg info lc is le ex) tr = (Inr (le', ex'), tr')" "n < 16"
  shows "bit le' n \<longleftrightarrow> bit le n \<or> n \<in> channels_of info (set is)"
    and "bit ex' n \<longleftrightarrow> bit ex n \<or> exponential_dimming lc \<and> n \<in> channels_of info (set is)"
  using assms
  by (induction "is" arbitrary: le ex tr)
    (auto simp: Let_def channels_of_def bit_BIT_u16 bit_simps split: prod.splits if_splits)

lemma leds_configure_loop_masks:
  assumes "run_state (leds_configure_loop env cfg ls le ex) tr = (Inr (le', ex'), tr')" "n < 16"
    and "\<forall>l \<in> set ls. l < unat (num_leds cfg)"
  shows "(bit le' n \<longleftrightarrow> bit le n \<or>
      (\<exists>l \<in> set ls. n \<in> channels_of (led_infos cfg ! l) {..<unat (num_colors (led_infos cfg ! l))})) \<and>
    (bit ex' n \<longleftrightarrow> bit ex n \<or> (\<exists>l \<in> set ls. exponential_dimming (led_configs cfg ! l) \<and>
      n \<in> channels_of (led_infos cfg ! l) {..<unat (num_colors (led_infos cfg ! l))}))"
  using assms
proof (induction ls arbitrary: le ex tr)
  case Nil
  then show ?case by simp
next
  case (Cons l ls)
  have l: "l < unat (num_leds cfg)" "l < 2 ^ 32"
    using Cons.prems(3) unat_u8_less [of "num_leds cfg"] by simp_all
  have small: "(of_nat l :: u32) < ucast (num_leds cfg)" and idx: "unat (of_nat l :: u32) = l"
    using l by (simp_all add: word_less_nat_alt unsigned_of_nat unsigned_ucast_eq take_bit_nat_eq_self
        unat_ucast_u8)
  obtain x t1 where colors: "run_state (leds_configure_colors env cfg (led_infos cfg ! l)
      (led_configs cfg ! l) [0..<unat (num_colors (led_infos cfg ! l))] le ex) tr = (x, t1)" by fastforce
  with Cons.prems(1) small idx obtain le1 ex1 where
    x: "x = Inr (le1, ex1)"
    and rest: "run_state (leds_configure_loop env cfg ls le1 ex1) t1 = (Inr (le', ex'), tr')"
    by (cases x) (auto simp: lp58xx_led_to_info_def lp58xx_led_to_config_def)
  note masks = leds_configure_colors_masks [OF colors [unfolded x] Cons.prems(2)]
  have range: "set [0..<m] = {..<m}" for m by auto
  show ?case using Cons.IH [OF rest Cons.prems(2)] Cons.prems(3) masks unfolding range by auto
qed

lemma bit_put_le16: "n < 16 \<Longrightarrow> bit (put_le16 v ! (n div 8)) (n mod 8) = bit v n"
proof -
  assume n: "n < 16"
  then consider "n < 8" "n div 8 = 0" "n mod 8 = n" | "8 \<le> n" "n div 8 = 1" "n mod 8 = n - 8"
    by (cases "n < 8") (auto simp: div_nat_eqI mod_if)
  then show ?thesis using n by cases (auto simp: put_le16_def bit_simps)
qed

lemma leds_configure_masks:
  assumes cfg: "lp_cfg_wf cfg"
    and run: "run_state (lp58xx_leds_configure env cfg) tr = (0, tr')" and n: "n < 16"
  shows "bit (lp_chip (lp_addr cfg) f0 tr' (0x20 + n div 8)) (n mod 8) \<longleftrightarrow> n \<in> led_channels cfg"
    and "bit (lp_chip (lp_addr cfg) f0 tr' (6 + n div 8)) (n mod 8) \<longleftrightarrow> n \<in> exp_channels cfg"
proof -
  obtain x t1 where loop: "run_state (leds_configure_loop env cfg [0..<unat (num_leds cfg)] 0 0) tr
      = (x, t1)" by fastforce
  have no_zero: "x \<noteq> Inl 0" using leds_configure_loop_error [of env cfg _ 0 0 tr 0 t1] loop by auto
  with run loop obtain le ex where x: "x = Inr (le, ex)"
    by (cases x) (auto simp: lp58xx_leds_configure_def)
  obtain r2 t2 where b1: "run_state (lp58xx_burst_write env cfg LP58XX_DEV_CONFIG_5_ADDR
      (put_le16 ex) 2) t1 = (r2, t2)" by fastforce
  obtain r3 t3 where b2: "run_state (lp58xx_burst_write env cfg LP58XX_LED_ENABLE_ADDR
      (put_le16 le) 2) t2 = (r3, t3)" by fastforce
  have out: "0 \<le> r2" "0 \<le> r3" "tr' = t3"
    using run loop x b1 b2 by (auto simp: lp58xx_leds_configure_def split: if_splits)
  have reg: "LP58XX_DEV_CONFIG_5_ADDR < 0x400" "LP58XX_LED_ENABLE_ADDR < 0x400"
    by (simp_all add: lp58xx_consts)
  have d: "n div 8 < 2" using n by simp
  note chip = chip_burst_write [OF cfg reg(1) _ b1, of f0] chip_burst_write [OF cfg reg(2) _ b2, of f0]
  have c6: "lp_chip (lp_addr cfg) f0 t3 (6 + n div 8) = put_le16 ex ! (n div 8)"
    and c20: "lp_chip (lp_addr cfg) f0 t3 (0x20 + n div 8) = put_le16 le ! (n div 8)"
    using chip out d by (simp_all add: lp58xx_consts)
  have "\<forall>l \<in> set [0..<unat (num_leds cfg)]. l < unat (num_leds cfg)" by simp
  note masks = leds_configure_loop_masks [OF loop [unfolded x] n this]
  show "bit (lp_chip (lp_addr cfg) f0 tr' (0x20 + n div 8)) (n mod 8) \<longleftrightarrow> n \<in> led_channels cfg"
    using masks c20 out(3) bit_put_le16 [OF n] by (auto simp: led_channels_def)
  show "bit (lp_chip (lp_addr cfg) f0 tr' (6 + n div 8)) (n mod 8) \<longleftrightarrow> n \<in> exp_channels cfg"
    using masks c6 out(3) bit_put_le16 [OF n] by (auto simp: exp_channels_def)
qed

section \<open>Properties\<close>

definition board_lp58xx :: lp58xx_config where
  \<comment> \<open>the RGB LED of the board files\<close>
  "board_lp58xx = \<lparr>lp_addr = 0x50, num_channels = 4, num_leds = 1,
     led_infos = [\<lparr>led_index = 0, num_colors = 3\<rparr>],
     led_configs = [\<lparr>manual_current_ua = [6000, 7000, 9800], auto_current_ua = [6000, 7000, 9800],
                     exponential_dimming = False\<rparr>],
     max_current_ua = 25500, lsd_threshold_percent = 65, write_buf_len = 27\<rparr>"

definition sample_ae :: lp58xx_ae_config where
  "sample_ae = \<lparr>pause_start_msec = 100, pause_end_msec = 0, num_aeu = 2, ae_repeat = 0,
     aeu = [\<lparr>aeu_pwm = [0, 255, 100, 100, 100], aeu_time_msec = [540, 360, 0, 0], aeu_repeat = 0\<rparr>,
            \<lparr>aeu_pwm = [100, 50, 2, 50, 100], aeu_time_msec = [360, 360, 360, 360], aeu_repeat = 3\<rparr>,
            aeu_zero]\<rparr>"

lemma board_lp58xx_wf: "lp_cfg_wf board_lp58xx"
  by (simp add: lp_cfg_wf_def board_lp58xx_def LP58XX_AE_SIZE_def take_bit_eq_mod)

lemma sample_ae_wf: "ae_wf sample_ae" "num_aeu sample_ae \<noteq> 0"
  by (simp_all add: sample_ae_def ae_wf_def aeu_wf_def aeu_zero_def)

text \<open>
  Property C6. The lookup table rounds every duration to the nearest of the 16 durations the chip
  supports.
\<close>

theorem lp58xx_ae_time_nearest_supported:
  assumes "other \<in> set ae_times"
  shows "\<bar>int (ae_times ! unat (lp58xx_ae_time_from_msec msec)) - int (unat msec)\<bar>
           \<le> \<bar>int other - int (unat msec)\<bar>"
  using assms ae_time_nearest [of _ msec] ae_times_sorted(2) by (auto simp: in_set_conv_nth)

theorem lp58xx_ae_time_nearest_supported_witness:
  "\<bar>int (ae_times ! unat (lp58xx_ae_time_from_msec 700)) - 700\<bar> \<le> \<bar>int 540 - 700\<bar>"
  using lp58xx_ae_time_nearest_supported [of 540 700] by (simp add: ae_times_def)

text \<open>
  Property C7. The 26 bytes generated for an animation can be decoded back: to the same animation,
  with each duration rounded to a supported one. Generation fails only for an animation without
  units.
\<close>

theorem lp58xx_ae_config_roundtrip:
  assumes "ae_wf c"
  shows "(num_aeu c = 0 \<longrightarrow> lp58xx_ae_config_generate c = Inl (- EINVAL)) \<and>
         (num_aeu c \<noteq> 0 \<longrightarrow> (\<exists>bs. lp58xx_ae_config_generate c = Inr bs \<and>
            length bs = LP58XX_AE_SIZE \<and> ae_decode bs = ae_quantise c))"
  using ae_roundtrip [OF assms] by (auto simp: lp58xx_ae_config_generate_def)

theorem lp58xx_ae_config_roundtrip_witness:
  "\<exists>bs. lp58xx_ae_config_generate sample_ae = Inr bs \<and> ae_decode bs = ae_quantise sample_ae"
  using lp58xx_ae_config_roundtrip [OF sample_ae_wf(1)] sample_ae_wf(2) by blast

text \<open>
  A current within the limit becomes a register value that fits in a byte, does not
  exceed the current asked for, and is less than one step below it.
\<close>

theorem lp58xx_current_rounds_down:
  assumes "ucast current \<le> max_current_ua cfg" "0 < max_current_ua cfg"
  shows "\<exists>code. lp58xx_current_from_microamps cfg current = int code \<and> code \<le> 255 \<and>
           code * unat (max_current_ua cfg) \<le> unat current * 255 \<and>
           unat current * 255 < (code + 1) * unat (max_current_ua cfg)"
proof -
  let ?m = "unat (max_current_ua cfg)" and ?c = "unat current"
  have c: "?c \<le> ?m" "0 < ?m" "?c < 2 ^ 16"
    using assms unat_u16_less [of current] by (simp_all add: word_le_nat_alt word_less_nat_alt)
  have "unat (ucast current * (0xff :: u32)) = ?c * 255" using c(3) by (simp add: unat_word_ariths)
  then have "unat (ucast current * 0xff div max_current_ua cfg) = ?c * 255 div ?m"
    by (simp only: unat_div)
  moreover have "uint w = int (unat w)" for w :: u32 by simp
  ultimately have "uint (ucast current * 0xff div max_current_ua cfg) = int (?c * 255 div ?m)"
    by (simp only:)
  then have eq: "lp58xx_current_from_microamps cfg current = int (?c * 255 div ?m)"
    using leD [OF assms(1)] by (simp only: lp58xx_current_from_microamps_def if_False)
  have le: "?c * 255 div ?m \<le> 255"
    using div_le_mono [OF mult_le_mono1 [OF c(1), of 255], of ?m] c(2) by simp
  have lo: "?c * 255 div ?m * ?m \<le> ?c * 255" by (rule div_times_less_eq_dividend)
  have hi: "?c * 255 < (?c * 255 div ?m + 1) * ?m"
    using dividend_less_div_times [OF c(2), of "?c * 255"] by simp
  show ?thesis by (rule exI [of _ "?c * 255 div ?m"]) (intro conjI eq le lo hi)
qed

theorem lp58xx_current_rounds_down_witness:
  "\<exists>code. lp58xx_current_from_microamps board_lp58xx 9800 = int code \<and> code * 25500 \<le> 9800 * 255"
  using lp58xx_current_rounds_down [of 9800 board_lp58xx] by (auto simp: board_lp58xx_def)

text \<open>
  A defect: a current above the limit is not rejected. The error of the conversion is
  written to the current register of the channel, as the low byte 0xEA of -EINVAL, and the result is
  the one of the bus.
\<close>

theorem lp58xx_excess_current_written:
  assumes "ucast current > max_current_ua cfg" "channel < num_channels cfg"
  shows "run_state (lp58xx_set_manual_current env cfg channel current) tr =
           run_state (lp58xx_reg_write env cfg (LP58XX_MANUAL_DC_ADDR (ucast channel)) 0xEA) tr \<and>
         run_state (lp58xx_set_auto_current env cfg channel current) tr =
           run_state (lp58xx_reg_write env cfg (LP58XX_AUTO_DC_ADDR (ucast channel)) 0xEA) tr"
proof -
  have "\<not> num_channels cfg \<le> channel" using assms(2) by simp
  moreover have "word_of_int (lp58xx_current_from_microamps cfg current) = (0xEA :: u8)"
    using assms(1) by (simp add: lp58xx_current_from_microamps_def)
  ultimately show ?thesis
    by (simp add: lp58xx_set_manual_current_def lp58xx_set_auto_current_def)
qed

theorem lp58xx_excess_current_written_witness:
  "calls (snd (run_state (lp58xx_set_manual_current quiet_env board_lp58xx 2 26000) []))
     = [I2cRegWrite 0x50 0x32 0xEA]"
proof -
  have a: "ucast (26000 :: u16) > max_current_ua board_lp58xx" "2 < num_channels board_lp58xx"
    by (simp_all add: board_lp58xx_def)
  show ?thesis
    using lp58xx_excess_current_written [OF a, of quiet_env "[]"]
    by (simp add: lp58xx_reg_write_def lp58xx_dev_addr_def board_lp58xx_def LP58XX_MANUAL_DC_ADDR_def)
qed

text \<open>
  Property C8. Configuring a channel that succeeds leaves the animation in the registers of that
  channel's engine, switches the channel to autonomous mode and issues the update command; whatever
  the outcome, the engines of the other channels keep their animation.
\<close>

theorem lp58xx_ae_configure_channel:
  assumes "lp_cfg_wf cfg" "channel < num_channels cfg" "ae_wf c" "num_aeu c \<noteq> 0"
    and "run_state (lp58xx_ae_configure env cfg channel c) tr = (ret, tr')"
  shows "(0 \<le> ret \<longrightarrow> lp_look cfg f0 tr' channel = ae_quantise c \<and>
            bit (lp_chip (lp_addr cfg) f0 tr' (4 + unat channel div 8)) (unat channel mod 8) \<and>
            lp_chip (lp_addr cfg) f0 tr' 0x10 = LP58XX_CMD_UPDATE_KEY) \<and>
         (\<forall>other < num_channels cfg. other \<noteq> channel \<longrightarrow>
            lp_look cfg f0 tr' other = lp_look cfg f0 tr other)"
proof -
  have valid: "lp_valid cfg channel" using assms(1,2) by (simp add: lp_valid_def)
  have "unat channel < 12" using assms(1,2) by (simp add: lp_cfg_wf_def word_less_nat_alt word_le_nat_alt)
  then have ne: "4 + unat channel div 8 \<noteq> 16" by linarith
  have bit: "bit (x OR BIT (unat channel mod 8)) (unat channel mod 8)" for x :: u8
    by (simp add: BIT_def bit_simps)
  obtain bs where eff: "let f = lp_chip (lp_addr cfg) f0 tr; mode = 4 + unat channel div 8;
         f1 = (\<lambda>i. if ae_addr channel \<le> i \<and> i < ae_addr channel + 26
                   then bs ! (i - ae_addr channel) else f i);
         f2 = f1(mode := f1 mode OR BIT (unat channel mod 8));
         f3 = f2(16 := LP58XX_CMD_UPDATE_KEY) in
     lp_chip (lp_addr cfg) f0 tr' \<in> {f, f1, f2, f3} \<and>
     (0 \<le> ret \<longrightarrow> ret = 0 \<and> lp_chip (lp_addr cfg) f0 tr' = f3)"
    using ae_configure_chip [OF assms, of f0] by blast
  have regs: "0 \<le> ret \<Longrightarrow>
      bit (lp_chip (lp_addr cfg) f0 tr' (4 + unat channel div 8)) (unat channel mod 8) \<and>
      lp_chip (lp_addr cfg) f0 tr' 0x10 = LP58XX_CMD_UPDATE_KEY"
    using conjunct2 [OF eff [unfolded Let_def]] ne bit by simp
  show ?thesis
    using lp.configure_same [OF valid assms(3-5), of f0] lp.configure_other [OF valid assms(3-5), of _ f0]
      regs assms(1) by (simp add: lp_valid_def)
qed

theorem lp58xx_ae_configure_channel_witness:
  "\<exists>tr'. run_state (lp58xx_ae_configure quiet_env board_lp58xx 2 sample_ae) [] = (0, tr') \<and>
     lp_look board_lp58xx (\<lambda>_. 0) tr' 2 = ae_quantise sample_ae"
proof -
  obtain ret tr' where run:
    "run_state (lp58xx_ae_configure quiet_env board_lp58xx 2 sample_ae) [] = (ret, tr')" by fastforce
  have ch: "2 < num_channels board_lp58xx" by (simp add: board_lp58xx_def)
  obtain bs where "lp58xx_ae_config_generate sample_ae = Inr bs"
    using ae_roundtrip [OF sample_ae_wf] by blast
  with run have ret: "ret = 0"
    by (auto simp: lp58xx_ae_configure_def board_lp58xx_def lp58xx_burst_write_def
        lp58xx_write_channel_field_def lp58xx_update_config_def lp58xx_reg_write_def
        lp58xx_reg_read_def LP58XX_AE_SIZE_def Let_def)
  with lp58xx_ae_configure_channel [OF board_lp58xx_wf ch sample_ae_wf run, of "\<lambda>_. 0"] run
  show ?thesis by auto
qed

text \<open>
  Configuring the LEDs enables exactly the channels of the configured LEDs, and
  exponential dimming exactly on those LEDs that ask for it.
\<close>

theorem lp58xx_leds_configure_enables:
  assumes "lp_cfg_wf cfg" "run_state (lp58xx_leds_configure env cfg) tr = (0, tr')" "n < 16"
  shows "(bit (lp_chip (lp_addr cfg) f0 tr' (0x20 + n div 8)) (n mod 8) \<longleftrightarrow> n \<in> led_channels cfg) \<and>
         (bit (lp_chip (lp_addr cfg) f0 tr' (6 + n div 8)) (n mod 8) \<longleftrightarrow> n \<in> exp_channels cfg)"
  using leds_configure_masks [OF assms] by simp

theorem lp58xx_leds_configure_enables_witness:
  "\<exists>tr'. run_state (lp58xx_leds_configure quiet_env board_lp58xx) [] = (0, tr') \<and>
     bit (lp_chip 0x50 (\<lambda>_. 0) tr' 0x20) 2 \<and> \<not> bit (lp_chip 0x50 (\<lambda>_. 0) tr' 0x20) 3"
proof -
  obtain ret tr' where run: "run_state (lp58xx_leds_configure quiet_env board_lp58xx) [] = (ret, tr')"
    by fastforce
  then have ret: "ret = 0"
    by (auto simp: lp58xx_leds_configure_def board_lp58xx_def lp58xx_burst_write_def upt_rec
        lp58xx_led_to_info_def lp58xx_led_to_config_def lp58xx_set_manual_current_def
        lp58xx_set_auto_current_def lp58xx_reg_write_def Let_def word_le_nat_alt)
  have "{..<unat (3 :: u8)} = {0, 1, 2}" by auto
  then have chans: "led_channels board_lp58xx = {0, 1, 2}"
    by (simp add: led_channels_def board_lp58xx_def channels_of_def lessThan_Suc)
  show ?thesis
    using lp58xx_leds_configure_enables [OF board_lp58xx_wf run [unfolded ret], of 2 "\<lambda>_. 0"]
      lp58xx_leds_configure_enables [OF board_lp58xx_wf run [unfolded ret], of 3 "\<lambda>_. 0"] run ret chans
    by (simp add: board_lp58xx_def)
qed

end
