(* ===== verification/Led.thy ===== *)
theory Led
  imports Lp58xx
begin

text \<open>
  The status LED of both nodes, \<^verbatim>\<open>firmware/common/src/led.c\<close>. The file is compiled for the audio node
  or for the central node (\<^verbatim>\<open>CONFIG_ZEUS_NODE_AUDIO\<close>, \<^verbatim>\<open>CONFIG_ZEUS_NODE_CENTRAL\<close>), which is the
  parameter \<open>node\<close> here. Every operation of the file takes the mutex for its whole duration, so an
  operation is one step of the system.

  The state is \<open>struct led_data\<close> together with the trace of the calls made to the LED controller and
  to the work queue; \<open>io\<close> runs the code of the controller's driver on that trace.
\<close>

section \<open>State\<close>

datatype led_node = NODE_AUDIO | NODE_CENTRAL

datatype led_power_state = LED_POWER_UNKNOWN | LED_POWER_ON | LED_POWER_OFF

datatype led_record_state = LED_RECORD_WAITING | LED_RECORD_RUNNING | LED_RECORD_IDLE

datatype led_battery_state = LED_BATTERY_DISCHARGING | LED_BATTERY_CHARGING | LED_BATTERY_FULL
  | LED_BATTERY_ERROR

datatype led_pattern = LED_PATTERN_OFF | LED_PATTERN_STARTUP | LED_PATTERN_BATTERY_CHARGING
  | LED_PATTERN_BATTERY_FULL | LED_PATTERN_IDLE_SYNCED | LED_PATTERN_IDLE_NOT_SYNCED
  | LED_PATTERN_IDLE | LED_PATTERN_RECORD_WAITING | LED_PATTERN_RECORD_RUNNING

record led_data =
  power_state :: led_power_state
  battery_state :: led_battery_state
  synced :: bool
  record_state :: led_record_state
  shown :: led_pattern            \<comment> \<open>the field \<open>pattern\<close>\<close>

record led_system =
  led_data :: led_data
  led_calls :: trace

definition led_data_init :: led_data where
  "led_data_init = \<lparr>power_state = LED_POWER_UNKNOWN, battery_state = LED_BATTERY_DISCHARGING,
     synced = False, record_state = LED_RECORD_IDLE, shown = LED_PATTERN_OFF\<rparr>"

definition io :: "(trace, 'a) state \<Rightarrow> (led_system, 'a) state" where
  "io = zoom led_calls (\<lambda>t s. s\<lparr>led_calls := t\<rparr>)"

definition upd :: "(led_data \<Rightarrow> led_data) \<Rightarrow> (led_system, unit) state" where
  "upd f = State (\<lambda>s. ((), s\<lparr>led_data := f (led_data s)\<rparr>))"

definition get_led :: "(led_system, led_data) state" where
  "get_led = State (\<lambda>s. (led_data s, s))"

lemma run_io [simp]:
  "run_state (io m) s = (case run_state m (led_calls s) of (a, t) \<Rightarrow> (a, s\<lparr>led_calls := t\<rparr>))"
  by (simp add: io_def)

lemma run_upd [simp]: "run_state (upd f) s = ((), s\<lparr>led_data := f (led_data s)\<rparr>)"
  by (simp add: upd_def)

lemma run_get_led [simp]: "run_state get_led s = (led_data s, s)"
  by (simp add: get_led_def)

section \<open>Animations\<close>

definition LED_RECORD_SYNC_INTERVAL :: u32 where
  \<comment> \<open>\<open>NHPOT(ZEUS_TIME_NOMINAL_FREQ * 8)\<close>, the next power of two above 128000000\<close>
  "LED_RECORD_SYNC_INTERVAL = 2 ^ 27"

definition ZEUS_TIME_NOMINAL_FREQ :: u32 where "ZEUS_TIME_NOMINAL_FREQ = 16000000"
definition LED_BLUE :: u8 where "LED_BLUE = 0"
definition LED_GREEN :: u8 where "LED_GREEN = 1"
definition LED_RED :: u8 where "LED_RED = 2"
definition LED_FADE_MS :: u16 where "LED_FADE_MS = 360"

definition LED_AEU_FADE :: "u8 \<Rightarrow> u8 \<Rightarrow> lp58xx_aeu_config" where
  "LED_AEU_FADE start_pwm end_pwm = \<lparr>aeu_pwm = [start_pwm, end_pwm, 0, 0, 0],
     aeu_time_msec = [LED_FADE_MS, 0, 0, 0], aeu_repeat = 0\<rparr>"

definition LED_AEU_CONSTANT :: "u8 \<Rightarrow> lp58xx_aeu_config" where
  "LED_AEU_CONSTANT pwm_val = \<lparr>aeu_pwm = [pwm_val, pwm_val, pwm_val, pwm_val, pwm_val],
     aeu_time_msec = [8050, 8050, 8050, 8050], aeu_repeat = LP58XX_AEU_REPEAT_INFINITE\<rparr>"

definition AEU :: "u8 list \<Rightarrow> u16 list \<Rightarrow> 2 word \<Rightarrow> lp58xx_aeu_config" where
  "AEU p t r = \<lparr>aeu_pwm = p, aeu_time_msec = t, aeu_repeat = r\<rparr>"

definition AE1 :: "lp58xx_aeu_config \<Rightarrow> lp58xx_ae_config" where
  \<comment> \<open>no pauses, one unit, no repetition; the array elements left out are zero\<close>
  "AE1 a = \<lparr>pause_start_msec = 0, pause_end_msec = 0, num_aeu = 1, ae_repeat = 0,
     aeu = [a, aeu_zero, aeu_zero]\<rparr>"

definition AE2 :: "lp58xx_aeu_config \<Rightarrow> lp58xx_aeu_config \<Rightarrow> lp58xx_ae_config" where
  "AE2 a b = \<lparr>pause_start_msec = 0, pause_end_msec = 0, num_aeu = 2, ae_repeat = 0,
     aeu = [a, b, aeu_zero]\<rparr>"

definition led_aeu_scale :: "lp58xx_aeu_config \<Rightarrow> u8 \<Rightarrow> lp58xx_aeu_config" where
  "led_aeu_scale a scale_pwm =
     \<lparr>aeu_pwm = map (\<lambda>i. of_nat (unat (aeu_pwm a ! i) * unat scale_pwm div 255)) [0..<5],
      aeu_time_msec = map (\<lambda>i. aeu_time_msec a ! i) [0..<4], aeu_repeat = aeu_repeat a\<rparr>"

definition led_ae_scale :: "lp58xx_ae_config \<Rightarrow> u8 \<Rightarrow> lp58xx_ae_config" where
  "led_ae_scale c scale_pwm =
     \<lparr>pause_start_msec = pause_start_msec c, pause_end_msec = pause_end_msec c,
      num_aeu = num_aeu c, ae_repeat = ae_repeat c,
      aeu = [led_aeu_scale (aeu c ! 0) scale_pwm, led_aeu_scale (aeu c ! 1) scale_pwm,
             led_aeu_scale (aeu c ! 1) scale_pwm]\<rparr>"

definition led_configure_fade_out :: "env \<Rightarrow> lp58xx_config \<Rightarrow> u8 \<Rightarrow> u8 \<Rightarrow> (trace, int) state" where
  "led_configure_fade_out env led channel start_pwm =
     lp58xx_ae_configure env led channel (AE1 (LED_AEU_FADE start_pwm 0))"

text \<open>
  The common beginning of the patterns: pause the engines and read the present brightness of the
  three channels.
\<close>

definition with_start_pwm ::
  "env \<Rightarrow> lp58xx_config \<Rightarrow> (u8 list \<Rightarrow> (trace, int) state list) \<Rightarrow> (trace, int) state" where
  "with_start_pwm env led steps =
     do { ret \<leftarrow> lp58xx_pause env led;
          if ret < 0 then return ret
          else do {
            (ret, start_pwm) \<leftarrow> lp58xx_get_auto_pwm env led 0 3;
            if ret < 0 then return ret else seq_neg (steps start_pwm) } }"

definition led_pattern_off :: "env \<Rightarrow> lp58xx_config \<Rightarrow> (trace, int) state" where
  "led_pattern_off env led = with_start_pwm env led (\<lambda>start_pwm.
     [led_configure_fade_out env led LED_BLUE (start_pwm ! 0),
      led_configure_fade_out env led LED_GREEN (start_pwm ! 1),
      led_configure_fade_out env led LED_RED (start_pwm ! 2),
      lp58xx_start env led])"

definition led_pattern_startup_audio :: "env \<Rightarrow> lp58xx_config \<Rightarrow> (trace, int) state" where
  "led_pattern_startup_audio env led = seq_neg
     [lp58xx_ae_configure env led LED_BLUE
        (AE2 (AEU [0, 255, 100, 100, 100] [540, 360, 0, 0] 0)
             (AEU [100, 50, 2, 50, 100] [360, 360, 360, 360] LP58XX_AEU_REPEAT_INFINITE)),
      lp58xx_start env led]"

definition led_pattern_startup_central :: "env \<Rightarrow> lp58xx_config \<Rightarrow> (trace, int) state" where
  "led_pattern_startup_central env led =
     (let c = AE2 (AEU [0, 255, 50, 50, 50] [540, 540, 0, 0] 0) (LED_AEU_CONSTANT 50) in
      seq_neg
       [lp58xx_ae_configure env led LED_RED (led_ae_scale c 70),
        lp58xx_ae_configure env led LED_BLUE (led_ae_scale c 100),
        lp58xx_start env led])"

definition led_pattern_battery_charging :: "env \<Rightarrow> lp58xx_config \<Rightarrow> (trace, int) state" where
  "led_pattern_battery_charging env led = with_start_pwm env led (\<lambda>start_pwm.
     [led_configure_fade_out env led LED_BLUE (start_pwm ! 0),
      lp58xx_ae_configure env led LED_GREEN
        (AE2 (AEU [start_pwm ! 1, 0, 0, 50, 50] [LED_FADE_MS, 360, 360, 0] 0)
             (AEU [50, 20, 2, 20, 50] [540, 800, 800, 540] LP58XX_AEU_REPEAT_INFINITE)),
      led_configure_fade_out env led LED_RED (start_pwm ! 2),
      lp58xx_start env led])"

definition led_pattern_battery_full :: "env \<Rightarrow> lp58xx_config \<Rightarrow> (trace, int) state" where
  "led_pattern_battery_full env led = with_start_pwm env led (\<lambda>start_pwm.
     [led_configure_fade_out env led LED_BLUE (start_pwm ! 0),
      lp58xx_ae_configure env led LED_GREEN
        (AE2 (LED_AEU_FADE (start_pwm ! 1) 50) (LED_AEU_CONSTANT 50)),
      led_configure_fade_out env led LED_RED (start_pwm ! 2),
      lp58xx_start env led])"

definition led_pattern_idle_synced :: "env \<Rightarrow> lp58xx_config \<Rightarrow> (trace, int) state" where
  "led_pattern_idle_synced env led = with_start_pwm env led (\<lambda>start_pwm.
     [lp58xx_ae_configure env led LED_BLUE
        (AE2 (LED_AEU_FADE (start_pwm ! 0) 50) (LED_AEU_CONSTANT 50)),
      led_configure_fade_out env led LED_GREEN (start_pwm ! 1),
      led_configure_fade_out env led LED_RED (start_pwm ! 2),
      lp58xx_start env led])"

definition led_pattern_idle_not_synced :: "env \<Rightarrow> lp58xx_config \<Rightarrow> (trace, int) state" where
  "led_pattern_idle_not_synced env led = with_start_pwm env led (\<lambda>start_pwm.
     [lp58xx_ae_configure env led LED_BLUE
        (AE2 (LED_AEU_FADE (start_pwm ! 0) 100)
             (AEU [100, 50, 2, 50, 100] [360, 360, 360, 360] LP58XX_AEU_REPEAT_INFINITE)),
      led_configure_fade_out env led LED_GREEN (start_pwm ! 1),
      led_configure_fade_out env led LED_RED (start_pwm ! 2),
      lp58xx_start env led])"

definition led_pattern_idle :: "env \<Rightarrow> lp58xx_config \<Rightarrow> (trace, int) state" where
  "led_pattern_idle env led = with_start_pwm env led (\<lambda>start_pwm.
     [lp58xx_ae_configure env led LED_RED
        (AE2 (LED_AEU_FADE (start_pwm ! 2) 19) (LED_AEU_CONSTANT 19)),
      led_configure_fade_out env led LED_GREEN (start_pwm ! 1),
      lp58xx_ae_configure env led LED_BLUE
        (AE2 (LED_AEU_FADE (start_pwm ! 0) 14) (LED_AEU_CONSTANT 14)),
      lp58xx_start env led])"

definition led_pattern_record_waiting :: "env \<Rightarrow> lp58xx_config \<Rightarrow> (trace, int) state" where
  "led_pattern_record_waiting env led = with_start_pwm env led (\<lambda>start_pwm.
     [led_configure_fade_out env led LED_BLUE (start_pwm ! 0),
      lp58xx_ae_configure env led LED_GREEN
        (AE2 (AEU [start_pwm ! 1, 100, 100, 100, 100] [90, 0, 0, 0] 0)
             (AEU [100, 2, 100, 0, 0] [90, 90, 0, 0] LP58XX_AEU_REPEAT_INFINITE)),
      led_configure_fade_out env led LED_RED (start_pwm ! 2),
      lp58xx_start env led])"

definition led_pattern_record_running :: "env \<Rightarrow> lp58xx_config \<Rightarrow> (trace, int) state" where
  "led_pattern_record_running env led = with_start_pwm env led (\<lambda>start_pwm.
     [led_configure_fade_out env led LED_BLUE (start_pwm ! 0),
      led_configure_fade_out env led LED_GREEN (start_pwm ! 1),
      lp58xx_ae_configure env led LED_RED
        (AE1 (AEU [start_pwm ! 2, 150, 0, 0, 0] [180, 800, 0, 0] 0)),
      lp58xx_start env led])"

definition led_pattern_record_sync_pulse :: "env \<Rightarrow> lp58xx_config \<Rightarrow> (trace, int) state" where
  "led_pattern_record_sync_pulse env led = with_start_pwm env led (\<lambda>start_pwm.
     [led_configure_fade_out env led LED_BLUE (start_pwm ! 0),
      led_configure_fade_out env led LED_GREEN (start_pwm ! 1),
      lp58xx_ae_configure env led LED_RED
        (AE1 (AEU [start_pwm ! 2, 100, 0, 0, 0] [90, 90, 0, 0] 0)),
      lp58xx_start env led])"

section \<open>Choosing the pattern\<close>

fun led_patterns ::
  "led_node \<Rightarrow> env \<Rightarrow> lp58xx_config \<Rightarrow> led_pattern \<Rightarrow> (trace, int) state option" where
  \<comment> \<open>the table of pattern functions of the build; \<open>None\<close> where it has no such entry\<close>
  "led_patterns _ env led LED_PATTERN_OFF = Some (led_pattern_off env led)"
| "led_patterns NODE_AUDIO env led LED_PATTERN_STARTUP = Some (led_pattern_startup_audio env led)"
| "led_patterns NODE_CENTRAL env led LED_PATTERN_STARTUP = Some (led_pattern_startup_central env led)"
| "led_patterns _ env led LED_PATTERN_BATTERY_CHARGING = Some (led_pattern_battery_charging env led)"
| "led_patterns _ env led LED_PATTERN_BATTERY_FULL = Some (led_pattern_battery_full env led)"
| "led_patterns NODE_AUDIO env led LED_PATTERN_IDLE_SYNCED = Some (led_pattern_idle_synced env led)"
| "led_patterns NODE_AUDIO env led LED_PATTERN_IDLE_NOT_SYNCED =
     Some (led_pattern_idle_not_synced env led)"
| "led_patterns NODE_CENTRAL env led LED_PATTERN_IDLE = Some (led_pattern_idle env led)"
| "led_patterns _ env led LED_PATTERN_RECORD_WAITING = Some (led_pattern_record_waiting env led)"
| "led_patterns _ env led LED_PATTERN_RECORD_RUNNING = Some (led_pattern_record_running env led)"
| "led_patterns _ _ _ _ = None"

definition led_set_pattern ::
  "led_node \<Rightarrow> env \<Rightarrow> lp58xx_config \<Rightarrow> led_pattern \<Rightarrow> (led_system, int) state" where
  "led_set_pattern node env led pattern =
     do { data \<leftarrow> get_led;
          if pattern \<noteq> shown data then
            do { upd (\<lambda>d. d\<lparr>shown := pattern\<rparr>);
                 case led_patterns node env led pattern of
                   Some pattern_func \<Rightarrow> io pattern_func
                 | None \<Rightarrow> return (- 1) }
          else return 0 }"

definition led_wanted :: "led_node \<Rightarrow> led_data \<Rightarrow> led_pattern" where
  \<comment> \<open>the nested \<open>switch\<close> of \<open>led_update\<close>\<close>
  "led_wanted node data =
     (case power_state data of
        LED_POWER_ON \<Rightarrow>
          (case record_state data of
             LED_RECORD_WAITING \<Rightarrow> LED_PATTERN_RECORD_WAITING
           | LED_RECORD_RUNNING \<Rightarrow> LED_PATTERN_RECORD_RUNNING
           | LED_RECORD_IDLE \<Rightarrow>
               (case node of
                  NODE_AUDIO \<Rightarrow> if synced data then LED_PATTERN_IDLE_SYNCED
                                else LED_PATTERN_IDLE_NOT_SYNCED
                | NODE_CENTRAL \<Rightarrow> LED_PATTERN_IDLE))
      | LED_POWER_OFF \<Rightarrow>
          (case battery_state data of
             LED_BATTERY_CHARGING \<Rightarrow> LED_PATTERN_BATTERY_CHARGING
           | LED_BATTERY_FULL \<Rightarrow> LED_PATTERN_BATTERY_FULL
           | LED_BATTERY_DISCHARGING \<Rightarrow> LED_PATTERN_OFF
           | LED_BATTERY_ERROR \<Rightarrow> LED_PATTERN_OFF)
      | LED_POWER_UNKNOWN \<Rightarrow> LED_PATTERN_OFF)"

definition led_update :: "led_node \<Rightarrow> env \<Rightarrow> lp58xx_config \<Rightarrow> (led_system, int) state" where
  "led_update node env led =
     do { data \<leftarrow> get_led; led_set_pattern node env led (led_wanted node data) }"

section \<open>Operations\<close>

definition led_record_sync_work_handler ::
  "env \<Rightarrow> lp58xx_config \<Rightarrow> (led_system, int) state" where
  "led_record_sync_work_handler env led =
     do { data \<leftarrow> get_led;
          if record_state data = LED_RECORD_RUNNING
          then do { _ \<leftarrow> io (led_pattern_record_sync_pulse env led); return 0 }
          else return 0 }"

definition led_boot :: "led_node \<Rightarrow> env \<Rightarrow> lp58xx_config \<Rightarrow> (led_system, int) state" where
  "led_boot node env led =
     do { upd (\<lambda>d. d\<lparr>power_state := LED_POWER_ON\<rparr>);
          led_set_pattern node env led LED_PATTERN_STARTUP }"

definition led_battery_charging :: "led_node \<Rightarrow> env \<Rightarrow> lp58xx_config \<Rightarrow> (led_system, int) state" where
  "led_battery_charging node env led =
     do { upd (\<lambda>d. d\<lparr>battery_state := LED_BATTERY_CHARGING\<rparr>); led_update node env led }"

definition led_battery_full :: "led_node \<Rightarrow> env \<Rightarrow> lp58xx_config \<Rightarrow> (led_system, int) state" where
  "led_battery_full node env led =
     do { upd (\<lambda>d. d\<lparr>battery_state := LED_BATTERY_FULL\<rparr>); led_update node env led }"

definition led_battery_discharging :: "led_node \<Rightarrow> env \<Rightarrow> lp58xx_config \<Rightarrow> (led_system, int) state" where
  "led_battery_discharging node env led =
     do { upd (\<lambda>d. d\<lparr>battery_state := LED_BATTERY_DISCHARGING\<rparr>); led_update node env led }"

definition led_sync_started :: "led_node \<Rightarrow> env \<Rightarrow> lp58xx_config \<Rightarrow> (led_system, int) state" where
  "led_sync_started node env led = do { upd (\<lambda>d. d\<lparr>synced := True\<rparr>); led_update node env led }"

definition led_sync_terminated :: "led_node \<Rightarrow> env \<Rightarrow> lp58xx_config \<Rightarrow> (led_system, int) state" where
  "led_sync_terminated node env led = do { upd (\<lambda>d. d\<lparr>synced := False\<rparr>); led_update node env led }"

definition led_record_waiting :: "led_node \<Rightarrow> env \<Rightarrow> lp58xx_config \<Rightarrow> (led_system, int) state" where
  "led_record_waiting node env led =
     do { upd (\<lambda>d. d\<lparr>record_state := LED_RECORD_WAITING\<rparr>); led_update node env led }"

definition led_record_started :: "led_node \<Rightarrow> env \<Rightarrow> lp58xx_config \<Rightarrow> (led_system, int) state" where
  "led_record_started node env led =
     do { upd (\<lambda>d. d\<lparr>record_state := LED_RECORD_RUNNING\<rparr>); led_update node env led }"

definition led_record_sync :: "env \<Rightarrow> u32 \<Rightarrow> (led_system, int) state" where
  "led_record_sync env time =
     do { data \<leftarrow> get_led;
          if record_state data = LED_RECORD_RUNNING
          then let sync_delay = LED_RECORD_SYNC_INTERVAL - time mod LED_RECORD_SYNC_INTERVAL;
                   sync_delay_ms = (ucast sync_delay :: u64) * 1000 div ucast ZEUS_TIME_NOMINAL_FREQ in
               do { _ \<leftarrow> io (ext env (WorkSchedule sync_delay_ms)); return 0 }
          else return 0 }"

definition led_record_stopped :: "led_node \<Rightarrow> env \<Rightarrow> lp58xx_config \<Rightarrow> (led_system, int) state" where
  "led_record_stopped node env led =
     do { upd (\<lambda>d. d\<lparr>record_state := LED_RECORD_IDLE\<rparr>); led_update node env led }"

definition led_shutdown :: "led_node \<Rightarrow> env \<Rightarrow> lp58xx_config \<Rightarrow> (led_system, int) state" where
  "led_shutdown node env led =
     do { upd (\<lambda>d. d\<lparr>power_state := LED_POWER_OFF\<rparr>); led_update node env led }"

section \<open>The recorded pattern\<close>

inductive led_step :: "led_node \<Rightarrow> env \<Rightarrow> lp58xx_config \<Rightarrow> led_system \<Rightarrow> led_system \<Rightarrow> bool"
  for node env led where
  boot: "run_state (led_boot node env led) s = (r, s') \<Longrightarrow> led_step node env led s s'"
| charging: "run_state (led_battery_charging node env led) s = (r, s') \<Longrightarrow> led_step node env led s s'"
| full: "run_state (led_battery_full node env led) s = (r, s') \<Longrightarrow> led_step node env led s s'"
| discharging: "run_state (led_battery_discharging node env led) s = (r, s') \<Longrightarrow>
    led_step node env led s s'"
| sync_started: "node = NODE_AUDIO \<Longrightarrow> run_state (led_sync_started node env led) s = (r, s') \<Longrightarrow>
    led_step node env led s s'"
| sync_terminated: "node = NODE_AUDIO \<Longrightarrow>
    run_state (led_sync_terminated node env led) s = (r, s') \<Longrightarrow> led_step node env led s s'"
| record_waiting: "run_state (led_record_waiting node env led) s = (r, s') \<Longrightarrow> led_step node env led s s'"
| record_started: "run_state (led_record_started node env led) s = (r, s') \<Longrightarrow> led_step node env led s s'"
| record_sync: "run_state (led_record_sync env time) s = (r, s') \<Longrightarrow> led_step node env led s s'"
| sync_work: "run_state (led_record_sync_work_handler env led) s = (r, s') \<Longrightarrow>
    led_step node env led s s'"
| record_stopped: "run_state (led_record_stopped node env led) s = (r, s') \<Longrightarrow> led_step node env led s s'"
| shutdown: "run_state (led_shutdown node env led) s = (r, s') \<Longrightarrow> led_step node env led s s'"

inductive led_reachable :: "led_node \<Rightarrow> env \<Rightarrow> lp58xx_config \<Rightarrow> led_system \<Rightarrow> bool"
  for node env led where
  init: "led_data s = led_data_init \<Longrightarrow> led_reachable node env led s"
| step: "led_reachable node env led s \<Longrightarrow> led_step node env led s s' \<Longrightarrow> led_reachable node env led s'"

text \<open>When each pattern may be the recorded one.\<close>

fun pattern_justified :: "led_node \<Rightarrow> led_data \<Rightarrow> led_pattern \<Rightarrow> bool" where
  "pattern_justified node d LED_PATTERN_OFF =
     (power_state d = LED_POWER_UNKNOWN \<or> power_state d = LED_POWER_OFF \<and>
      (battery_state d = LED_BATTERY_DISCHARGING \<or> battery_state d = LED_BATTERY_ERROR))"
| "pattern_justified node d LED_PATTERN_STARTUP = (power_state d = LED_POWER_ON)"
| "pattern_justified node d LED_PATTERN_BATTERY_CHARGING =
     (power_state d = LED_POWER_OFF \<and> battery_state d = LED_BATTERY_CHARGING)"
| "pattern_justified node d LED_PATTERN_BATTERY_FULL =
     (power_state d = LED_POWER_OFF \<and> battery_state d = LED_BATTERY_FULL)"
| "pattern_justified node d LED_PATTERN_IDLE_SYNCED =
     (node = NODE_AUDIO \<and> power_state d = LED_POWER_ON \<and> record_state d = LED_RECORD_IDLE \<and> synced d)"
| "pattern_justified node d LED_PATTERN_IDLE_NOT_SYNCED =
     (node = NODE_AUDIO \<and> power_state d = LED_POWER_ON \<and> record_state d = LED_RECORD_IDLE \<and> \<not> synced d)"
| "pattern_justified node d LED_PATTERN_IDLE =
     (node = NODE_CENTRAL \<and> power_state d = LED_POWER_ON \<and> record_state d = LED_RECORD_IDLE)"
| "pattern_justified node d LED_PATTERN_RECORD_WAITING =
     (power_state d = LED_POWER_ON \<and> record_state d = LED_RECORD_WAITING)"
| "pattern_justified node d LED_PATTERN_RECORD_RUNNING =
     (power_state d = LED_POWER_ON \<and> record_state d = LED_RECORD_RUNNING)"

lemma set_pattern_result:
  assumes "run_state (led_set_pattern node env led p) s = (r, s')"
  shows "led_data s' = (led_data s)\<lparr>shown := p\<rparr>"
    and "shown (led_data s) = p \<Longrightarrow> s' = s \<and> r = 0"
  using assms by (auto simp: led_set_pattern_def split: if_splits option.splits prod.splits)

lemma pattern_justified_shown [simp]:
  "pattern_justified node (d\<lparr>shown := q\<rparr>) p = pattern_justified node d p"
  by (cases p) simp_all

lemma led_wanted_justified: "pattern_justified node d (led_wanted node d)"
  by (simp add: led_wanted_def split: led_power_state.split led_record_state.split
      led_battery_state.split led_node.split)

lemma led_wanted_shown [simp]: "led_wanted node (d\<lparr>shown := q\<rparr>) = led_wanted node d"
  by (simp add: led_wanted_def cong: led_power_state.case_cong)

lemma led_update_justified:
  "run_state (led_update node env led) s = (r, s') \<Longrightarrow>
   pattern_justified node (led_data s') (shown (led_data s'))"
  using led_wanted_justified [of node "led_data s"]
  by (auto simp: led_update_def dest: set_pattern_result(1))

lemma led_step_justified:
  assumes "led_step node env led s s'" "pattern_justified node (led_data s) (shown (led_data s))"
  shows "pattern_justified node (led_data s') (shown (led_data s'))"
  using assms(1)
proof (cases rule: led_step.cases)
  case (boot r)
  then show ?thesis
    by (auto simp: led_boot_def dest: set_pattern_result(1))
next
  case (record_sync time r)
  with assms(2) show ?thesis by (auto simp: led_record_sync_def Let_def split: if_splits)
next
  case (sync_work r)
  with assms(2) show ?thesis
    by (auto simp: led_record_sync_work_handler_def split: if_splits prod.splits)
qed (auto simp: led_battery_charging_def led_battery_full_def led_battery_discharging_def
    led_sync_started_def led_sync_terminated_def led_record_waiting_def led_record_started_def
    led_record_stopped_def led_shutdown_def dest: led_update_justified)

lemma led_reachable_justified:
  "led_reachable node env led s \<Longrightarrow> pattern_justified node (led_data s) (shown (led_data s))"
  by (induction rule: led_reachable.induct) (auto simp: led_data_init_def dest: led_step_justified)

section \<open>What the LED shows\<close>

definition loops :: "lp58xx_ae_config \<Rightarrow> bool" where
  \<comment> \<open>one of the units in use repeats for ever\<close>
  "loops c \<longleftrightarrow> (\<exists>i < unat (num_aeu c). aeu_repeat (aeu c ! i) = LP58XX_AEU_REPEAT_INFINITE)"

fun steady_channels :: "led_pattern \<Rightarrow> u8 set" where
  \<comment> \<open>the channels that stay lit, or keep blinking, in a pattern\<close>
  "steady_channels LED_PATTERN_BATTERY_CHARGING = {LED_GREEN}"
| "steady_channels LED_PATTERN_BATTERY_FULL = {LED_GREEN}"
| "steady_channels LED_PATTERN_IDLE_SYNCED = {LED_BLUE}"
| "steady_channels LED_PATTERN_IDLE_NOT_SYNCED = {LED_BLUE}"
| "steady_channels LED_PATTERN_IDLE = {LED_RED, LED_BLUE}"
| "steady_channels LED_PATTERN_RECORD_WAITING = {LED_GREEN}"
| "steady_channels _ = {}"

lemma loops_quantise: "ae_wf c \<Longrightarrow> loops (ae_quantise c) = loops c"
  using unat_w2_less [of "num_aeu c"] by (auto simp: loops_def ae_quantise_def aeu_quantise_def ae_wf_def)

lemma loops_AE [simp]:
  "loops (AE1 a) \<longleftrightarrow> aeu_repeat a = LP58XX_AEU_REPEAT_INFINITE"
  "loops (AE2 a b) \<longleftrightarrow> aeu_repeat a = LP58XX_AEU_REPEAT_INFINITE \<or>
     aeu_repeat b = LP58XX_AEU_REPEAT_INFINITE"
proof -
  have "unat (1 :: 2 word) = 1" "unat (2 :: 2 word) = 2" by simp_all
  then show "loops (AE1 a) \<longleftrightarrow> aeu_repeat a = LP58XX_AEU_REPEAT_INFINITE"
    "loops (AE2 a b) \<longleftrightarrow> aeu_repeat a = LP58XX_AEU_REPEAT_INFINITE \<or>
     aeu_repeat b = LP58XX_AEU_REPEAT_INFINITE"
    by (auto simp: loops_def AE1_def AE2_def less_2_cases_iff)
qed

lemma AE_wf [simp]:
  "ae_wf (AE1 a) = aeu_wf a" "num_aeu (AE1 a) = 1" "ae_wf (AE2 a b) = (aeu_wf a \<and> aeu_wf b)"
  "num_aeu (AE2 a b) = 2" "aeu_wf (LED_AEU_FADE x y)" "aeu_wf (LED_AEU_CONSTANT x)"
  "aeu_wf (AEU p t r) = (length p = 5 \<and> length t = 4)"
  by (auto simp: ae_wf_def aeu_wf_def AE1_def AE2_def LED_AEU_FADE_def LED_AEU_CONSTANT_def
      AEU_def aeu_zero_def)

lemma aeu_repeat_simps [simp]:
  "aeu_repeat (LED_AEU_FADE x y) = 0" "aeu_repeat (LED_AEU_CONSTANT x) = LP58XX_AEU_REPEAT_INFINITE"
  "aeu_repeat (AEU p t r) = r" "LP58XX_AEU_REPEAT_INFINITE \<noteq> 0" "0 \<noteq> LP58XX_AEU_REPEAT_INFINITE"
  by (simp_all add: LED_AEU_FADE_def LED_AEU_CONSTANT_def AEU_def LP58XX_AEU_REPEAT_INFINITE_def)

definition led_board :: "lp58xx_config \<Rightarrow> bool" where
  \<comment> \<open>the controller has the three channels of the LED\<close>
  "led_board led \<longleftrightarrow> lp_cfg_wf led \<and> 3 \<le> num_channels led"

lemma led_channels_valid:
  assumes "led_board led"
  shows "lp_valid led LED_BLUE" "lp_valid led LED_GREEN" "lp_valid led LED_RED"
  using assms by (auto simp: led_board_def lp_valid_def LED_BLUE_def LED_GREEN_def LED_RED_def
      word_le_nat_alt word_less_nat_alt)

lemma led_channels_distinct [simp]:
  "LED_BLUE \<noteq> LED_GREEN" "LED_BLUE \<noteq> LED_RED" "LED_GREEN \<noteq> LED_RED"
  "LED_GREEN \<noteq> LED_BLUE" "LED_RED \<noteq> LED_BLUE" "LED_RED \<noteq> LED_GREEN"
  by (simp_all add: LED_BLUE_def LED_GREEN_def LED_RED_def)

lemma with_start_pwm_loops:
  assumes run: "run_state (with_start_pwm env led (\<lambda>w. [lp58xx_ae_configure env led a (ca w),
        lp58xx_ae_configure env led b (cb w), lp58xx_ae_configure env led c (cc w),
        lp58xx_start env led])) tr = (r, tr')" and ok: "0 \<le> r"
    and valid: "lp_valid led a" "lp_valid led b" "lp_valid led c"
    and ne: "a \<noteq> b" "a \<noteq> c" "b \<noteq> c"
    and wf: "\<And>w. ae_wf (ca w) \<and> num_aeu (ca w) \<noteq> 0" "\<And>w. ae_wf (cb w) \<and> num_aeu (cb w) \<noteq> 0"
      "\<And>w. ae_wf (cc w) \<and> num_aeu (cc w) \<noteq> 0"
  shows "\<exists>w. loops (lp_look led f0 tr' a) = loops (ca w) \<and>
     loops (lp_look led f0 tr' b) = loops (cb w) \<and> loops (lp_look led f0 tr' c) = loops (cc w)"
proof -
  obtain w t where "run_state (seq_neg [lp58xx_ae_configure env led a (ca w),
      lp58xx_ae_configure env led b (cb w), lp58xx_ae_configure env led c (cc w),
      lp58xx_start env led]) t = (r, tr')"
    using run ok by (auto simp: with_start_pwm_def simp del: seq_neg.simps split: prod.splits if_splits)
  from lp.program_three [OF valid(1) _ _ valid(2) _ _ valid(3) _ _ ne this ok] wf
  have "lp_look led f0 tr' a = ae_quantise (ca w) \<and> lp_look led f0 tr' b = ae_quantise (cb w) \<and>
    lp_look led f0 tr' c = ae_quantise (cc w)" by blast
  then show ?thesis using wf by (intro exI [of _ w]) (simp add: loops_quantise)
qed

lemmas led_pattern_defs = led_pattern_off_def led_pattern_battery_charging_def
  led_pattern_battery_full_def led_pattern_idle_synced_def led_pattern_idle_not_synced_def
  led_pattern_idle_def led_pattern_record_waiting_def led_pattern_record_running_def
  led_configure_fade_out_def

lemma led_pattern_loops:
  assumes board: "led_board led" and p: "p \<noteq> LED_PATTERN_STARTUP"
    and m: "led_patterns node env led p = Some m" and run: "run_state m tr = (r, tr')" and ok: "0 \<le> r"
  shows "loops (lp_look led f0 tr' LED_BLUE) = (LED_BLUE \<in> steady_channels p) \<and>
    loops (lp_look led f0 tr' LED_GREEN) = (LED_GREEN \<in> steady_channels p) \<and>
    loops (lp_look led f0 tr' LED_RED) = (LED_RED \<in> steady_channels p)"
proof -
  note valid = led_channels_valid [OF board]
  have m': "m = (case p of LED_PATTERN_OFF \<Rightarrow> led_pattern_off env led
    | LED_PATTERN_BATTERY_CHARGING \<Rightarrow> led_pattern_battery_charging env led
    | LED_PATTERN_BATTERY_FULL \<Rightarrow> led_pattern_battery_full env led
    | LED_PATTERN_IDLE_SYNCED \<Rightarrow> led_pattern_idle_synced env led
    | LED_PATTERN_IDLE_NOT_SYNCED \<Rightarrow> led_pattern_idle_not_synced env led
    | LED_PATTERN_IDLE \<Rightarrow> led_pattern_idle env led
    | LED_PATTERN_RECORD_WAITING \<Rightarrow> led_pattern_record_waiting env led
    | _ \<Rightarrow> led_pattern_record_running env led)"
    using m p by (cases p; cases node) simp_all
  note bgr = with_start_pwm_loops [OF _ ok valid, of env _ _ _ tr tr' f0]
    and rgb = with_start_pwm_loops [OF _ ok valid(3,2,1), of env _ _ _ tr tr' f0]
  note run = run [unfolded m' led_pattern_defs]
  show ?thesis
  proof (cases p)
    case LED_PATTERN_IDLE
    from rgb [OF run [unfolded this led_pattern.case]] LED_PATTERN_IDLE show ?thesis by simp
  next
    case LED_PATTERN_STARTUP
    with p show ?thesis by simp
  qed (insert run, (simp only: led_pattern.case; drule bgr; auto)+)
qed

section \<open>The synchronisation pulse\<close>

lemma sync_delay_value:
  "unat (LED_RECORD_SYNC_INTERVAL - time mod LED_RECORD_SYNC_INTERVAL) = 2 ^ 27 - unat time mod 2 ^ 27"
proof -
  have "time mod (2 ^ 27 :: u32) \<le> 2 ^ 27" by (simp add: word_le_nat_alt unat_mod)
  then show ?thesis by (simp add: LED_RECORD_SYNC_INTERVAL_def unat_sub unat_mod)
qed

lemma sync_delay_ms:
  "unat ((ucast (d :: u32) :: u64) * 1000 div 16000000) = unat d div 16000"
proof -
  have "unat ((ucast d :: u64) * 1000) = unat d * 1000"
    using unat_u32_less [of d] by (simp add: unat_word_ariths unsigned_ucast_eq take_bit_nat_eq_self)
  then have "unat ((ucast d :: u64) * 1000 div 16000000) = unat d * 1000 div (16000 * 1000)"
    by (simp add: unat_div)
  also have "\<dots> = unat d div 16000" by (rule div_mult_mult2) simp
  finally show ?thesis .
qed

lemma next_multiple: "(n :: nat) + (2 ^ 27 - n mod 2 ^ 27) = (n div 2 ^ 27 + 1) * 2 ^ 27"
proof -
  have "n mod 2 ^ 27 < 2 ^ 27" "n = n div 2 ^ 27 * 2 ^ 27 + n mod 2 ^ 27" by simp_all
  then show ?thesis by (simp only: add_mult_distrib)
qed

section \<open>Properties\<close>

definition led_start :: led_system where
  "led_start = \<lparr>led_data = led_data_init, led_calls = []\<rparr>"

definition nak_env :: env where
  \<comment> \<open>a bus on which every transfer fails\<close>
  "nak_env tr c = quiet_reply\<lparr>r_ret := - 5\<rparr>"

lemma nak_env_simps [simp]: "r_ret (nak_env tr c) = - 5"
  by (simp add: nak_env_def)

lemma ae_configure_quiet:
  assumes "ch < 4" "ae_wf c" "num_aeu c \<noteq> 0"
  shows "succeeds (lp58xx_ae_configure quiet_env board_lp58xx ch c)"
proof -
  obtain bs where "lp58xx_ae_config_generate c = Inr bs" using ae_roundtrip [OF assms(2,3)] by blast
  with assms(1) show ?thesis
    by (simp add: succeeds_def lp58xx_ae_configure_def board_lp58xx_def lp58xx_burst_write_def
        lp58xx_write_channel_field_def lp58xx_update_config_def lp58xx_reg_write_def
        lp58xx_reg_read_def LP58XX_AE_SIZE_def Let_def leD)
qed

lemma with_start_pwm_quiet:
  assumes "list_all succeeds (ms (replicate 3 0))"
  shows "succeeds (with_start_pwm quiet_env board_lp58xx ms)"
  using succeeds_seq_neg [OF assms]
  by (simp add: succeeds_def with_start_pwm_def lp58xx_pause_def lp58xx_reg_write_def
      lp58xx_get_auto_pwm_def lp58xx_burst_read_def board_lp58xx_def map_replicate_const)

lemma led_board_example: "led_board board_lp58xx"
  using board_lp58xx_wf by (simp add: led_board_def board_lp58xx_def)

text \<open>
  Property C9. In every state the firmware can reach, by any interleaving of the operations of the
  LED, the recorded pattern is justified by the power, battery, recording and synchronisation
  states: a recording pattern only while recording, a battery pattern only when powered off.
\<close>

theorem led_pattern_always_justified:
  assumes "led_reachable node env led s"
  shows "pattern_justified node (led_data s) (shown (led_data s))"
  by (rule led_reachable_justified [OF assms])

theorem led_pattern_always_justified_witness:
  "\<exists>s. led_reachable NODE_AUDIO quiet_env board_lp58xx s \<and> record_state (led_data s) = LED_RECORD_RUNNING \<and>
     pattern_justified NODE_AUDIO (led_data s) (shown (led_data s))"
proof -
  have "led_reachable NODE_AUDIO quiet_env board_lp58xx led_start"
    by (rule led_reachable.init) (simp add: led_start_def)
  moreover obtain r s' where
    run: "run_state (led_record_started NODE_AUDIO quiet_env board_lp58xx) led_start = (r, s')"
    by fastforce
  ultimately have reach: "led_reachable NODE_AUDIO quiet_env board_lp58xx s'"
    by (blast intro: led_reachable.step led_step.record_started)
  have "record_state (led_data s') = LED_RECORD_RUNNING"
    using run by (auto simp: led_record_started_def led_update_def dest: set_pattern_result(1))
  with reach led_pattern_always_justified [OF reach] show ?thesis by blast
qed



text \<open>
  A defect: when the controller cannot be programmed, the new pattern is recorded all
  the same. Updating again returns success without any bus transfer, so the LED keeps showing the
  old pattern until the pattern changes.
\<close>

theorem led_failed_update_not_retried:
  assumes "run_state (led_update node env led) s = (ret, s')" "ret < 0"
  shows "run_state (led_update node env led) s' = (0, s')"
proof -
  have run: "run_state (led_set_pattern node env led (led_wanted node (led_data s))) s = (ret, s')"
    using assms(1) by (simp add: led_update_def)
  note d = set_pattern_result(1) [OF run]
  then show ?thesis by (simp add: led_update_def led_set_pattern_def)
qed

theorem led_failed_update_not_retried_witness:
  "\<exists>s'. run_state (led_battery_full NODE_AUDIO nak_env board_lp58xx)
          (led_start\<lparr>led_data := led_data_init\<lparr>power_state := LED_POWER_OFF\<rparr>\<rparr>) = (- 5, s') \<and>
     run_state (led_update NODE_AUDIO nak_env board_lp58xx) s' = (0, s')"
proof -
  let ?s = "led_start\<lparr>led_data := led_data_init\<lparr>power_state := LED_POWER_OFF,
    battery_state := LED_BATTERY_FULL\<rparr>\<rparr>"
  obtain s' where run: "run_state (led_update NODE_AUDIO nak_env board_lp58xx) ?s = (- 5, s')"
    by (simp add: led_update_def led_set_pattern_def led_wanted_def led_data_init_def
        led_pattern_battery_full_def with_start_pwm_def lp58xx_pause_def lp58xx_reg_write_def)
  with led_failed_update_not_retried [OF run] show ?thesis
    by (simp add: led_battery_full_def led_start_def)
qed


text \<open>
  Property C11. The delay of the next synchronisation pulse ends within a millisecond before the
  next multiple of the pulse interval on the synchronised clock, so that all nodes flash together;
  the computation does not overflow. Nothing is scheduled when the node does not record.
\<close>

theorem led_record_sync_aligned:
  assumes "run_state (led_record_sync env time) s = (ret, s')"
  shows "ret = 0 \<and> led_data s' = led_data s \<and>
    (record_state (led_data s) \<noteq> LED_RECORD_RUNNING \<longrightarrow> s' = s) \<and>
    (record_state (led_data s) = LED_RECORD_RUNNING \<longrightarrow>
      (\<exists>ms k. calls (led_calls s') = calls (led_calls s) @ [WorkSchedule ms] \<and>
         unat time < k * 2 ^ 27 \<and> k * 2 ^ 27 \<le> unat time + 2 ^ 27 \<and>
         unat time + 16000 * unat ms \<le> k * 2 ^ 27 \<and> k * 2 ^ 27 < unat time + 16000 * (unat ms + 1)))"
proof -
  let ?I = "2 ^ 27 :: nat"
  let ?d = "?I - unat time mod ?I" and ?w = "LED_RECORD_SYNC_INTERVAL - time mod LED_RECORD_SYNC_INTERVAL"
  let ?ms = "(ucast ?w :: u64) * 1000 div ucast ZEUS_TIME_NOMINAL_FREQ"
  have d: "unat ?w = ?d" by (rule sync_delay_value)
  have ms: "unat ?ms = ?d div 16000" using sync_delay_ms [of ?w] d by (simp add: ZEUS_TIME_NOMINAL_FREQ_def)
  define k where "k = unat time div ?I + 1"
  have k: "unat time + ?d = k * ?I" unfolding k_def by (rule next_multiple)
  have "0 < ?d" "?d \<le> ?I" by simp_all
  moreover have "16000 * (?d div 16000) \<le> ?d" "?d < 16000 * (?d div 16000 + 1)" by simp_all
  ultimately have "unat time < k * ?I \<and> k * ?I \<le> unat time + ?I \<and>
      unat time + 16000 * unat ?ms \<le> k * ?I \<and> k * ?I < unat time + 16000 * (unat ?ms + 1)"
    using k unfolding ms by linarith
  moreover have "ret = 0 \<and> led_data s' = led_data s \<and>
    (record_state (led_data s) \<noteq> LED_RECORD_RUNNING \<longrightarrow> s' = s) \<and>
    (record_state (led_data s) = LED_RECORD_RUNNING \<longrightarrow>
       calls (led_calls s') = calls (led_calls s) @ [WorkSchedule ?ms])"
    using assms by (auto simp: led_record_sync_def Let_def split: if_splits)
  ultimately show ?thesis by blast
qed

theorem led_record_sync_aligned_witness:
  "\<exists>s'. run_state (led_record_sync quiet_env 100000000)
          (led_start\<lparr>led_data := led_data_init\<lparr>record_state := LED_RECORD_RUNNING\<rparr>\<rparr>) = (0, s') \<and>
     (\<exists>ms. calls (led_calls s') = [WorkSchedule ms])"
proof -
  let ?s = "led_start\<lparr>led_data := led_data_init\<lparr>record_state := LED_RECORD_RUNNING\<rparr>\<rparr>"
  obtain ret s' where run: "run_state (led_record_sync quiet_env 100000000) ?s = (ret, s')" by fastforce
  from led_record_sync_aligned [OF run] have "ret = 0" "\<exists>ms. calls (led_calls s') = [WorkSchedule ms]"
    by (auto simp: led_start_def)
  with run show ?thesis by blast
qed

end
