(* ===== verification/Bq2515x_Mfd.thy ===== *)
theory Bq2515x_Mfd
  imports Zephyr
begin

text \<open>
  The driver of the BQ2515x battery-management chip that its charger, regulator and ADC drivers
  share: \<^verbatim>\<open>firmware/drivers/mfd/mfd_bq2515x.c\<close> and the register map of
  \<^verbatim>\<open>firmware/include/zeus/drivers/mfd/bq2515x.h\<close>.

  The state is \<open>struct mfd_bq2515x_data\<close> with the trace of calls; \<open>bus\<close> makes an external call. The
  list of callbacks belongs to Zephyr's GPIO code, so adding and running callbacks are external
  calls. A register access holds the mutex for its single bus transfer, so it is one step.
\<close>

section \<open>The register map\<close>

definition BQ2515X_STAT0_ADDR :: u8 where "BQ2515X_STAT0_ADDR = 0x00"
definition BQ2515X_STAT0_CHRG_CV_STAT :: u8 where "BQ2515X_STAT0_CHRG_CV_STAT = BIT 6"
definition BQ2515X_STAT0_CHARGE_DONE_STAT :: u8 where "BQ2515X_STAT0_CHARGE_DONE_STAT = BIT 5"
definition BQ2515X_STAT0_VIN_PGOOD_STAT :: u8 where "BQ2515X_STAT0_VIN_PGOOD_STAT = BIT 0"
definition BQ2515X_FLAG0_ADDR :: u8 where "BQ2515X_FLAG0_ADDR = 0x03"
definition BQ2515X_FLAG3_ADDR :: u8 where "BQ2515X_FLAG3_ADDR = 0x06"
definition BQ2515X_FLAG3_LDO_OCP_FAULT_FLAG :: u8 where "BQ2515X_FLAG3_LDO_OCP_FAULT_FLAG = BIT 4"
definition BQ2515X_MASK0_ADDR :: u8 where "BQ2515X_MASK0_ADDR = 0x07"
definition BQ2515X_ICHG_CTRL_ADDR :: u8 where "BQ2515X_ICHG_CTRL_ADDR = 0x13"
definition BQ2515X_PCHRGCTRL_ADDR :: u8 where "BQ2515X_PCHRGCTRL_ADDR = 0x14"
definition BQ2515X_PCHRGCTRL_ICHARGE_RANGE :: u8 where "BQ2515X_PCHRGCTRL_ICHARGE_RANGE = BIT 7"
definition BQ2515X_CHARGERCTRL0_ADDR :: u8 where "BQ2515X_CHARGERCTRL0_ADDR = 0x17"
definition BQ2515X_CHARGERCTRL0_WATCHDOG_DISABLE :: u8 where
  "BQ2515X_CHARGERCTRL0_WATCHDOG_DISABLE = BIT 4"
definition BQ2515X_ILIMCTRL_ADDR :: u8 where "BQ2515X_ILIMCTRL_ADDR = 0x19"
definition BQ2515X_ILIMCTRL_ILIM :: u8 where "BQ2515X_ILIMCTRL_ILIM = GENMASK 2 0"
definition BQ2515X_LDOCTRL_ADDR :: u8 where "BQ2515X_LDOCTRL_ADDR = 0x1d"
definition BQ2515X_LDOCTRL_EN_LS_LDO :: u8 where "BQ2515X_LDOCTRL_EN_LS_LDO = BIT 7"
definition BQ2515X_LDOCTRL_VLDO :: u8 where "BQ2515X_LDOCTRL_VLDO = GENMASK 6 2"
definition BQ2515X_LDOCTRL_LDO_SWITCH_CONFIG :: u8 where "BQ2515X_LDOCTRL_LDO_SWITCH_CONFIG = BIT 1"
definition BQ2515X_ICCTRL0_ADDR :: u8 where "BQ2515X_ICCTRL0_ADDR = 0x35"
definition BQ2515X_ICCTRL0_EN_SHIP_MODE :: u8 where "BQ2515X_ICCTRL0_EN_SHIP_MODE = BIT 7"
definition BQ2515X_ICCTRL0_SW_RESET :: u8 where "BQ2515X_ICCTRL0_SW_RESET = BIT 0"
definition BQ2515X_ICCTRL1_ADDR :: u8 where "BQ2515X_ICCTRL1_ADDR = 0x36"
definition BQ2515X_ICCTRL1_PG_MODE :: u8 where "BQ2515X_ICCTRL1_PG_MODE = GENMASK 3 2"
definition BQ2515X_ICCTRL2_ADDR :: u8 where "BQ2515X_ICCTRL2_ADDR = 0x37"
definition BQ2515X_ICCTRL2_CHARGER_DISABLE :: u8 where "BQ2515X_ICCTRL2_CHARGER_DISABLE = BIT 0"
definition BQ2515X_ADCCTRL0_ADDR :: u8 where "BQ2515X_ADCCTRL0_ADDR = 0x40"
definition BQ2515X_ADCCTRL0_ADC_READ_RATE :: u8 where "BQ2515X_ADCCTRL0_ADC_READ_RATE = GENMASK 7 6"
definition BQ2515X_ADCCTRL0_ADC_READ_RATE_MANUAL :: u8 where
  "BQ2515X_ADCCTRL0_ADC_READ_RATE_MANUAL = 0"
definition BQ2515X_ADCCTRL0_ADC_CONV_START :: u8 where "BQ2515X_ADCCTRL0_ADC_CONV_START = BIT 5"
definition BQ2515X_ADCCTRL0_ADC_CONV_SPEED :: u8 where "BQ2515X_ADCCTRL0_ADC_CONV_SPEED = GENMASK 4 3"
definition BQ2515X_ADC_DATA_VBAT_M_ADDR :: u8 where "BQ2515X_ADC_DATA_VBAT_M_ADDR = 0x42"
definition BQ2515X_ADC_READ_EN_ADDR :: u8 where "BQ2515X_ADC_READ_EN_ADDR = 0x58"
definition BQ2515X_DEVICE_ID_ADDR :: u8 where "BQ2515X_DEVICE_ID_ADDR = 0x6f"
definition BQ25150_DEVICE_ID :: u8 where "BQ25150_DEVICE_ID = 0x20"
definition BQ25155_DEVICE_ID :: u8 where "BQ25155_DEVICE_ID = 0x35"
definition BQ25157_DEVICE_ID :: u8 where "BQ25157_DEVICE_ID = 0x3c"

definition BQ2515X_EVENT_INDEX :: "nat \<Rightarrow> nat \<Rightarrow> nat" where
  "BQ2515X_EVENT_INDEX offset bt = offset * 8 + bt"

definition BQ2515X_EVENT_IINLIM_ACTIVE :: nat where
  "BQ2515X_EVENT_IINLIM_ACTIVE = BQ2515X_EVENT_INDEX 0 4"
definition BQ2515X_EVENT_VDPPM_ACTIVE :: nat where
  "BQ2515X_EVENT_VDPPM_ACTIVE = BQ2515X_EVENT_INDEX 0 3"
definition BQ2515X_EVENT_VINDPM_ACTIVE :: nat where
  "BQ2515X_EVENT_VINDPM_ACTIVE = BQ2515X_EVENT_INDEX 0 2"
definition BQ2515X_EVENT_ADC_READY :: nat where
  "BQ2515X_EVENT_ADC_READY = BQ2515X_EVENT_INDEX 2 7"

lemmas bq2515x_addrs = BQ2515X_STAT0_ADDR_def BQ2515X_FLAG0_ADDR_def BQ2515X_FLAG3_ADDR_def
  BQ2515X_MASK0_ADDR_def BQ2515X_ICHG_CTRL_ADDR_def BQ2515X_PCHRGCTRL_ADDR_def
  BQ2515X_CHARGERCTRL0_ADDR_def BQ2515X_ILIMCTRL_ADDR_def BQ2515X_LDOCTRL_ADDR_def
  BQ2515X_ICCTRL0_ADDR_def BQ2515X_ICCTRL1_ADDR_def BQ2515X_ICCTRL2_ADDR_def
  BQ2515X_ADCCTRL0_ADDR_def BQ2515X_ADC_DATA_VBAT_M_ADDR_def BQ2515X_ADC_READ_EN_ADDR_def
  BQ2515X_DEVICE_ID_ADDR_def

section \<open>State\<close>

record mfd_bq2515x_config =
  bq_addr :: u8
  has_lp_gpio :: bool
  has_int_gpio :: bool
  pg_mode :: u8

record mfd_bq2515x_data =
  int_mask :: u32
  pending_flags :: u32
  bq_calls :: trace

definition mfd_data_init :: mfd_bq2515x_data where
  "mfd_data_init = \<lparr>int_mask = 0xffffffff, pending_flags = 0, bq_calls = []\<rparr>"

type_synonym 'a mfd = "(mfd_bq2515x_data, 'a) state"

definition bus :: "(trace, 'a) state \<Rightarrow> 'a mfd" where
  "bus = zoom bq_calls (\<lambda>t s. s\<lparr>bq_calls := t\<rparr>)"

definition mfd_get :: "mfd_bq2515x_data mfd" where
  "mfd_get = State (\<lambda>s. (s, s))"

definition mfd_upd :: "(mfd_bq2515x_data \<Rightarrow> mfd_bq2515x_data) \<Rightarrow> unit mfd" where
  "mfd_upd f = State (\<lambda>s. ((), f s))"

lemma run_bus [simp]:
  "run_state (bus m) s = (case run_state m (bq_calls s) of (a, t) \<Rightarrow> (a, s\<lparr>bq_calls := t\<rparr>))"
  by (simp add: bus_def)

lemma run_mfd_get [simp]: "run_state mfd_get s = (s, s)"
  by (simp add: mfd_get_def)

lemma run_mfd_upd [simp]: "run_state (mfd_upd f) s = ((), f s)"
  by (simp add: mfd_upd_def)

section \<open>Register access\<close>

definition mfd_bq2515x_reg_read_burst ::
  "env \<Rightarrow> mfd_bq2515x_config \<Rightarrow> u8 \<Rightarrow> nat \<Rightarrow> (int \<times> u8 list) mfd" where
  "mfd_bq2515x_reg_read_burst env cfg reg_addr len =
     do { r \<leftarrow> bus (ext env (I2cWriteRead (bq_addr cfg) [reg_addr] len));
          return (r_ret r, map (r_byte r) [0..<len]) }"

definition mfd_bq2515x_reg_read :: "env \<Rightarrow> mfd_bq2515x_config \<Rightarrow> u8 \<Rightarrow> (int \<times> u8) mfd" where
  "mfd_bq2515x_reg_read env cfg reg_addr =
     do { (ret, bs) \<leftarrow> mfd_bq2515x_reg_read_burst env cfg reg_addr 1; return (ret, bs ! 0) }"

definition mfd_bq2515x_reg_write :: "env \<Rightarrow> mfd_bq2515x_config \<Rightarrow> u8 \<Rightarrow> u8 \<Rightarrow> int mfd" where
  "mfd_bq2515x_reg_write env cfg reg_addr value =
     bus (ext_ret env (I2cRegWrite (bq_addr cfg) reg_addr value))"

definition mfd_bq2515x_reg_write2 :: "env \<Rightarrow> mfd_bq2515x_config \<Rightarrow> u8 \<Rightarrow> u8 \<Rightarrow> u8 \<Rightarrow> int mfd" where
  "mfd_bq2515x_reg_write2 env cfg reg_addr value1 value2 =
     bus (ext_ret env (I2cWrite (bq_addr cfg) [reg_addr, value1, value2]))"

definition mfd_bq2515x_reg_update :: "env \<Rightarrow> mfd_bq2515x_config \<Rightarrow> u8 \<Rightarrow> u8 \<Rightarrow> u8 \<Rightarrow> int mfd" where
  "mfd_bq2515x_reg_update env cfg reg_addr msk value =
     bus (ext_ret env (I2cRegUpdate (bq_addr cfg) reg_addr msk value))"

definition mfd_bq2515x_software_reset :: "env \<Rightarrow> mfd_bq2515x_config \<Rightarrow> int mfd" where
  "mfd_bq2515x_software_reset env cfg =
     mfd_bq2515x_reg_update env cfg BQ2515X_ICCTRL0_ADDR BQ2515X_ICCTRL0_SW_RESET
       BQ2515X_ICCTRL0_SW_RESET"

section \<open>Interrupts\<close>

definition mfd_bq2515x_write_int_mask :: "env \<Rightarrow> mfd_bq2515x_config \<Rightarrow> int mfd" where
  "mfd_bq2515x_write_int_mask env cfg =
     do { data \<leftarrow> mfd_get;
          bus (ext_ret env (I2cWrite (bq_addr cfg) (BQ2515X_MASK0_ADDR # put_le32 (int_mask data)))) }"

definition bq2515x_int_handler :: "env \<Rightarrow> unit mfd" where
  "bq2515x_int_handler env = do { _ \<leftarrow> bus (ext env (WorkSubmit ''int_work'')); return () }"

definition bq2515x_int_work_handler :: "env \<Rightarrow> mfd_bq2515x_config \<Rightarrow> unit mfd" where
  "bq2515x_int_work_handler env cfg =
     do { (ret, bs) \<leftarrow> mfd_bq2515x_reg_read_burst env cfg BQ2515X_FLAG0_ADDR 4;
          if ret \<noteq> 0 then do { _ \<leftarrow> bus (ext env (WorkSubmit ''int_work'')); return () }
          else do {
            data \<leftarrow> mfd_get;
            let flags = get_le32 bs OR pending_flags data;
            mfd_upd (\<lambda>d. d\<lparr>pending_flags := flags AND int_mask d\<rparr>);
            let fire = flags AND NOT (int_mask data);
            if fire \<noteq> 0 then do { _ \<leftarrow> bus (ext env (FireCallbacks fire)); return () }
            else return () } }"

definition mfd_bq2515x_add_callback :: "env \<Rightarrow> mfd_bq2515x_config \<Rightarrow> u32 \<Rightarrow> int mfd" where
  \<comment> \<open>\<open>pin_mask\<close> stands for the callback\<close>
  "mfd_bq2515x_add_callback env cfg pin_mask =
     do { mfd_upd (\<lambda>d. d\<lparr>int_mask := int_mask d AND NOT pin_mask\<rparr>);
          ret \<leftarrow> mfd_bq2515x_write_int_mask env cfg;
          if ret \<noteq> 0 then return ret
          else do {
            _ \<leftarrow> bus (ext env (WorkSubmit ''int_work''));
            bus (ext_ret env (ManageCallback pin_mask True)) } }"

definition mfd_bq2515x_remove_callback :: "env \<Rightarrow> mfd_bq2515x_config \<Rightarrow> u32 \<Rightarrow> int mfd" where
  "mfd_bq2515x_remove_callback env cfg pin_mask =
     do { ret \<leftarrow> bus (ext_ret env (ManageCallback pin_mask False));
          if ret \<noteq> 0 then return ret
          else do {
            mfd_upd (\<lambda>d. d\<lparr>int_mask := int_mask d OR pin_mask\<rparr>);
            mfd_bq2515x_write_int_mask env cfg } }"

section \<open>Initialisation\<close>

definition check_ready :: "env \<Rightarrow> ext_call \<Rightarrow> int mfd" where
  \<comment> \<open>\<open>if (!..._is_ready(...)) return -ENODEV;\<close>\<close>
  "check_ready env c = do { ready \<leftarrow> bus (ext_ret env c);
                            return (if ready = 0 then - ENODEV else 0) }"

definition check_device_id :: "env \<Rightarrow> mfd_bq2515x_config \<Rightarrow> int mfd" where
  "check_device_id env cfg =
     do { (ret, val) \<leftarrow> mfd_bq2515x_reg_read env cfg BQ2515X_DEVICE_ID_ADDR;
          if ret \<noteq> 0 then return ret
          else if val = BQ25150_DEVICE_ID \<or> val = BQ25155_DEVICE_ID \<or> val = BQ25157_DEVICE_ID
          then return 0 else return (- ENODEV) }"

definition mfd_bq2515x_init :: "env \<Rightarrow> mfd_bq2515x_config \<Rightarrow> int mfd" where
  "mfd_bq2515x_init env cfg = seq_nz
     ([check_ready env (I2cReady (bq_addr cfg))] @
      (if has_lp_gpio cfg then
         [check_ready env (GpioReady ''lp''),
          bus (ext_ret env (GpioConfigure ''lp'' ''OUTPUT_INACTIVE'')),
          do { _ \<leftarrow> bus (ext env (MSleep 1)); return 0 }]
       else []) @
      [check_device_id env cfg,
       mfd_bq2515x_software_reset env cfg,
       mfd_bq2515x_write_int_mask env cfg] @
      (if has_int_gpio cfg then
         [check_ready env (GpioReady ''int''),
          bus (ext_ret env (GpioConfigure ''int'' ''INPUT'')),
          bus (ext_ret env (GpioAddCallback ''int'')),
          bus (ext_ret env (GpioInterrupt ''int''))]
       else []) @
      [mfd_bq2515x_reg_write env cfg BQ2515X_ICCTRL1_ADDR
         (FIELD_PREP BQ2515X_ICCTRL1_PG_MODE (pg_mode cfg))])"

section \<open>The registers of the chip\<close>

definition bq_map :: "u8 \<Rightarrow> u8 \<Rightarrow> u8 \<Rightarrow> nat option" where
  "bq_map base a r = (if a = base then Some (unat r) else None)"

definition bq_regs :: "mfd_bq2515x_config \<Rightarrow> (nat \<Rightarrow> u8) \<Rightarrow> mfd_bq2515x_data \<Rightarrow> nat \<Rightarrow> u8" where
  "bq_regs cfg f0 s = chip_regs (bq_map (bq_addr cfg)) f0 (bq_calls s)"

text \<open>
  What reading needs of the chip and the bus: a successful read of a stable register (one that only
  the bus changes) returns what the transfers have left in it, and the input/output functions return
  zero or a negative error.
\<close>

definition bq_stable :: "nat set" where
  "bq_stable = {0x13, 0x14, 0x17, 0x19, 0x1d, 0x37, 0x40}"

definition bq_honest :: "env \<Rightarrow> mfd_bq2515x_config \<Rightarrow> (nat \<Rightarrow> u8) \<Rightarrow> bool" where
  "bq_honest env cfg f0 \<longleftrightarrow>
     (\<forall>tr c. r_ret (env tr c) \<le> 0) \<and>
     (\<forall>tr a n i. 0 \<le> r_ret (env tr (I2cWriteRead (bq_addr cfg) [a] n)) \<longrightarrow> i < n \<longrightarrow>
        unat a + i \<in> bq_stable \<longrightarrow>
        r_byte (env tr (I2cWriteRead (bq_addr cfg) [a] n)) i =
          chip_regs (bq_map (bq_addr cfg)) f0 tr (unat a + i))"

text \<open>An honest environment, for concrete inputs: every transfer succeeds.\<close>

definition bq_env :: "mfd_bq2515x_config \<Rightarrow> (nat \<Rightarrow> u8) \<Rightarrow> env" where
  "bq_env cfg f0 tr c =
     (case c of
        I2cWriteRead a [r] n \<Rightarrow>
          \<lparr>r_ret = 0, r_byte = (\<lambda>i. chip_regs (bq_map (bq_addr cfg)) f0 tr (unat r + i)), r_num = 0, r_text = [], r_size = 0\<rparr>
      | _ \<Rightarrow> quiet_reply)"

lemma bq_env_honest: "bq_honest (bq_env cfg f0) cfg f0"
  by (auto simp: bq_honest_def bq_env_def quiet_reply_def split: ext_call.split list.split)

lemma bq_env_ret [simp]: "r_ret (bq_env cfg f0 tr c) = 0"
  by (auto simp: bq_env_def quiet_reply_def split: ext_call.split list.split)

text \<open>The interface the other drivers of the chip use.\<close>

locale register_port =
  fixes rd :: "u8 \<Rightarrow> nat \<Rightarrow> ('s, int \<times> u8 list) state"
    and wr :: "u8 \<Rightarrow> u8 \<Rightarrow> ('s, int) state" and wr2 :: "u8 \<Rightarrow> u8 \<Rightarrow> u8 \<Rightarrow> ('s, int) state"
    and up :: "u8 \<Rightarrow> u8 \<Rightarrow> u8 \<Rightarrow> ('s, int) state"
    and regs :: "'s \<Rightarrow> nat \<Rightarrow> u8" and ok :: "'s \<Rightarrow> bool" and stable :: "nat set"
  assumes rd_law: "ok s \<Longrightarrow> run_state (rd a n) s = ((r, bs), s') \<Longrightarrow>
      ok s' \<and> r \<le> 0 \<and> regs s' = regs s \<and> length bs = n \<and>
      (r = 0 \<longrightarrow> (\<forall>i < n. unat a + i \<in> stable \<longrightarrow> bs ! i = regs s (unat a + i)))"
    and wr_law: "ok s \<Longrightarrow> run_state (wr a v) s = (r, s') \<Longrightarrow>
      ok s' \<and> r \<le> 0 \<and> regs s' = (if r = 0 then (regs s)(unat a := v) else regs s)"
    and wr2_law: "ok s \<Longrightarrow> run_state (wr2 a v w) s = (r, s') \<Longrightarrow>
      ok s' \<and> r \<le> 0 \<and>
      regs s' = (if r = 0 then (regs s)(unat a := v, unat a + 1 := w) else regs s)"
    and up_law: "ok s \<Longrightarrow> run_state (up a m v) s = (r, s') \<Longrightarrow>
      ok s' \<and> r \<le> 0 \<and>
      regs s' = (if r = 0 then (regs s)(unat a := set_bits m v (regs s (unat a))) else regs s)"
begin

lemma update_then_read:
  assumes "ok s" "unat a \<in> stable" "run_state (up a m v) s = (0, t)" "run_state (rd a 1) t = ((0, bs), u)"
  shows "bs ! 0 = set_bits m v (regs s (unat a))"
  using up_law [OF assms(1,3)] rd_law [OF _ assms(4)] assms(2) by auto

lemma update_frame:
  "ok s \<Longrightarrow> run_state (up a m v) s = (r, t) \<Longrightarrow> k \<noteq> unat a \<Longrightarrow> regs t k = regs s k"
  using up_law [of s a m v r t] by auto

lemma write_then_read:
  assumes "ok s" "unat a \<in> stable" "run_state (wr a v) s = (0, t)" "run_state (rd a 1) t = ((0, bs), u)"
  shows "bs ! 0 = v"
  using wr_law [OF assms(1,3)] rd_law [OF _ assms(4)] assms(2) by auto

lemma write2_then_read:
  assumes "ok s" "unat a \<in> stable" "unat a + 1 \<in> stable" "run_state (wr2 a v w) s = (0, t)"
    and "run_state (rd a 2) t = ((0, bs), u)"
  shows "bs = [v, w]"
proof -
  have "length bs = 2" "bs ! 0 = v" "bs ! 1 = w"
    using wr2_law [OF assms(1,4)] rd_law [OF _ assms(5)] assms(2,3) by auto
  then show ?thesis by (auto simp: length_Suc_conv numeral_2_eq_2)
qed

end

definition bq_ok :: "env \<Rightarrow> mfd_bq2515x_config \<Rightarrow> (nat \<Rightarrow> u8) \<Rightarrow> mfd_bq2515x_data \<Rightarrow> bool" where
  "bq_ok env cfg f0 s \<longleftrightarrow> bq_honest env cfg f0"

lemma bq_ret_le: "bq_honest env cfg f0 \<Longrightarrow> r_ret (env tr c) \<le> 0"
  by (simp add: bq_honest_def)

interpretation bq: register_port "mfd_bq2515x_reg_read_burst env cfg" "mfd_bq2515x_reg_write env cfg"
  "mfd_bq2515x_reg_write2 env cfg" "mfd_bq2515x_reg_update env cfg" "bq_regs cfg f0"
  "bq_ok env cfg f0" bq_stable for env cfg f0
proof (unfold_locales, goal_cases)
  case (1 s a n r bs s')
  then show ?case
    by (auto simp: mfd_bq2515x_reg_read_burst_def bq_ok_def bq_honest_def bq_regs_def chip_step_def)
next
  case (2 s a v r s')
  with bq_ret_le have "r \<le> 0" by (auto simp: mfd_bq2515x_reg_write_def bq_ok_def)
  with 2 show ?case
    by (auto simp: mfd_bq2515x_reg_write_def bq_ok_def bq_regs_def chip_step_def bq_map_def)
next
  case (3 s a v w r s')
  with bq_ret_le have "r \<le> 0" by (auto simp: mfd_bq2515x_reg_write2_def bq_ok_def)
  with 3 show ?case
    by (auto simp: mfd_bq2515x_reg_write2_def bq_ok_def bq_regs_def chip_step_def bq_map_def
        fun_eq_iff less_Suc_eq)
next
  case (4 s a m v r s')
  with bq_ret_le have "r \<le> 0" by (auto simp: mfd_bq2515x_reg_update_def bq_ok_def)
  with 4 show ?case
    by (auto simp: mfd_bq2515x_reg_update_def bq_ok_def bq_regs_def chip_step_def bq_map_def)
qed

lemma reg_read_law:
  assumes "bq_honest env cfg f0" "run_state (mfd_bq2515x_reg_read env cfg a) s = ((r, v), s')"
  shows "r \<le> 0" "bq_regs cfg f0 s' = bq_regs cfg f0 s"
    and "r = 0 \<Longrightarrow> unat a \<in> bq_stable \<Longrightarrow> v = bq_regs cfg f0 s (unat a)"
proof -
  obtain bs where rd: "run_state (mfd_bq2515x_reg_read_burst env cfg a 1) s = ((r, bs), s')"
    and v: "v = bs ! 0"
    using assms(2) by (auto simp: mfd_bq2515x_reg_read_def split: prod.splits)
  have "bq_ok env cfg f0 s" using assms(1) by (simp add: bq_ok_def)
  from bq.rd_law [OF this rd] v show "r \<le> 0" "bq_regs cfg f0 s' = bq_regs cfg f0 s"
    and "r = 0 \<Longrightarrow> unat a \<in> bq_stable \<Longrightarrow> v = bq_regs cfg f0 s (unat a)" by auto
qed

section \<open>No event is lost\<close>

definition flags_read :: "u8 \<Rightarrow> ext_call \<times> reply \<Rightarrow> u32" where
  \<comment> \<open>the events that a successful read of the four flag registers reports (and clears)\<close>
  "flags_read base ev =
     (case fst ev of
        I2cWriteRead a w n \<Rightarrow>
          if a = base \<and> w = [BQ2515X_FLAG0_ADDR] \<and> n = 4 \<and> r_ret (snd ev) = 0
          then get_le32 (map (r_byte (snd ev)) [0..<4]) else 0
      | _ \<Rightarrow> 0)"

definition fired :: "ext_call \<times> reply \<Rightarrow> u32" where
  "fired ev = (case fst ev of FireCallbacks f \<Rightarrow> f | _ \<Rightarrow> 0)"

fun collect :: "(ext_call \<times> reply \<Rightarrow> u32) \<Rightarrow> trace \<Rightarrow> u32" where
  "collect f [] = 0"
| "collect f (ev # tr) = f ev OR collect f tr"

lemma collect_append [simp]: "collect f (tr @ tr') = collect f tr OR collect f tr'"
  by (induction tr) (simp_all add: or.assoc)

text \<open>The steps of the driver and of its users; only the driver reads all four flag registers.\<close>

inductive mfd_step :: "env \<Rightarrow> mfd_bq2515x_config \<Rightarrow> mfd_bq2515x_data \<Rightarrow> mfd_bq2515x_data \<Rightarrow> bool"
  for env cfg where
  int_handler: "run_state (bq2515x_int_handler env) s = (x, s') \<Longrightarrow> mfd_step env cfg s s'"
| int_work: "run_state (bq2515x_int_work_handler env cfg) s = (x, s') \<Longrightarrow> mfd_step env cfg s s'"
| add_callback: "run_state (mfd_bq2515x_add_callback env cfg m) s = (r, s') \<Longrightarrow> mfd_step env cfg s s'"
| remove_callback: "run_state (mfd_bq2515x_remove_callback env cfg m) s = (r, s') \<Longrightarrow>
    mfd_step env cfg s s'"
| read_burst: "a \<noteq> BQ2515X_FLAG0_ADDR \<Longrightarrow>
    run_state (mfd_bq2515x_reg_read_burst env cfg a n) s = (rb, s') \<Longrightarrow> mfd_step env cfg s s'"
| reg_write: "run_state (mfd_bq2515x_reg_write env cfg a v) s = (r, s') \<Longrightarrow> mfd_step env cfg s s'"
| reg_write2: "run_state (mfd_bq2515x_reg_write2 env cfg a v w) s = (r, s') \<Longrightarrow> mfd_step env cfg s s'"
| reg_update: "run_state (mfd_bq2515x_reg_update env cfg a m v) s = (r, s') \<Longrightarrow> mfd_step env cfg s s'"

inductive mfd_reachable :: "env \<Rightarrow> mfd_bq2515x_config \<Rightarrow> mfd_bq2515x_data \<Rightarrow> bool"
  for env cfg where
  init: "mfd_reachable env cfg mfd_data_init"
| step: "mfd_reachable env cfg s \<Longrightarrow> mfd_step env cfg s s' \<Longrightarrow> mfd_reachable env cfg s'"

definition events_kept :: "mfd_bq2515x_config \<Rightarrow> mfd_bq2515x_data \<Rightarrow> bool" where
  "events_kept cfg s \<longleftrightarrow>
     collect (flags_read (bq_addr cfg)) (bq_calls s) = collect fired (bq_calls s) OR pending_flags s"

lemma split_masked: "(d :: u32) OR x = (d OR (x AND NOT m)) OR (x AND m)"
  by (rule bit_word_eqI) (auto simp: bit_simps)

lemma int_work_step:
  assumes "run_state (bq2515x_int_work_handler env cfg) s = (x, s')" "events_kept cfg s"
  shows "events_kept cfg s'" and "int_mask s' = int_mask s"
    and "\<exists>fs. bq_calls s' = bq_calls s @ fs \<and> (\<forall>ev \<in> set fs. fired ev AND int_mask s = 0)"
    and "r_ret (env (bq_calls s) (I2cWriteRead (bq_addr cfg) [BQ2515X_FLAG0_ADDR] 4)) = 0 \<Longrightarrow>
      pending_flags s' AND NOT (int_mask s') = 0"
proof -
  let ?c = "I2cWriteRead (bq_addr cfg) [BQ2515X_FLAG0_ADDR] 4"
  let ?r = "env (bq_calls s) ?c"
  let ?flags = "get_le32 (map (r_byte ?r) [0..<4]) OR pending_flags s"
  have kept: "collect (flags_read (bq_addr cfg)) (bq_calls s) = collect fired (bq_calls s) OR pending_flags s"
    using assms(2) by (simp add: events_kept_def)
  have masked: "(x AND NOT m) AND m = 0" "(x AND m) AND NOT m = 0" for x m :: u32
    by (rule bit_word_eqI; auto simp: bit_simps)+
  show "int_mask s' = int_mask s"
    using assms(1) by (auto simp: bq2515x_int_work_handler_def mfd_bq2515x_reg_read_burst_def Let_def
        split: if_splits)
  show "\<exists>fs. bq_calls s' = bq_calls s @ fs \<and> (\<forall>ev \<in> set fs. fired ev AND int_mask s = 0)"
    using assms(1) masked(1) by (auto simp: bq2515x_int_work_handler_def mfd_bq2515x_reg_read_burst_def
        Let_def fired_def split: if_splits)
  show "r_ret ?r = 0 \<Longrightarrow> pending_flags s' AND NOT (int_mask s') = 0"
    using assms(1) masked(2) by (auto simp: bq2515x_int_work_handler_def
        mfd_bq2515x_reg_read_burst_def Let_def split: if_splits)
  show "events_kept cfg s'"
  proof (cases "r_ret ?r = 0")
    case False
    with assms show ?thesis
      by (auto simp: bq2515x_int_work_handler_def mfd_bq2515x_reg_read_burst_def events_kept_def
          flags_read_def fired_def)
  next
    case True
    let ?fl = "get_le32 (map (r_byte ?r) [0..<4])" and ?m = "int_mask s"
    have col: "collect (flags_read (bq_addr cfg)) (bq_calls s) OR ?fl =
        (collect fired (bq_calls s) OR (?flags AND NOT ?m)) OR (?flags AND ?m)"
      unfolding kept split_masked [symmetric] by (simp add: ac_simps)
    from True assms(1) col show ?thesis
      by (auto simp: bq2515x_int_work_handler_def mfd_bq2515x_reg_read_burst_def Let_def
          events_kept_def flags_read_def fired_def split: if_splits)
  qed
qed

lemma mfd_step_events_kept:
  assumes "mfd_step env cfg s s'" "events_kept cfg s"
  shows "events_kept cfg s'"
  using assms(1)
proof (cases rule: mfd_step.cases)
  case (int_work x)
  then show ?thesis using int_work_step(1) assms(2) by blast
qed (use assms(2) in \<open>auto simp: events_kept_def flags_read_def fired_def bq2515x_int_handler_def
      mfd_bq2515x_add_callback_def mfd_bq2515x_remove_callback_def mfd_bq2515x_write_int_mask_def
      mfd_bq2515x_reg_read_burst_def mfd_bq2515x_reg_write_def mfd_bq2515x_reg_write2_def
      mfd_bq2515x_reg_update_def split: if_splits\<close>)

lemma mfd_reachable_events_kept: "mfd_reachable env cfg s \<Longrightarrow> events_kept cfg s"
  by (induction rule: mfd_reachable.induct)
    (auto simp: mfd_data_init_def events_kept_def dest: mfd_step_events_kept [unfolded events_kept_def])

section \<open>Properties\<close>

definition board_mfd :: mfd_bq2515x_config where
  "board_mfd = \<lparr>bq_addr = 0x6b, has_lp_gpio = True, has_int_gpio = True, pg_mode = 1\<rparr>"


definition flag_env :: env where
  \<comment> \<open>the flag registers report the events 0, 5 and 23\<close>
  "flag_env tr c = quiet_reply\<lparr>r_byte := (\<lambda>i. if i = 0 then 0x21 else if i = 2 then 0x80 else 0)\<rparr>"


end
