(* ===== verification/Charger.thy ===== *)
theory Charger
  imports Bq2515x_Mfd
begin

text \<open>
  The charger function of the BQ2515x, \<^verbatim>\<open>firmware/drivers/charger/charger_bq2515x.c\<close>. Its state is the
  software copy of the charge-enable pin together with the state of the shared driver, on which
  \<open>on_mfd\<close> runs the register accesses. A division by zero is the value \<open>None\<close>. Warnings about currents
  out of range, and the event handler, only log.
\<close>

section \<open>State\<close>

record charger_bq2515x_data =
  ce_gpio_active :: bool
  ch_mfd :: mfd_bq2515x_data

record charger_bq2515x_config =
  ch_mfd_config :: mfd_bq2515x_config
  has_ce_gpio :: bool
  initial_charge_current_ua :: u32
  initial_input_current_limit_ma :: u32

definition charger_data_init :: charger_bq2515x_data where
  "charger_data_init = \<lparr>ce_gpio_active = True, ch_mfd = mfd_data_init\<rparr>"

type_synonym 'a charger = "(charger_bq2515x_data, 'a) state"

definition on_mfd :: "'a mfd \<Rightarrow> 'a charger" where
  "on_mfd = zoom ch_mfd (\<lambda>t s. s\<lparr>ch_mfd := t\<rparr>)"

definition charger_get :: "charger_bq2515x_data charger" where
  "charger_get = State (\<lambda>s. (s, s))"

definition set_ce_active :: "bool \<Rightarrow> unit charger" where
  "set_ce_active b = State (\<lambda>s. ((), s\<lparr>ce_gpio_active := b\<rparr>))"

lemma run_on_mfd [simp]:
  "run_state (on_mfd m) s = (case run_state m (ch_mfd s) of (a, t) \<Rightarrow> (a, s\<lparr>ch_mfd := t\<rparr>))"
  by (simp add: on_mfd_def)

lemma run_charger_state [simp]:
  "run_state charger_get s = (s, s)" "run_state (set_ce_active b) s = ((), s\<lparr>ce_gpio_active := b\<rparr>)"
  by (simp_all add: charger_get_def set_ce_active_def)

datatype charger_online = CHARGER_ONLINE_OFFLINE | CHARGER_ONLINE_FIXED

datatype charger_status = CHARGER_STATUS_DISCHARGING | CHARGER_STATUS_NOT_CHARGING
  | CHARGER_STATUS_CHARGING | CHARGER_STATUS_FULL

datatype charger_prop = CHARGER_PROP_ONLINE | CHARGER_PROP_STATUS
  | CHARGER_PROP_CONSTANT_CHARGE_CURRENT_UA | CHARGER_PROP_INPUT_REGULATION_CURRENT_UA
  | CHARGER_PROP_OTHER

datatype charger_propval = Online charger_online | Status charger_status | MicroAmps u32

section \<open>Conversions\<close>

definition CLAMP :: "u32 \<Rightarrow> u32 \<Rightarrow> u32 \<Rightarrow> u32" where
  "CLAMP v lo hi = (if v \<le> lo then lo else if v \<ge> hi then hi else v)"

definition bq2515x_ua_to_ichg :: "u32 \<Rightarrow> u8 \<times> bool" where
  "bq2515x_ua_to_ichg current_ua =
     (let current_ua = CLAMP current_ua 1250 500000 in
      if current_ua \<le> 318750 then (ucast (current_ua div 1250), False)
      else (ucast (current_ua div 2500), True))"

definition bq2515x_ichg_to_ua :: "u8 \<Rightarrow> bool \<Rightarrow> u32" where
  "bq2515x_ichg_to_ua ichg ichg_range = (if ichg_range then ucast ichg * 1250 else ucast ichg * 2500)"

definition bq2515x_ma_to_ilim :: "u32 \<Rightarrow> u8" where
  "bq2515x_ma_to_ilim current_ma =
     (let current_ma = CLAMP current_ma 50 600 in
      if current_ma < 175 then ucast (current_ma div 50) else ucast (current_ma div 100 + 1))"

definition bq2515x_ilim_to_ma :: "u8 \<Rightarrow> u32" where
  "bq2515x_ilim_to_ma ilim =
     (if ilim \<le> 0x2 then ucast ilim * 50 + 50 else ucast ilim * 100 - 100)"

section \<open>Operations\<close>

definition bq2515x_charge_enable ::
  "env \<Rightarrow> charger_bq2515x_config \<Rightarrow> bool \<Rightarrow> int charger" where
  "bq2515x_charge_enable env cfg enable =
     (if has_ce_gpio cfg then
        do { ret \<leftarrow> on_mfd (bus (ext_ret env (GpioSet ''ce'' enable)));
             if ret = 0 then do { set_ce_active enable; return ret } else return ret }
      else
        on_mfd (mfd_bq2515x_reg_update env (ch_mfd_config cfg) BQ2515X_ICCTRL2_ADDR
          BQ2515X_ICCTRL2_CHARGER_DISABLE (if enable then 0 else BQ2515X_ICCTRL2_CHARGER_DISABLE)))"

definition bq2515x_set_charge_current ::
  "env \<Rightarrow> charger_bq2515x_config \<Rightarrow> u32 \<Rightarrow> int charger" where
  "bq2515x_set_charge_current env cfg const_charge_current_ua =
     (case bq2515x_ua_to_ichg const_charge_current_ua of (ichg, icharge_range) \<Rightarrow>
        do { (ret, pchrgctrl) \<leftarrow>
               on_mfd (mfd_bq2515x_reg_read env (ch_mfd_config cfg) BQ2515X_PCHRGCTRL_ADDR);
             if ret < 0 then return ret
             else do {
               ret \<leftarrow> on_mfd (mfd_bq2515x_reg_write2 env (ch_mfd_config cfg) BQ2515X_ICHG_CTRL_ADDR ichg
                        (if icharge_range then pchrgctrl OR BQ2515X_PCHRGCTRL_ICHARGE_RANGE
                         else pchrgctrl AND NOT BQ2515X_PCHRGCTRL_ICHARGE_RANGE));
               if ret < 0 then return ret else return 0 } })"

definition bq2515x_set_input_current_limit ::
  "env \<Rightarrow> charger_bq2515x_config \<Rightarrow> u32 \<Rightarrow> int charger" where
  "bq2515x_set_input_current_limit env cfg input_current_regulation_ua =
     do { ret \<leftarrow> on_mfd (mfd_bq2515x_reg_write env (ch_mfd_config cfg) BQ2515X_ILIMCTRL_ADDR
                 (FIELD_PREP BQ2515X_ILIMCTRL_ILIM
                    (bq2515x_ma_to_ilim (input_current_regulation_ua div 1000))));
          if ret < 0 then return ret else return 0 }"

definition bq2515x_get_online ::
  "env \<Rightarrow> charger_bq2515x_config \<Rightarrow> (int + charger_online) charger" where
  "bq2515x_get_online env cfg =
     do { (ret, val) \<leftarrow> on_mfd (mfd_bq2515x_reg_read env (ch_mfd_config cfg) BQ2515X_STAT0_ADDR);
          if ret < 0 then return (Inl ret)
          else return (Inr (if val AND BQ2515X_STAT0_VIN_PGOOD_STAT \<noteq> 0 then CHARGER_ONLINE_FIXED
                            else CHARGER_ONLINE_OFFLINE)) }"

definition bq2515x_get_status ::
  "env \<Rightarrow> charger_bq2515x_config \<Rightarrow> (int + charger_status) charger" where
  "bq2515x_get_status env cfg =
     do { (ret, stat0) \<leftarrow> on_mfd (mfd_bq2515x_reg_read env (ch_mfd_config cfg) BQ2515X_STAT0_ADDR);
          if ret < 0 then return (Inl ret)
          else if stat0 AND BQ2515X_STAT0_VIN_PGOOD_STAT = 0
          then return (Inr CHARGER_STATUS_DISCHARGING)
          else do {
            data \<leftarrow> charger_get;
            if \<not> ce_gpio_active data then return (Inr CHARGER_STATUS_NOT_CHARGING)
            else do {
              (ret, icctrl2) \<leftarrow>
                on_mfd (mfd_bq2515x_reg_read env (ch_mfd_config cfg) BQ2515X_ICCTRL2_ADDR);
              if ret < 0 then return (Inl ret)
              else if icctrl2 AND BQ2515X_ICCTRL2_CHARGER_DISABLE \<noteq> 0
              then return (Inr CHARGER_STATUS_NOT_CHARGING)
              else if stat0 AND BQ2515X_STAT0_CHRG_CV_STAT \<noteq> 0
              then return (Inr CHARGER_STATUS_CHARGING)
              else if stat0 AND BQ2515X_STAT0_CHARGE_DONE_STAT \<noteq> 0
              then return (Inr CHARGER_STATUS_FULL)
              else return (Inr CHARGER_STATUS_CHARGING) } } }"

definition bq2515x_get_charge_current ::
  "env \<Rightarrow> charger_bq2515x_config \<Rightarrow> (int + u32) charger" where
  "bq2515x_get_charge_current env cfg =
     do { (ret, rd_buf) \<leftarrow>
            on_mfd (mfd_bq2515x_reg_read_burst env (ch_mfd_config cfg) BQ2515X_ICHG_CTRL_ADDR 2);
          if ret < 0 then return (Inl ret)
          else return (Inr (bq2515x_ichg_to_ua (rd_buf ! 0)
                              (rd_buf ! 1 AND BQ2515X_PCHRGCTRL_ICHARGE_RANGE \<noteq> 0))) }"

definition bq2515x_get_input_current_limit ::
  "env \<Rightarrow> charger_bq2515x_config \<Rightarrow> ((int + u32) option) charger" where
  \<comment> \<open>the arguments of \<open>FIELD_GET\<close> are in the order of the source\<close>
  "bq2515x_get_input_current_limit env cfg =
     do { (ret, val) \<leftarrow> on_mfd (mfd_bq2515x_reg_read env (ch_mfd_config cfg) BQ2515X_ILIMCTRL_ADDR);
          if ret < 0 then return (Some (Inl ret))
          else if LSB_GET val = 0 then return None
          else return (Some (Inr (bq2515x_ilim_to_ma (FIELD_GET val BQ2515X_ILIMCTRL_ILIM) * 1000))) }"

definition bq2515x_get_prop ::
  "env \<Rightarrow> charger_bq2515x_config \<Rightarrow> charger_prop \<Rightarrow> ((int + charger_propval) option) charger" where
  "bq2515x_get_prop env cfg prop =
     (case prop of
        CHARGER_PROP_ONLINE \<Rightarrow>
          do { r \<leftarrow> bq2515x_get_online env cfg; return (Some (map_sum id Online r)) }
      | CHARGER_PROP_STATUS \<Rightarrow>
          do { r \<leftarrow> bq2515x_get_status env cfg; return (Some (map_sum id Status r)) }
      | CHARGER_PROP_CONSTANT_CHARGE_CURRENT_UA \<Rightarrow>
          do { r \<leftarrow> bq2515x_get_charge_current env cfg; return (Some (map_sum id MicroAmps r)) }
      | CHARGER_PROP_INPUT_REGULATION_CURRENT_UA \<Rightarrow>
          do { r \<leftarrow> bq2515x_get_input_current_limit env cfg;
               return (map_option (map_sum id MicroAmps) r) }
      | CHARGER_PROP_OTHER \<Rightarrow> return (Some (Inl (- ENOTSUP))))"

definition bq2515x_set_prop ::
  "env \<Rightarrow> charger_bq2515x_config \<Rightarrow> charger_prop \<Rightarrow> u32 \<Rightarrow> int charger" where
  "bq2515x_set_prop env cfg prop val =
     (case prop of
        CHARGER_PROP_CONSTANT_CHARGE_CURRENT_UA \<Rightarrow> bq2515x_set_charge_current env cfg val
      | CHARGER_PROP_INPUT_REGULATION_CURRENT_UA \<Rightarrow> bq2515x_set_input_current_limit env cfg val
      | _ \<Rightarrow> return (- ENOTSUP))"

definition charger_bq2525x_init :: "env \<Rightarrow> charger_bq2515x_config \<Rightarrow> int charger" where
  \<comment> \<open>the results of adding the callback and of disabling the watchdog are not looked at\<close>
  "charger_bq2525x_init env cfg = seq_neg
     [on_mfd (check_ready env (DeviceReady ''mfd'')),
      do { _ \<leftarrow> on_mfd (mfd_bq2515x_add_callback env (ch_mfd_config cfg)
                  (BIT BQ2515X_EVENT_IINLIM_ACTIVE OR BIT BQ2515X_EVENT_VINDPM_ACTIVE OR
                   BIT BQ2515X_EVENT_VDPPM_ACTIVE));
           _ \<leftarrow> on_mfd (mfd_bq2515x_reg_update env (ch_mfd_config cfg) BQ2515X_CHARGERCTRL0_ADDR
                  BQ2515X_CHARGERCTRL0_WATCHDOG_DISABLE BQ2515X_CHARGERCTRL0_WATCHDOG_DISABLE);
           return 0 },
      if has_ce_gpio cfg then seq_neg
        [on_mfd (check_ready env (GpioReady ''ce'')),
         on_mfd (bus (ext_ret env (GpioConfigure ''ce'' ''OUTPUT_ACTIVE'')))]
      else return 0,
      if initial_charge_current_ua cfg > 0
      then bq2515x_set_charge_current env cfg (initial_charge_current_ua cfg) else return 0,
      if initial_input_current_limit_ma cfg > 0
      then bq2515x_set_input_current_limit env cfg (initial_input_current_limit_ma cfg * 1000)
      else return 0,
      return 0]"

section \<open>What the settings mean to the chip\<close>

definition ch_regs :: "charger_bq2515x_config \<Rightarrow> (nat \<Rightarrow> u8) \<Rightarrow> charger_bq2515x_data \<Rightarrow> nat \<Rightarrow> u8" where
  "ch_regs cfg f0 s = bq_regs (ch_mfd_config cfg) f0 (ch_mfd s)"

definition chip_charge_ua :: "(nat \<Rightarrow> u8) \<Rightarrow> nat" where
  \<comment> \<open>the resolutions of the comment of \<open>bq2515x_ua_to_ichg\<close>\<close>
  "chip_charge_ua f = unat (f 0x13) * (if bit (f 0x14) 7 then 2500 else 1250)"

definition chip_input_ma :: "(nat \<Rightarrow> u8) \<Rightarrow> nat" where
  "chip_input_ma f = [50, 100, 150, 200, 300, 400, 500, 600] ! (unat (f 0x19) mod 8)"

definition clamp_ua :: "u32 \<Rightarrow> nat" where "clamp_ua c = max 1250 (min 500000 (unat c))"
definition clamp_ma :: "u32 \<Rightarrow> nat" where "clamp_ma c = max 50 (min 600 (unat c))"

lemma unat_CLAMP: "unat (CLAMP c 1250 500000) = clamp_ua c" "unat (CLAMP c 50 600) = clamp_ma c"
  by (auto simp: CLAMP_def clamp_ua_def clamp_ma_def word_le_nat_alt)

lemma ua_to_ichg:
  assumes "bq2515x_ua_to_ichg c = (ichg, rng)"
  shows "unat ichg = clamp_ua c div (if rng then 2500 else 1250)" "rng \<longleftrightarrow> clamp_ua c > 318750"
proof -
  let ?c = "CLAMP c 1250 500000"
  have bounds: "clamp_ua c \<le> 500000" by (simp add: clamp_ua_def)
  have small: "unat (ucast (?c div k) :: u8) = clamp_ua c div unat k" if "clamp_ua c div unat k < 256" for k
    using that by (simp add: unsigned_ucast_eq unat_div unat_CLAMP take_bit_nat_eq_self)
  have cmp: "?c \<le> 318750 \<longleftrightarrow> clamp_ua c \<le> 318750" by (simp add: word_le_nat_alt unat_CLAMP)
  have "clamp_ua c div 2500 < 256" using bounds by simp
  moreover have "clamp_ua c div 1250 < 256" if "clamp_ua c \<le> 318750" using that by simp
  ultimately show "unat ichg = clamp_ua c div (if rng then 2500 else 1250)" "rng \<longleftrightarrow> clamp_ua c > 318750"
    using assms small [of 1250] small [of 2500] cmp
    by (auto simp: bq2515x_ua_to_ichg_def Let_def split: if_splits)
qed

lemma ma_to_ilim:
  "unat (bq2515x_ma_to_ilim c) = (if clamp_ma c < 175 then clamp_ma c div 50 else clamp_ma c div 100 + 1)"
proof -
  let ?c = "CLAMP c 50 600"
  have b: "clamp_ma c \<le> 600" by (simp add: clamp_ma_def)
  have lt: "?c < 175 \<longleftrightarrow> clamp_ma c < 175" by (simp add: word_less_nat_alt unat_CLAMP)
  have "unat (?c div 100 + 1) = clamp_ma c div 100 + 1"
    using b by (simp add: unat_word_ariths unat_div unat_CLAMP)
  moreover have "clamp_ma c div 50 < 256" "clamp_ma c div 100 + 1 < 256" using b by simp_all
  ultimately show ?thesis
    using lt by (simp add: bq2515x_ma_to_ilim_def Let_def unsigned_ucast_eq unat_div unat_CLAMP
        take_bit_nat_eq_self)
qed

lemma set_charge_current_regs:
  assumes honest: "bq_honest env (ch_mfd_config cfg) f0"
    and run: "run_state (bq2515x_set_charge_current env cfg ua) s = (0, s')"
    and conv: "bq2515x_ua_to_ichg ua = (ichg, rng)"
  shows "\<exists>w. ch_regs cfg f0 s' = (ch_regs cfg f0 s)(0x13 := ichg, 0x14 := w) \<and> (bit w 7 \<longleftrightarrow> rng) \<and>
    (\<forall>n. n \<noteq> 7 \<longrightarrow> bit w n = bit (ch_regs cfg f0 s 0x14) n)"
proof -
  obtain r v m where rd: "run_state (mfd_bq2515x_reg_read env (ch_mfd_config cfg) BQ2515X_PCHRGCTRL_ADDR)
      (ch_mfd s) = ((r, v), m)" by (metis prod.collapse)
  let ?w = "if rng then v OR BQ2515X_PCHRGCTRL_ICHARGE_RANGE else v AND NOT BQ2515X_PCHRGCTRL_ICHARGE_RANGE"
  obtain r2 m2 where wr: "run_state (mfd_bq2515x_reg_write2 env (ch_mfd_config cfg) BQ2515X_ICHG_CTRL_ADDR
      ichg ?w) m = (r2, m2)" by fastforce
  have ok: "bq_ok env (ch_mfd_config cfg) f0 t" for t using honest by (simp add: bq_ok_def)
  note law = reg_read_law [OF honest rd] bq.wr2_law [OF ok wr]
  have out: "\<not> r < 0" "\<not> r2 < 0" "s' = s\<lparr>ch_mfd := m2\<rparr>"
    using run conv rd wr by (auto simp: bq2515x_set_charge_current_def split: if_splits)
  have "v = ch_regs cfg f0 s 0x14"
    using law(1,3) out(1) by (simp add: ch_regs_def bq2515x_addrs bq_stable_def)
  moreover have "ch_regs cfg f0 s' = (ch_regs cfg f0 s)(0x13 := ichg, 0x14 := ?w)"
    using law(2,4) out by (auto simp: ch_regs_def bq2515x_addrs)
  moreover have "bit ?w 7 \<longleftrightarrow> rng" "n \<noteq> 7 \<Longrightarrow> bit ?w n = bit v n" for n
    by (auto simp: BQ2515X_PCHRGCTRL_ICHARGE_RANGE_def bit_simps dest: bit_imp_le_length)
  ultimately show ?thesis by blast
qed

lemma set_input_limit_regs:
  assumes honest: "bq_honest env (ch_mfd_config cfg) f0"
    and run: "run_state (bq2515x_set_input_current_limit env cfg ua) s = (0, s')"
  shows "ch_regs cfg f0 s' = (ch_regs cfg f0 s)(0x19 := bq2515x_ma_to_ilim (ua div 1000))"
proof -
  let ?i = "bq2515x_ma_to_ilim (ua div 1000)"
  have "unat ?i < 8" using ma_to_ilim [of "ua div 1000"] by (auto simp: clamp_ma_def)
  then have "take_bit 3 ?i = ?i"
    by (simp add: word_unat_eq_iff unsigned_take_bit_eq take_bit_nat_eq_self)
  moreover have "LSB_GET BQ2515X_ILIMCTRL_ILIM = 1" "BQ2515X_ILIMCTRL_ILIM = mask 3"
    by (simp_all add: BQ2515X_ILIMCTRL_ILIM_def GENMASK_def LSB_GET_def mask_eq_exp_minus_1)
  ultimately have prep: "FIELD_PREP BQ2515X_ILIMCTRL_ILIM ?i = ?i"
    by (simp add: FIELD_PREP_def take_bit_eq_mask)
  obtain r m where wr: "run_state (mfd_bq2515x_reg_write env (ch_mfd_config cfg) BQ2515X_ILIMCTRL_ADDR
      ?i) (ch_mfd s) = (r, m)" by fastforce
  have "bq_ok env (ch_mfd_config cfg) f0 (ch_mfd s)" using honest by (simp add: bq_ok_def)
  note bq.wr_law [OF this wr]
  with run wr prep show ?thesis
    by (auto simp: bq2515x_set_input_current_limit_def ch_regs_def bq2515x_addrs split: if_splits)
qed

lemma get_charge_current_value:
  assumes honest: "bq_honest env (ch_mfd_config cfg) f0"
    and run: "run_state (bq2515x_get_charge_current env cfg) s = (Inr ua, s')"
  shows "ua = bq2515x_ichg_to_ua (ch_regs cfg f0 s 0x13) (bit (ch_regs cfg f0 s 0x14) 7)"
proof -
  obtain r bs m where rd: "run_state (mfd_bq2515x_reg_read_burst env (ch_mfd_config cfg)
      BQ2515X_ICHG_CTRL_ADDR 2) (ch_mfd s) = ((r, bs), m)" by (metis prod.collapse)
  have "bq_ok env (ch_mfd_config cfg) f0 (ch_mfd s)" using honest by (simp add: bq_ok_def)
  note law = bq.rd_law [OF this rd]
  have "\<not> r < 0" and ua: "ua = bq2515x_ichg_to_ua (bs ! 0) (bs ! 1 AND BQ2515X_PCHRGCTRL_ICHARGE_RANGE \<noteq> 0)"
    using run rd by (auto simp: bq2515x_get_charge_current_def split: if_splits)
  have "\<forall>i < 2. unat BQ2515X_ICHG_CTRL_ADDR + i \<in> bq_stable \<longrightarrow>
      bs ! i = bq_regs (ch_mfd_config cfg) f0 (ch_mfd s) (unat BQ2515X_ICHG_CTRL_ADDR + i)"
    using law \<open>\<not> r < 0\<close> by simp
  from this [rule_format, of 0] this [rule_format, of 1]
  have "bs ! 0 = ch_regs cfg f0 s 0x13" "bs ! 1 = ch_regs cfg f0 s 0x14"
    by (simp_all add: ch_regs_def bq2515x_addrs bq_stable_def)
  moreover have "w AND BQ2515X_PCHRGCTRL_ICHARGE_RANGE \<noteq> 0 \<longleftrightarrow> bit w 7" for w
    unfolding BQ2515X_PCHRGCTRL_ICHARGE_RANGE_def by (rule test_BIT)
  ultimately show ?thesis using ua by simp
qed

section \<open>Properties\<close>

definition board_charger :: charger_bq2515x_config where
  "board_charger = \<lparr>ch_mfd_config = board_mfd, has_ce_gpio = False,
     initial_charge_current_ua = 150000, initial_input_current_limit_ma = 400\<rparr>"

lemma set_charge_current_ok:
  "\<exists>s'. run_state (bq2515x_set_charge_current (bq_env c f) cfg ua) s = (0, s')"
  by (cases "bq2515x_ua_to_ichg ua")
    (simp add: bq2515x_set_charge_current_def mfd_bq2515x_reg_read_def
        mfd_bq2515x_reg_read_burst_def mfd_bq2515x_reg_write2_def)

text \<open>
  Property C13. A charge current that is set successfully is the current asked for, clamped to the
  range of the chip and rounded down to its resolution (1.25 mA up to 318.75 mA, 2.5 mA above); the
  other bits of the two registers and all other registers keep their values.
\<close>

theorem bq2515x_charge_current_set:
  assumes "bq_honest env (ch_mfd_config cfg) f0"
    and "run_state (bq2515x_set_charge_current env cfg ua) s = (0, s')"
  shows "chip_charge_ua (ch_regs cfg f0 s') \<le> clamp_ua ua \<and>
    clamp_ua ua < chip_charge_ua (ch_regs cfg f0 s') + (if clamp_ua ua \<le> 318750 then 1250 else 2500) \<and>
    (\<forall>n. n \<noteq> 7 \<longrightarrow> bit (ch_regs cfg f0 s' 0x14) n = bit (ch_regs cfg f0 s 0x14) n) \<and>
    (\<forall>k. k \<noteq> 0x13 \<longrightarrow> k \<noteq> 0x14 \<longrightarrow> ch_regs cfg f0 s' k = ch_regs cfg f0 s k)"
proof -
  obtain ichg rng where conv: "bq2515x_ua_to_ichg ua = (ichg, rng)" by fastforce
  obtain w where w: "ch_regs cfg f0 s' = (ch_regs cfg f0 s)(0x13 := ichg, 0x14 := w)" "bit w 7 \<longleftrightarrow> rng"
      "\<forall>n. n \<noteq> 7 \<longrightarrow> bit w n = bit (ch_regs cfg f0 s 0x14) n"
    using set_charge_current_regs [OF assms conv] by blast
  have chip: "chip_charge_ua (ch_regs cfg f0 s') =
      clamp_ua ua div (if rng then 2500 else 1250) * (if rng then 2500 else 1250)"
    using w(1,2) ua_to_ichg(1) [OF conv] by (simp add: chip_charge_ua_def)
  have step: "n div d * d \<le> n \<and> n < n div d * d + d" if "0 < d" for n d :: nat
    using that dividend_less_div_times [of d n] by (simp add: add.commute)
  show ?thesis
    using chip step [of 1250 "clamp_ua ua"] step [of 2500 "clamp_ua ua"] ua_to_ichg(2) [OF conv] w(1,3)
    by auto
qed

theorem bq2515x_charge_current_set_witness:
  "\<exists>s'. run_state (bq2515x_set_charge_current (bq_env board_mfd (\<lambda>_. 0)) board_charger 330000)
          charger_data_init = (0, s') \<and>
     chip_charge_ua (ch_regs board_charger (\<lambda>_. 0) s') \<le> 330000"
proof -
  have honest: "bq_honest (bq_env board_mfd (\<lambda>_. 0)) (ch_mfd_config board_charger) (\<lambda>_. 0)"
    using bq_env_honest by (simp add: board_charger_def)
  obtain s' where run: "run_state (bq2515x_set_charge_current (bq_env board_mfd (\<lambda>_. 0)) board_charger
      330000) charger_data_init = (0, s')"
    using set_charge_current_ok by blast
  from bq2515x_charge_current_set [OF honest run] run show ?thesis by (simp add: clamp_ua_def)
qed

text \<open>
  A defect: reading the charge current back returns another current than the one the
  chip charges with. \<open>bq2515x_ichg_to_ua\<close> has the two resolutions exchanged, so the result is twice the
  set current up to 318.75 mA and half of it above.
\<close>

theorem bq2515x_charge_current_misread:
  assumes "bq_honest env (ch_mfd_config cfg) f0"
    and "run_state (bq2515x_set_charge_current env cfg ua) s = (0, s1)"
    and "run_state (bq2515x_get_charge_current env cfg) s1 = (Inr got, s2)"
  shows "(clamp_ua ua \<le> 318750 \<longrightarrow> unat got = 2 * chip_charge_ua (ch_regs cfg f0 s1)) \<and>
         (clamp_ua ua > 318750 \<longrightarrow> 2 * unat got = chip_charge_ua (ch_regs cfg f0 s1))"
proof -
  obtain ichg rng where conv: "bq2515x_ua_to_ichg ua = (ichg, rng)" by fastforce
  obtain w where w: "ch_regs cfg f0 s1 = (ch_regs cfg f0 s)(0x13 := ichg, 0x14 := w)" "bit w 7 \<longleftrightarrow> rng"
    using set_charge_current_regs [OF assms(1,2) conv] by blast
  have "unat (ucast ichg * 1250 :: u32) = unat ichg * 1250" "unat (ucast ichg * 2500 :: u32) = unat ichg * 2500"
    using unat_u8_less [of ichg] by (simp_all add: unat_word_ariths)
  then show ?thesis
    using get_charge_current_value [OF assms(1,3)] w ua_to_ichg(2) [OF conv]
    by (simp add: bq2515x_ichg_to_ua_def chip_charge_ua_def)
qed

theorem bq2515x_charge_current_misread_witness:
  "\<exists>s1 s2 got. run_state (bq2515x_set_charge_current (bq_env board_mfd (\<lambda>_. 0)) board_charger 150000)
       charger_data_init = (0, s1) \<and>
     run_state (bq2515x_get_charge_current (bq_env board_mfd (\<lambda>_. 0)) board_charger) s1 = (Inr got, s2) \<and>
     unat got = 2 * chip_charge_ua (ch_regs board_charger (\<lambda>_. 0) s1)"
proof -
  have honest: "bq_honest (bq_env board_mfd (\<lambda>_. 0)) (ch_mfd_config board_charger) (\<lambda>_. 0)"
    using bq_env_honest by (simp add: board_charger_def)
  obtain s1 where 1: "run_state (bq2515x_set_charge_current (bq_env board_mfd (\<lambda>_. 0)) board_charger
      150000) charger_data_init = (0, s1)"
    using set_charge_current_ok by blast
  obtain got s2 where 2: "run_state (bq2515x_get_charge_current (bq_env board_mfd (\<lambda>_. 0)) board_charger)
      s1 = (Inr got, s2)"
    by (simp add: bq2515x_get_charge_current_def mfd_bq2515x_reg_read_burst_def)
  from bq2515x_charge_current_misread [OF honest 1 2] 1 2 show ?thesis
    by (auto simp: clamp_ua_def)
qed

text \<open>
  A defect of the input current limit: from 175 mA the programmed limit does not exceed
  the one asked for and is less than 100 mA below it, but below 175 mA it is one step too high, above
  the limit asked for.
\<close>

theorem bq2515x_input_limit_set:
  assumes "bq_honest env (ch_mfd_config cfg) f0"
    and "run_state (bq2515x_set_input_current_limit env cfg ua) s = (0, s')"
  shows "let ma = clamp_ma (ua div 1000); limit = chip_input_ma (ch_regs cfg f0 s') in
    (175 \<le> ma \<longrightarrow> limit \<le> ma \<and> ma < limit + 100) \<and>
    (ma < 175 \<longrightarrow> limit = 50 * (ma div 50 + 1) \<and> ma < limit) \<and>
    (\<forall>k. k \<noteq> 0x19 \<longrightarrow> ch_regs cfg f0 s' k = ch_regs cfg f0 s k)"
proof -
  define ma where "ma = clamp_ma (ua div 1000)"
  have code: "unat (ch_regs cfg f0 s' 0x19) = (if ma < 175 then ma div 50 else ma div 100 + 1)"
    using set_input_limit_regs [OF assms] ma_to_ilim [of "ua div 1000"] by (simp add: ma_def)
  have b: "50 \<le> ma" "ma \<le> 600" by (simp_all add: ma_def clamp_ma_def)
  define q where "q = ma div 50"
  define p where "p = ma div 100"
  have "ma < 175 \<Longrightarrow> (q = 1 \<or> q = 2 \<or> q = 3) \<and> 50 * q \<le> ma \<and> ma < 50 * q + 50"
    using b unfolding q_def by linarith
  moreover have "\<not> ma < 175 \<Longrightarrow> (p = 1 \<or> p = 2 \<or> p = 3 \<or> p = 4 \<or> p = 5 \<or> p = 6) \<and>
      100 * p \<le> ma \<and> ma < 100 * p + 100"
    using b unfolding p_def by linarith
  ultimately have "(175 \<le> ma \<longrightarrow> chip_input_ma (ch_regs cfg f0 s') \<le> ma \<and>
      ma < chip_input_ma (ch_regs cfg f0 s') + 100) \<and>
    (ma < 175 \<longrightarrow> chip_input_ma (ch_regs cfg f0 s') = 50 * (q + 1) \<and> ma < chip_input_ma (ch_regs cfg f0 s'))"
    unfolding chip_input_ma_def code by (auto simp flip: q_def p_def)
  moreover have "\<forall>k. k \<noteq> 0x19 \<longrightarrow> ch_regs cfg f0 s' k = ch_regs cfg f0 s k"
    using set_input_limit_regs [OF assms] by simp
  ultimately show ?thesis unfolding Let_def q_def ma_def by blast
qed

theorem bq2515x_input_limit_set_witness:
  "\<exists>s'. run_state (bq2515x_set_input_current_limit (bq_env board_mfd (\<lambda>_. 0)) board_charger 100000)
          charger_data_init = (0, s') \<and>
     chip_input_ma (ch_regs board_charger (\<lambda>_. 0) s') = 150"
proof -
  have honest: "bq_honest (bq_env board_mfd (\<lambda>_. 0)) (ch_mfd_config board_charger) (\<lambda>_. 0)"
    using bq_env_honest by (simp add: board_charger_def)
  obtain s' where run: "run_state (bq2515x_set_input_current_limit (bq_env board_mfd (\<lambda>_. 0))
      board_charger 100000) charger_data_init = (0, s')"
    by (simp add: bq2515x_set_input_current_limit_def mfd_bq2515x_reg_write_def)
  have "clamp_ma (100000 div 1000) = 100" by (simp add: clamp_ma_def)
  with bq2515x_input_limit_set [OF honest run] run show ?thesis by (simp add: Let_def)
qed

text \<open>
  A defect of reading the input current limit: the arguments of \<open>FIELD_GET\<close> are
  exchanged, so the register's lowest set bit is divided out. The limit is right only for odd codes;
  for the code 0 (50 mA) the code divides by zero.
\<close>

theorem bq2515x_input_limit_misread:
  assumes "bq_honest env (ch_mfd_config cfg) f0"
    and "ch_regs cfg f0 s 0x19 = code" "unat code < 8"
    and "run_state (bq2515x_get_input_current_limit env cfg) s = (result, s')"
    and "\<nexists>e. result = Some (Inl e)"
  shows "(code = 0 \<longrightarrow> result = None) \<and>
         (code \<noteq> 0 \<longrightarrow> (\<exists>ua. result = Some (Inr ua) \<and>
            (unat ua = 1000 * chip_input_ma (ch_regs cfg f0 s) \<longleftrightarrow> odd (unat code))))"
proof -
  obtain r v m where rd: "run_state (mfd_bq2515x_reg_read env (ch_mfd_config cfg) BQ2515X_ILIMCTRL_ADDR)
      (ch_mfd s) = ((r, v), m)" by (metis prod.collapse)
  have "\<not> r < 0" and res: "result = (if LSB_GET v = 0 then None
      else Some (Inr (bq2515x_ilim_to_ma (FIELD_GET v BQ2515X_ILIMCTRL_ILIM) * 1000)))"
    using assms(4,5) rd by (auto simp: bq2515x_get_input_current_limit_def split: if_splits)
  with reg_read_law [OF assms(1) rd] assms(2) have v: "v = code"
    by (simp add: ch_regs_def bq2515x_addrs bq_stable_def)
  obtain k where k: "code = of_nat k" "k < 8"
    using assms(3) by (intro that [of "unat code"]) simp_all
  then consider "k = 0" | "k = 1" | "k = 2" | "k = 3" | "k = 4" | "k = 5" | "k = 6" | "k = 7" by linarith
  then show ?thesis
    using res assms(2) unfolding v
    by cases (simp_all add: k(1) LSB_GET_def FIELD_GET_def BQ2515X_ILIMCTRL_ILIM_def GENMASK_def
        mask_eq_exp_minus_1 bq2515x_ilim_to_ma_def chip_input_ma_def)
qed

theorem bq2515x_input_limit_misread_witness:
  "\<exists>s'. run_state (bq2515x_get_input_current_limit (bq_env board_mfd (\<lambda>_. 0)) board_charger)
          charger_data_init = (None, s')"
proof -
  have honest: "bq_honest (bq_env board_mfd (\<lambda>_. 0)) (ch_mfd_config board_charger) (\<lambda>_. 0)"
    using bq_env_honest by (simp add: board_charger_def)
  obtain r s' where run: "run_state (bq2515x_get_input_current_limit (bq_env board_mfd (\<lambda>_. 0))
      board_charger) charger_data_init = (r, s')" by fastforce
  then have "\<nexists>e. r = Some (Inl e)"
    by (auto simp: bq2515x_get_input_current_limit_def mfd_bq2515x_reg_read_def
        mfd_bq2515x_reg_read_burst_def split: if_splits)
  moreover have "ch_regs board_charger (\<lambda>_. 0) charger_data_init 0x19 = 0"
    by (simp add: ch_regs_def bq_regs_def charger_data_init_def mfd_data_init_def chip_regs_def)
  ultimately show ?thesis using bq2515x_input_limit_misread [OF honest _ _ run] run by simp
qed

end
