(* ===== verification/Regulators.thy ===== *)
theory Regulators
  imports Bq2515x_Mfd
begin

text \<open>
  The voltage regulators: the LDO of the BQ2515x (\<^verbatim>\<open>firmware/drivers/regulator/regulator_bq2515x.c\<close>)
  and the RT6160 converter (\<^verbatim>\<open>firmware/drivers/regulator/regulator_rt6160.c\<close>).

  The search in a linear range of voltages is Zephyr's, a parameter \<open>lr\<close> of the functions that use
  it; \<open>lr_spec\<close> is what its documentation promises. The RT6160 is alone on its address, so its driver
  runs directly on the trace of calls.
\<close>

record linear_range =
  lr_min :: int
  lr_step :: int
  lr_min_idx :: u16
  lr_max_idx :: u16

record lr_ops =
  lr_get_value :: "linear_range \<Rightarrow> u16 \<Rightarrow> int \<times> int"
  lr_get_win_index :: "linear_range \<Rightarrow> int \<Rightarrow> int \<Rightarrow> int \<times> u16"
  lr_values_count :: "linear_range \<Rightarrow> u32"

definition lr_value :: "linear_range \<Rightarrow> u16 \<Rightarrow> int" where
  "lr_value lrg idx = lr_min lrg + (int (unat idx) - int (unat (lr_min_idx lrg))) * lr_step lrg"

definition lr_spec :: "lr_ops \<Rightarrow> bool" where
  \<comment> \<open>a value is found for the indices of the range; a successful search in a window returns an index
      of the range whose value lies in the window\<close>
  "lr_spec lr \<longleftrightarrow>
     (\<forall>lrg idx. lr_min_idx lrg \<le> idx \<and> idx \<le> lr_max_idx lrg \<longrightarrow>
        lr_get_value lr lrg idx = (0, lr_value lrg idx)) \<and>
     (\<forall>lrg lo hi. case lr_get_win_index lr lrg lo hi of (ret, idx) \<Rightarrow>
        0 \<le> ret \<longrightarrow> lr_min_idx lrg \<le> idx \<and> idx \<le> lr_max_idx lrg \<and>
          lo \<le> lr_value lrg idx \<and> lr_value lrg idx \<le> hi)"

text \<open>A direct implementation, for concrete inputs.\<close>

definition lr_scan :: lr_ops where
  "lr_scan = \<lparr>
     lr_get_value = (\<lambda>lrg idx. if lr_min_idx lrg \<le> idx \<and> idx \<le> lr_max_idx lrg
       then (0, lr_value lrg idx) else (- EINVAL, 0)),
     lr_get_win_index = (\<lambda>lrg lo hi.
       case find (\<lambda>i. lo \<le> lr_value lrg i \<and> lr_value lrg i \<le> hi)
              (map of_nat [unat (lr_min_idx lrg)..<Suc (unat (lr_max_idx lrg))]) of
         Some i \<Rightarrow> (0, i) | None \<Rightarrow> (- EINVAL, 0)),
     lr_values_count = (\<lambda>lrg. ucast (lr_max_idx lrg - lr_min_idx lrg) + 1)\<rparr>"

lemma lr_scan_win:
  assumes "lr_get_win_index lr_scan lrg lo hi = (ret, idx)" "0 \<le> ret"
  shows "lr_min_idx lrg \<le> idx \<and> idx \<le> lr_max_idx lrg \<and> lo \<le> lr_value lrg idx \<and> lr_value lrg idx \<le> hi"
proof -
  let ?is = "map of_nat [unat (lr_min_idx lrg)..<Suc (unat (lr_max_idx lrg))] :: u16 list"
  have "find (\<lambda>i. lo \<le> lr_value lrg i \<and> lr_value lrg i \<le> hi) ?is = Some idx"
    using assms unfolding lr_scan_def by (simp del: upt_Suc split: option.splits)
  from find_SomeD [OF this] have v: "lo \<le> lr_value lrg idx" "lr_value lrg idx \<le> hi"
    and "idx \<in> of_nat ` {unat (lr_min_idx lrg)..<Suc (unat (lr_max_idx lrg))}"
    by (simp_all only: set_map set_upt)
  then obtain k where k: "idx = of_nat k" "unat (lr_min_idx lrg) \<le> k" "k \<le> unat (lr_max_idx lrg)"
    by auto
  moreover have "unat idx = k"
    using k(1,3) unat_u16_less [of "lr_max_idx lrg"]
    by (simp add: unsigned_of_nat take_bit_nat_eq_self)
  ultimately show ?thesis using v by (simp only: word_le_nat_alt)
qed

lemma lr_scan_spec: "lr_spec lr_scan"
proof -
  have "lr_get_value lr_scan lrg idx = (0, lr_value lrg idx)"
    if "lr_min_idx lrg \<le> idx \<and> idx \<le> lr_max_idx lrg" for lrg idx
    using that by (simp add: lr_scan_def)
  then show ?thesis unfolding lr_spec_def
    by (intro conjI allI impI) (auto split: prod.split dest: lr_scan_win)
qed

lemma lr_getD: "lr_spec lr \<Longrightarrow> lr_min_idx lrg \<le> idx \<Longrightarrow> idx \<le> lr_max_idx lrg \<Longrightarrow>
    lr_get_value lr lrg idx = (0, lr_value lrg idx)"
  by (simp add: lr_spec_def)

lemma lr_winD:
  assumes "lr_spec lr" "lr_get_win_index lr lrg lo hi = (ret, idx)" "0 \<le> ret"
  shows "lr_min_idx lrg \<le> idx \<and> idx \<le> lr_max_idx lrg \<and> lo \<le> lr_value lrg idx \<and> lr_value lrg idx \<le> hi"
  using assms(1) [unfolded lr_spec_def, THEN conjunct2, rule_format, of lrg lo hi] assms(2,3) by simp

section \<open>The LDO of the BQ2515x\<close>

definition BQ2515X_REGULATOR_MODE_LDO :: u8 where "BQ2515X_REGULATOR_MODE_LDO = 0"
definition BQ2515X_REGULATOR_MODE_LOAD_SWITCH :: u8 where "BQ2515X_REGULATOR_MODE_LOAD_SWITCH = 1"
definition REGULATOR_ERROR_OVER_CURRENT :: u8 where "REGULATOR_ERROR_OVER_CURRENT = BIT 1"
definition REGULATOR_ERROR_OVER_TEMP :: u8 where "REGULATOR_ERROR_OVER_TEMP = BIT 2"

definition ldo_range :: linear_range where
  "ldo_range = \<lparr>lr_min = 600000, lr_step = 100000, lr_min_idx = 0, lr_max_idx = 31\<rparr>"

definition regulator_bq2515x_ship_mode :: "env \<Rightarrow> mfd_bq2515x_config \<Rightarrow> int mfd" where
  "regulator_bq2515x_ship_mode env mfd =
     mfd_bq2515x_reg_update env mfd BQ2515X_ICCTRL0_ADDR BQ2515X_ICCTRL0_EN_SHIP_MODE
       BQ2515X_ICCTRL0_EN_SHIP_MODE"

definition regulator_bq2515x_init :: "env \<Rightarrow> mfd_bq2515x_config \<Rightarrow> int mfd" where
  "regulator_bq2515x_init env mfd = check_ready env (DeviceReady ''mfd'')"

definition regulator_bq2515x_ldo_enable :: "env \<Rightarrow> mfd_bq2515x_config \<Rightarrow> int mfd" where
  "regulator_bq2515x_ldo_enable env mfd =
     mfd_bq2515x_reg_update env mfd BQ2515X_LDOCTRL_ADDR BQ2515X_LDOCTRL_EN_LS_LDO
       BQ2515X_LDOCTRL_EN_LS_LDO"

definition regulator_bq2515x_ldo_disable :: "env \<Rightarrow> mfd_bq2515x_config \<Rightarrow> int mfd" where
  "regulator_bq2515x_ldo_disable env mfd =
     mfd_bq2515x_reg_update env mfd BQ2515X_LDOCTRL_ADDR BQ2515X_LDOCTRL_EN_LS_LDO 0"

definition regulator_bq2515x_ldo_set_mode :: "env \<Rightarrow> mfd_bq2515x_config \<Rightarrow> u8 \<Rightarrow> int mfd" where
  "regulator_bq2515x_ldo_set_mode env mfd mode =
     (if mode = BQ2515X_REGULATOR_MODE_LDO then
        mfd_bq2515x_reg_update env mfd BQ2515X_LDOCTRL_ADDR BQ2515X_LDOCTRL_LDO_SWITCH_CONFIG 0
      else if mode = BQ2515X_REGULATOR_MODE_LOAD_SWITCH then
        mfd_bq2515x_reg_update env mfd BQ2515X_LDOCTRL_ADDR BQ2515X_LDOCTRL_LDO_SWITCH_CONFIG
          BQ2515X_LDOCTRL_LDO_SWITCH_CONFIG
      else return (- ENOTSUP))"

definition regulator_bq2515x_ldo_get_mode :: "env \<Rightarrow> mfd_bq2515x_config \<Rightarrow> (int + u8) mfd" where
  "regulator_bq2515x_ldo_get_mode env mfd =
     do { (ret, ldoctrl) \<leftarrow> mfd_bq2515x_reg_read env mfd BQ2515X_LDOCTRL_ADDR;
          if ret < 0 then return (Inl ret)
          else return (Inr (if ldoctrl AND BQ2515X_LDOCTRL_LDO_SWITCH_CONFIG \<noteq> 0
                            then BQ2515X_REGULATOR_MODE_LOAD_SWITCH
                            else BQ2515X_REGULATOR_MODE_LDO)) }"

definition regulator_bq2515x_ldo_count_voltages :: "lr_ops \<Rightarrow> u32" where
  "regulator_bq2515x_ldo_count_voltages lr = lr_values_count lr ldo_range"

definition regulator_bq2515x_ldo_list_voltage :: "lr_ops \<Rightarrow> u32 \<Rightarrow> int \<times> int" where
  "regulator_bq2515x_ldo_list_voltage lr idx = lr_get_value lr ldo_range (ucast idx)"

definition regulator_bq2515x_ldo_set_voltage ::
  "env \<Rightarrow> lr_ops \<Rightarrow> mfd_bq2515x_config \<Rightarrow> int \<Rightarrow> int \<Rightarrow> int mfd" where
  "regulator_bq2515x_ldo_set_voltage env lr mfd min_uv max_uv =
     (case lr_get_win_index lr ldo_range min_uv max_uv of (ret, idx) \<Rightarrow>
        if ret < 0 then return ret
        else mfd_bq2515x_reg_update env mfd BQ2515X_LDOCTRL_ADDR BQ2515X_LDOCTRL_VLDO
               (FIELD_PREP BQ2515X_LDOCTRL_VLDO (ucast idx)))"

definition regulator_bq2515x_ldo_get_voltage ::
  "env \<Rightarrow> lr_ops \<Rightarrow> mfd_bq2515x_config \<Rightarrow> (int \<times> int) mfd" where
  \<comment> \<open>the return value and the voltage\<close>
  "regulator_bq2515x_ldo_get_voltage env lr mfd =
     do { (ret, ldoctrl) \<leftarrow> mfd_bq2515x_reg_read env mfd BQ2515X_LDOCTRL_ADDR;
          if ret < 0 then return (ret, 0)
          else return (lr_get_value lr ldo_range (ucast (FIELD_GET BQ2515X_LDOCTRL_VLDO ldoctrl))) }"

definition regulator_bq2515x_ldo_get_error_flags ::
  "env \<Rightarrow> mfd_bq2515x_config \<Rightarrow> (int \<times> u8) mfd" where
  "regulator_bq2515x_ldo_get_error_flags env mfd =
     do { (ret, flag3) \<leftarrow> mfd_bq2515x_reg_read env mfd BQ2515X_FLAG3_ADDR;
          if ret < 0 then return (ret, 0)
          else return (0, if flag3 AND BQ2515X_FLAG3_LDO_OCP_FAULT_FLAG \<noteq> 0
                          then REGULATOR_ERROR_OVER_CURRENT else 0) }"

definition regulator_bq2515x_ldo_init :: "env \<Rightarrow> mfd_bq2515x_config \<Rightarrow> int mfd" where
  "regulator_bq2515x_ldo_init env mfd =
     do { ret \<leftarrow> check_ready env (DeviceReady ''mfd'');
          if ret \<noteq> 0 then return ret
          else do {
            (ret, val) \<leftarrow> mfd_bq2515x_reg_read env mfd BQ2515X_LDOCTRL_ADDR;
            if ret \<noteq> 0 then return ret
            else bus (ext_ret env (RegulatorCommonInit (val AND BQ2515X_LDOCTRL_EN_LS_LDO \<noteq> 0))) } }"

section \<open>The RT6160\<close>

record rt6160_config =
  rt_addr :: u8
  has_en_gpio :: bool
  has_vsel_gpio :: bool
  ramp_pwm :: bool
  init_enabled :: bool     \<comment> \<open>\<open>REGULATOR_INIT_ENABLED\<close> is among the flags\<close>

definition RT6160_CONTROL_ADDR :: u8 where "RT6160_CONTROL_ADDR = 0x01"
definition RT6160_CONTROL_ULTRASONIC_MODE :: u8 where "RT6160_CONTROL_ULTRASONIC_MODE = BIT 4"
definition RT6160_CONTROL_FORCED_PWM :: u8 where "RT6160_CONTROL_FORCED_PWM = BIT 3"
definition RT6160_CONTROL_RAMP_PWM :: u8 where "RT6160_CONTROL_RAMP_PWM = BIT 2"
definition RT6160_STATUS_ADDR :: u8 where "RT6160_STATUS_ADDR = 0x02"
definition RT6160_STATUS_OC :: u8 where "RT6160_STATUS_OC = BIT 2"
definition RT6160_STATUS_TSD :: u8 where "RT6160_STATUS_TSD = BIT 1"
definition RT6160_DEVID_ADDR :: u8 where "RT6160_DEVID_ADDR = 0x03"
definition RT6160_DEVID_MANUFACTURER :: u8 where "RT6160_DEVID_MANUFACTURER = GENMASK 7 4"
definition RT6160_DEVID_MANUFACTURER_RICHTEK :: u8 where "RT6160_DEVID_MANUFACTURER_RICHTEK = 0xa"
definition RT6160_VOUT1_ADDR :: u8 where "RT6160_VOUT1_ADDR = 0x04"
definition RT6160_MODE_AUTO_PFM :: u8 where "RT6160_MODE_AUTO_PFM = 0"
definition RT6160_MODE_ULTRASONIC :: u8 where "RT6160_MODE_ULTRASONIC = 1"
definition RT6160_MODE_FORCED_PWM :: u8 where "RT6160_MODE_FORCED_PWM = 2"

definition vout_range :: linear_range where
  "vout_range = \<lparr>lr_min = 2025000, lr_step = 25000, lr_min_idx = 0, lr_max_idx = 127\<rparr>"

definition i2c_reg_read_byte :: "env \<Rightarrow> u8 \<Rightarrow> u8 \<Rightarrow> (trace, int \<times> u8) state" where
  "i2c_reg_read_byte env a reg =
     do { r \<leftarrow> ext env (I2cRegRead a reg); return (r_ret r, r_byte r 0) }"

definition regulator_rt6160_set_enable :: "env \<Rightarrow> rt6160_config \<Rightarrow> bool \<Rightarrow> (trace, int) state" where
  "regulator_rt6160_set_enable env cfg enable =
     (if has_en_gpio cfg then ext_ret env (GpioSet ''en'' enable) else return (- ENOTSUP))"

definition regulator_rt6160_enable :: "env \<Rightarrow> rt6160_config \<Rightarrow> (trace, int) state" where
  "regulator_rt6160_enable env cfg = regulator_rt6160_set_enable env cfg True"

definition regulator_rt6160_disable :: "env \<Rightarrow> rt6160_config \<Rightarrow> (trace, int) state" where
  "regulator_rt6160_disable env cfg = regulator_rt6160_set_enable env cfg False"

definition regulator_rt6160_set_mode :: "env \<Rightarrow> rt6160_config \<Rightarrow> u8 \<Rightarrow> (trace, int) state" where
  "regulator_rt6160_set_mode env cfg mode =
     (let control = (if ramp_pwm cfg then RT6160_CONTROL_RAMP_PWM else 0);
          write = (\<lambda>v. ext_ret env (I2cRegWrite (rt_addr cfg) RT6160_CONTROL_ADDR v)) in
      if mode = RT6160_MODE_AUTO_PFM then write control
      else if mode = RT6160_MODE_ULTRASONIC then write (control OR RT6160_CONTROL_ULTRASONIC_MODE)
      else if mode = RT6160_MODE_FORCED_PWM then write (control OR RT6160_CONTROL_FORCED_PWM)
      else return (- ENOTSUP))"

definition regulator_rt6160_get_mode :: "env \<Rightarrow> rt6160_config \<Rightarrow> (trace, int + u8) state" where
  "regulator_rt6160_get_mode env cfg =
     do { (ret, control) \<leftarrow> i2c_reg_read_byte env (rt_addr cfg) RT6160_CONTROL_ADDR;
          if ret < 0 then return (Inl ret)
          else return (Inr (if control AND RT6160_CONTROL_FORCED_PWM \<noteq> 0 then RT6160_MODE_FORCED_PWM
                            else if control AND RT6160_CONTROL_ULTRASONIC_MODE \<noteq> 0
                            then RT6160_MODE_ULTRASONIC
                            else RT6160_MODE_AUTO_PFM)) }"

definition regulator_rt6160_count_voltages :: "lr_ops \<Rightarrow> u32" where
  "regulator_rt6160_count_voltages lr = lr_values_count lr vout_range"

definition regulator_rt6160_list_voltage :: "lr_ops \<Rightarrow> u32 \<Rightarrow> int \<times> int" where
  "regulator_rt6160_list_voltage lr idx = lr_get_value lr vout_range (ucast idx)"

definition regulator_rt6160_set_voltage ::
  "env \<Rightarrow> lr_ops \<Rightarrow> rt6160_config \<Rightarrow> int \<Rightarrow> int \<Rightarrow> (trace, int) state" where
  "regulator_rt6160_set_voltage env lr cfg min_uv max_uv =
     (case lr_get_win_index lr vout_range min_uv max_uv of (ret, idx) \<Rightarrow>
        if ret < 0 then return ret
        else ext_ret env (I2cRegWrite (rt_addr cfg) RT6160_VOUT1_ADDR (ucast idx)))"

definition regulator_rt6160_get_voltage ::
  "env \<Rightarrow> lr_ops \<Rightarrow> rt6160_config \<Rightarrow> (trace, int \<times> int) state" where
  "regulator_rt6160_get_voltage env lr cfg =
     do { (ret, vout1) \<leftarrow> i2c_reg_read_byte env (rt_addr cfg) RT6160_VOUT1_ADDR;
          if ret < 0 then return (ret, 0) else return (lr_get_value lr vout_range (ucast vout1)) }"

definition regulator_rt6160_get_error_flags :: "env \<Rightarrow> rt6160_config \<Rightarrow> (trace, int \<times> u8) state" where
  "regulator_rt6160_get_error_flags env cfg =
     do { (ret, status) \<leftarrow> i2c_reg_read_byte env (rt_addr cfg) RT6160_STATUS_ADDR;
          if ret < 0 then return (ret, 0)
          else return (0, (if status AND RT6160_STATUS_OC \<noteq> 0 then REGULATOR_ERROR_OVER_CURRENT else 0) OR
                          (if status AND RT6160_STATUS_TSD \<noteq> 0 then REGULATOR_ERROR_OVER_TEMP else 0)) }"

definition rt_check_ready :: "env \<Rightarrow> ext_call \<Rightarrow> (trace, int) state" where
  "rt_check_ready env c = do { ready \<leftarrow> ext_ret env c; return (if ready = 0 then - ENODEV else 0) }"

definition regulator_rt6160_init :: "env \<Rightarrow> rt6160_config \<Rightarrow> (trace, int) state" where
  "regulator_rt6160_init env cfg = seq_neg
     [rt_check_ready env (I2cReady (rt_addr cfg)),
      do { (ret, val) \<leftarrow> i2c_reg_read_byte env (rt_addr cfg) RT6160_DEVID_ADDR;
           if ret < 0 then return ret
           else if FIELD_GET RT6160_DEVID_MANUFACTURER val \<noteq> RT6160_DEVID_MANUFACTURER_RICHTEK
           then return (- ENOTSUP) else return 0 },
      if has_en_gpio cfg then seq_neg
        [rt_check_ready env (GpioReady ''en''),
         ext_ret env (GpioConfigure ''en''
           (if init_enabled cfg then ''OUTPUT_ACTIVE'' else ''OUTPUT_INACTIVE''))]
      else return 0,
      if has_vsel_gpio cfg then seq_neg
        [rt_check_ready env (GpioReady ''vsel''),
         ext_ret env (GpioConfigure ''vsel'' ''OUTPUT_INACTIVE'')]
      else return 0,
      ext_ret env (RegulatorCommonInit (if has_en_gpio cfg then init_enabled cfg else True))]"

section \<open>Reading back what was set\<close>

lemma vldo_mask:
  "BQ2515X_LDOCTRL_VLDO = push_bit 2 (mask 5)" "LSB_GET BQ2515X_LDOCTRL_VLDO = 2 ^ 2"
  by (simp_all add: BQ2515X_LDOCTRL_VLDO_def GENMASK_def LSB_GET_def mask_eq_exp_minus_1)

lemma vldo_get: "FIELD_GET BQ2515X_LDOCTRL_VLDO v = take_bit 5 (drop_bit 2 v)"
proof -
  have "FIELD_GET BQ2515X_LDOCTRL_VLDO v = drop_bit 2 (v AND push_bit 2 (mask 5))"
    unfolding FIELD_GET_def vldo_mask(2) drop_bit_eq_div by (simp only: vldo_mask(1))
  also have "\<dots> = take_bit 5 (drop_bit 2 v)" by (rule bit_word_eqI) (auto simp: bit_simps)
  finally show ?thesis .
qed

lemma vldo_prep: "FIELD_PREP BQ2515X_LDOCTRL_VLDO i = push_bit 2 (take_bit 5 i)"
proof -
  have "FIELD_PREP BQ2515X_LDOCTRL_VLDO i = push_bit 2 i AND push_bit 2 (mask 5)"
    unfolding FIELD_PREP_def vldo_mask(2) push_bit_eq_mult by (simp only: vldo_mask(1) push_bit_eq_mult)
  also have "\<dots> = push_bit 2 (take_bit 5 i)" by (rule bit_word_eqI) (auto simp: bit_simps)
  finally show ?thesis .
qed

lemma vldo_field:
  assumes "i \<le> (31 :: u8)"
  shows "FIELD_GET BQ2515X_LDOCTRL_VLDO (set_bits BQ2515X_LDOCTRL_VLDO (FIELD_PREP BQ2515X_LDOCTRL_VLDO i) old) = i"
proof -
  have "take_bit 5 (drop_bit 2 (set_bits (push_bit 2 (mask 5)) (push_bit 2 (take_bit 5 i)) old)) = take_bit 5 i"
    unfolding set_bits_def by (rule bit_word_eqI) (auto simp: bit_simps)
  moreover have "unat i < 32" using assms by (simp add: word_le_nat_alt)
  ultimately show ?thesis
    unfolding vldo_get vldo_prep unfolding vldo_mask(1)
    by (simp add: word_unat_eq_iff unsigned_take_bit_eq take_bit_nat_eq_self)
qed

section \<open>Properties\<close>

text \<open>
  Property C14. The LDO: a voltage set successfully is read back as a voltage inside the window that
  was asked for, and setting it leaves the enable bit, the mode bit and all other registers alone.
\<close>

theorem regulator_bq2515x_ldo_voltage_in_window:
  assumes "bq_honest env mfd f0" "lr_spec lr"
    and "run_state (regulator_bq2515x_ldo_set_voltage env lr mfd min_uv max_uv) s = (0, s1)"
    and "run_state (regulator_bq2515x_ldo_get_voltage env lr mfd) s1 = ((0, uv), s2)"
  shows "min_uv \<le> uv \<and> uv \<le> max_uv \<and>
    (\<forall>n \<in> {0, 1, 7}. bit (bq_regs mfd f0 s1 0x1d) n = bit (bq_regs mfd f0 s 0x1d) n) \<and>
    (\<forall>k. k \<noteq> 0x1d \<longrightarrow> bq_regs mfd f0 s1 k = bq_regs mfd f0 s k)"
proof -
  obtain wr idx where win: "lr_get_win_index lr ldo_range min_uv max_uv = (wr, idx)" by fastforce
  let ?v = "FIELD_PREP BQ2515X_LDOCTRL_VLDO (ucast idx)"
  have up: "0 \<le> wr" "run_state (mfd_bq2515x_reg_update env mfd BQ2515X_LDOCTRL_ADDR
      BQ2515X_LDOCTRL_VLDO ?v) s = (0, s1)"
    using assms(3) win by (auto simp: regulator_bq2515x_ldo_set_voltage_def split: if_splits)
  have idx: "idx \<le> 31" "min_uv \<le> lr_value ldo_range idx" "lr_value ldo_range idx \<le> max_uv"
    and val: "lr_get_value lr ldo_range idx = (0, lr_value ldo_range idx)"
    using lr_winD [OF assms(2) win up(1)] lr_getD [OF assms(2), of ldo_range idx]
    by (simp_all add: ldo_range_def)
  have ok: "bq_ok env mfd f0 t" for t using assms(1) by (simp add: bq_ok_def)
  note law = bq.up_law [OF ok up(2), simplified]
  obtain r ctrl where rd: "run_state (mfd_bq2515x_reg_read env mfd BQ2515X_LDOCTRL_ADDR) s1 = ((r, ctrl), s2)"
    and got: "\<not> r < 0" "lr_get_value lr ldo_range (ucast (FIELD_GET BQ2515X_LDOCTRL_VLDO ctrl)) = (0, uv)"
    using assms(4) by (auto simp: regulator_bq2515x_ldo_get_voltage_def split: prod.splits if_splits)
  have "ctrl = bq_regs mfd f0 s1 0x1d"
    using reg_read_law [OF assms(1) rd] got(1) by (simp add: bq2515x_addrs bq_stable_def)
  then have "ctrl = set_bits BQ2515X_LDOCTRL_VLDO ?v (bq_regs mfd f0 s 0x1d)"
    using law by (simp add: bq2515x_addrs)
  moreover have u: "unat (ucast idx :: u8) = unat idx" "unat idx \<le> 31"
    using idx(1) by (simp_all add: word_le_nat_alt unsigned_ucast_eq take_bit_nat_eq_self)
  ultimately have "FIELD_GET BQ2515X_LDOCTRL_VLDO ctrl = ucast idx"
    using vldo_field [of "ucast idx"] by (simp add: word_le_nat_alt)
  moreover have "ucast (ucast idx :: u8) = idx" using u by (simp add: word_unat_eq_iff)
  ultimately have uv: "uv = lr_value ldo_range idx" using got(2) val by simp
  have "bit (set_bits BQ2515X_LDOCTRL_VLDO ?v old) n = bit old n" if "n \<in> {0, 1, 7}" for old n
    using that by (auto simp: set_bits_def BQ2515X_LDOCTRL_VLDO_def GENMASK_def bit_simps
        dest: bit_imp_le_length)
  with law idx uv show ?thesis by (simp add: bq2515x_addrs)
qed

theorem regulator_bq2515x_ldo_voltage_in_window_witness:
  "\<exists>s1 s2 uv. run_state (regulator_bq2515x_ldo_set_voltage (bq_env board_mfd (\<lambda>_. 0)) lr_scan board_mfd
       1750000 1850000) mfd_data_init = (0, s1) \<and>
     run_state (regulator_bq2515x_ldo_get_voltage (bq_env board_mfd (\<lambda>_. 0)) lr_scan board_mfd) s1
       = ((0, uv), s2) \<and> 1750000 \<le> uv \<and> uv \<le> 1850000"
proof -
  have win: "lr_get_win_index lr_scan ldo_range 1750000 1850000 = (0, 12)"
    by (simp add: lr_scan_def ldo_range_def lr_value_def upt_rec)
  obtain s1 where 1: "run_state (regulator_bq2515x_ldo_set_voltage (bq_env board_mfd (\<lambda>_. 0)) lr_scan
      board_mfd 1750000 1850000) mfd_data_init = (0, s1)"
    by (simp add: regulator_bq2515x_ldo_set_voltage_def win mfd_bq2515x_reg_update_def)
  obtain uv s2 where 2: "run_state (regulator_bq2515x_ldo_get_voltage (bq_env board_mfd (\<lambda>_. 0)) lr_scan
      board_mfd) s1 = ((0, uv), s2)"
  proof -
    have small: "unat (take_bit 5 (drop_bit 2 v)) < 2 ^ 5" for v :: u8
      unfolding unsigned_take_bit_eq by (rule take_bit_nat_less_exp)
    have "ucast (FIELD_GET BQ2515X_LDOCTRL_VLDO v) \<le> (31 :: u16)" for v :: u8
      unfolding vldo_get word_le_nat_alt unat_ucast_u8 using small [of v] by simp
    then have "fst (lr_get_value lr_scan ldo_range (ucast (FIELD_GET BQ2515X_LDOCTRL_VLDO v))) = 0" for v
      by (simp add: lr_scan_def ldo_range_def)
    then show ?thesis
      by (intro that) (simp add: regulator_bq2515x_ldo_get_voltage_def mfd_bq2515x_reg_read_def
          mfd_bq2515x_reg_read_burst_def prod_eq_iff)
  qed
  from regulator_bq2515x_ldo_voltage_in_window [OF bq_env_honest lr_scan_spec 1 2] 1 2
  show ?thesis by blast
qed

section \<open>The RT6160 read back\<close>

definition rt_honest :: "env \<Rightarrow> rt6160_config \<Rightarrow> (nat \<Rightarrow> u8) \<Rightarrow> bool" where
  \<comment> \<open>a successful read of the control or output voltage register returns what was written to it\<close>
  "rt_honest env cfg f0 \<longleftrightarrow> (\<forall>tr. \<forall>reg \<in> {RT6160_CONTROL_ADDR, RT6160_VOUT1_ADDR}.
     0 \<le> r_ret (env tr (I2cRegRead (rt_addr cfg) reg)) \<longrightarrow>
     r_byte (env tr (I2cRegRead (rt_addr cfg) reg)) 0 = chip_regs (bq_map (rt_addr cfg)) f0 tr (unat reg))"

definition rt_env :: "rt6160_config \<Rightarrow> (nat \<Rightarrow> u8) \<Rightarrow> env" where
  "rt_env cfg f0 tr c = (case c of
     I2cRegRead a reg \<Rightarrow> \<lparr>r_ret = 0, r_byte = (\<lambda>i. chip_regs (bq_map (rt_addr cfg)) f0 tr (unat reg)), r_num = 0, r_text = [], r_size = 0\<rparr>
   | _ \<Rightarrow> quiet_reply)"

lemma rt_env_honest: "rt_honest (rt_env cfg f0) cfg f0"
  by (simp add: rt_honest_def rt_env_def)

lemma rt_env_ret [simp]: "r_ret (rt_env cfg f0 tr c) = 0"
  by (auto simp: rt_env_def quiet_reply_def split: ext_call.split)

lemma rt_write_then_read:
  assumes "rt_honest env cfg f0" "reg \<in> {RT6160_CONTROL_ADDR, RT6160_VOUT1_ADDR}"
    and "run_state (ext_ret env (I2cRegWrite (rt_addr cfg) reg v)) tr = (r1, t1)" "0 \<le> r1"
    and "run_state (i2c_reg_read_byte env (rt_addr cfg) reg) t1 = ((r2, w), t2)" "0 \<le> r2"
  shows "w = v"
proof -
  have "t1 = tr @ [(I2cRegWrite (rt_addr cfg) reg v, env tr (I2cRegWrite (rt_addr cfg) reg v))]"
    and "w = r_byte (env t1 (I2cRegRead (rt_addr cfg) reg)) 0"
    and "0 \<le> r_ret (env t1 (I2cRegRead (rt_addr cfg) reg))"
    using assms(3-6) by (auto simp: i2c_reg_read_byte_def)
  with assms(1,2,3,4) show ?thesis
    unfolding rt_honest_def by (auto simp: chip_step_def bq_map_def)
qed

definition board_rt6160 :: rt6160_config where
  "board_rt6160 = \<lparr>rt_addr = 0x75, has_en_gpio = True, has_vsel_gpio = True, ramp_pwm = True,
     init_enabled = False\<rparr>"

text \<open>
  Property C15. The RT6160: a mode set successfully is the mode read back, and a voltage set
  successfully is read back as a voltage inside the window that was asked for.
\<close>

theorem regulator_rt6160_readback:
  assumes "rt_honest env cfg f0" "lr_spec lr"
    and "run_state (regulator_rt6160_set_mode env cfg mode) tr = (0, t1)"
    and "run_state (regulator_rt6160_get_mode env cfg) t1 = (Inr got, t2)"
    and "run_state (regulator_rt6160_set_voltage env lr cfg min_uv max_uv) t2 = (0, t3)"
    and "run_state (regulator_rt6160_get_voltage env lr cfg) t3 = ((0, uv), t4)"
  shows "got = mode \<and> min_uv \<le> uv \<and> uv \<le> max_uv"
proof -
  define ctl where "ctl = (if ramp_pwm cfg then RT6160_CONTROL_RAMP_PWM else 0) OR
    (if mode = RT6160_MODE_ULTRASONIC then RT6160_CONTROL_ULTRASONIC_MODE
     else if mode = RT6160_MODE_FORCED_PWM then RT6160_CONTROL_FORCED_PWM else 0)"
  have wr: "run_state (ext_ret env (I2cRegWrite (rt_addr cfg) RT6160_CONTROL_ADDR ctl)) tr = (0, t1)"
    and mode: "mode \<in> {RT6160_MODE_AUTO_PFM, RT6160_MODE_ULTRASONIC, RT6160_MODE_FORCED_PWM}"
    using assms(3) by (auto simp: regulator_rt6160_set_mode_def ctl_def Let_def RT6160_MODE_AUTO_PFM_def
        RT6160_MODE_ULTRASONIC_def RT6160_MODE_FORCED_PWM_def split: if_splits)
  obtain r w where rd: "run_state (i2c_reg_read_byte env (rt_addr cfg) RT6160_CONTROL_ADDR) t1 = ((r, w), t2)"
    and r: "0 \<le> r" and got: "got = (if w AND RT6160_CONTROL_FORCED_PWM \<noteq> 0 then RT6160_MODE_FORCED_PWM
      else if w AND RT6160_CONTROL_ULTRASONIC_MODE \<noteq> 0 then RT6160_MODE_ULTRASONIC
      else RT6160_MODE_AUTO_PFM)"
    using assms(4) by (auto simp: regulator_rt6160_get_mode_def split: prod.splits if_splits)
  have "w = ctl" using rt_write_then_read [OF assms(1) _ wr _ rd r] by simp
  then have "got = mode"
    using mode got unfolding RT6160_CONTROL_FORCED_PWM_def RT6160_CONTROL_ULTRASONIC_MODE_def test_BIT
    by (auto simp: ctl_def bit_or_iff RT6160_CONTROL_RAMP_PWM_def RT6160_CONTROL_FORCED_PWM_def
        RT6160_CONTROL_ULTRASONIC_MODE_def RT6160_MODE_AUTO_PFM_def RT6160_MODE_ULTRASONIC_def
        RT6160_MODE_FORCED_PWM_def)
  moreover have "min_uv \<le> uv \<and> uv \<le> max_uv"
  proof -
    obtain k idx where win: "lr_get_win_index lr vout_range min_uv max_uv = (k, idx)" by fastforce
    have wr: "0 \<le> k" "run_state (ext_ret env (I2cRegWrite (rt_addr cfg) RT6160_VOUT1_ADDR (ucast idx))) t2 = (0, t3)"
      using assms(5) win by (auto simp: regulator_rt6160_set_voltage_def split: if_splits)
    note idx = lr_winD [OF assms(2) win wr(1)]
    obtain r w where rd: "run_state (i2c_reg_read_byte env (rt_addr cfg) RT6160_VOUT1_ADDR) t3 = ((r, w), t4)"
      and r: "0 \<le> r" and got: "lr_get_value lr vout_range (ucast w) = (0, uv)"
      using assms(6) by (auto simp: regulator_rt6160_get_voltage_def split: prod.splits if_splits)
    have "w = ucast idx" using rt_write_then_read [OF assms(1) _ wr(2) _ rd r] by simp
    moreover have "unat idx \<le> 127" using idx by (simp add: vout_range_def word_le_nat_alt)
    ultimately have "ucast w = idx"
      by (simp add: word_unat_eq_iff unsigned_ucast_eq take_bit_nat_eq_self)
    with got idx lr_getD [OF assms(2), of vout_range idx] show ?thesis by auto
  qed
  ultimately show ?thesis by blast
qed

theorem regulator_rt6160_readback_witness:
  "\<exists>t1 t2 t3 t4 uv. run_state (regulator_rt6160_set_mode (rt_env board_rt6160 (\<lambda>_. 0)) board_rt6160 1) []
       = (0, t1) \<and>
     run_state (regulator_rt6160_get_mode (rt_env board_rt6160 (\<lambda>_. 0)) board_rt6160) t1 = (Inr 1, t2) \<and>
     run_state (regulator_rt6160_set_voltage (rt_env board_rt6160 (\<lambda>_. 0)) lr_scan board_rt6160
       2100000 2130000) t2 = (0, t3) \<and>
     run_state (regulator_rt6160_get_voltage (rt_env board_rt6160 (\<lambda>_. 0)) lr_scan board_rt6160) t3
       = ((0, uv), t4) \<and> 2100000 \<le> uv \<and> uv \<le> 2130000"
proof -
  let ?env = "rt_env board_rt6160 (\<lambda>_. 0)"
  have win: "lr_get_win_index lr_scan vout_range 2100000 2130000 = (0, 3)"
    by (simp add: lr_scan_def vout_range_def lr_value_def upt_rec)
  obtain t1 where 1: "run_state (regulator_rt6160_set_mode ?env board_rt6160 1) [] = (0, t1)"
    by (simp add: regulator_rt6160_set_mode_def Let_def RT6160_MODE_AUTO_PFM_def RT6160_MODE_ULTRASONIC_def)
  obtain got t2 where 2: "run_state (regulator_rt6160_get_mode ?env board_rt6160) t1 = (Inr got, t2)"
    by (simp add: regulator_rt6160_get_mode_def i2c_reg_read_byte_def)
  obtain t3 where 3: "run_state (regulator_rt6160_set_voltage ?env lr_scan board_rt6160 2100000 2130000) t2
      = (0, t3)" and w3: "chip_regs (bq_map 0x75) (\<lambda>_. 0) t3 4 = 3"
    by (simp add: regulator_rt6160_set_voltage_def win board_rt6160_def chip_step_def bq_map_def
        RT6160_VOUT1_ADDR_def)
  obtain uv t4 where 4: "run_state (regulator_rt6160_get_voltage ?env lr_scan board_rt6160) t3 = ((0, uv), t4)"
    using w3 by (simp add: regulator_rt6160_get_voltage_def i2c_reg_read_byte_def rt_env_def
        board_rt6160_def RT6160_VOUT1_ADDR_def lr_scan_def vout_range_def)
  from regulator_rt6160_readback [OF rt_env_honest lr_scan_spec 1 2 3 4] 1 2 3 4 show ?thesis by blast
qed

end
