(* ===== verification/Adc.thy ===== *)
theory Adc
  imports Bq2515x_Mfd
begin

text \<open>
  The measurements of the BQ2515x, \<^verbatim>\<open>firmware/drivers/sensor/ti/bq2515x_adc/bq2515x_adc.c\<close>: start-up,
  fetching a sample (with a manual conversion when the chip runs from the battery), and the conversion
  of the raw values to Zephyr's fixed-point sensor values.

  \<open>struct bq2515x_adc_results\<close> is filled from the bus by a burst read on a little-endian processor; a
  field is the half word so obtained, with its bytes still in the order of the chip.
\<close>

record bq2515x_adc_config =
  adc_mfd_config :: mfd_bq2515x_config
  read_rate :: u8
  conversion_speed_ms :: u8

record bq2515x_adc_results =
  vbat :: u16
  ts :: u16
  ichg :: u16
  adcin :: u16
  vin :: u16
  pmid :: u16
  iin :: u16

record bq2515x_adc_data =
  adcctrl0 :: u8
  results :: bq2515x_adc_results
  adc_mfd :: mfd_bq2515x_data

record sensor_value =
  val1 :: int
  val2 :: int

datatype sensor_channel = SENSOR_CHAN_GAUGE_VOLTAGE | SENSOR_CHAN_BQ2515X_ADC_VIN
  | SENSOR_CHAN_BQ2515X_ADC_PMID | SENSOR_CHAN_BQ2515X_ADC_IIN | SENSOR_CHAN_BQ2515X_ADC_TS
  | SENSOR_CHAN_BQ2515X_ADC_ADCIN | SENSOR_CHAN_BQ2515X_ADC_ICHG | SENSOR_CHAN_OTHER

definition on_adc_mfd :: "'a mfd \<Rightarrow> (bq2515x_adc_data, 'a) state" where
  "on_adc_mfd = zoom adc_mfd (\<lambda>t s. s\<lparr>adc_mfd := t\<rparr>)"

definition adc_get :: "(bq2515x_adc_data, bq2515x_adc_data) state" where
  "adc_get = State (\<lambda>s. (s, s))"

definition adc_upd :: "(bq2515x_adc_data \<Rightarrow> bq2515x_adc_data) \<Rightarrow> (bq2515x_adc_data, unit) state" where
  "adc_upd f = State (\<lambda>s. ((), f s))"

lemma run_adc_state [simp]:
  "run_state (on_adc_mfd m) s = (case run_state m (adc_mfd s) of (a, t) \<Rightarrow> (a, s\<lparr>adc_mfd := t\<rparr>))"
  "run_state adc_get s = (s, s)" "run_state (adc_upd f) s = ((), f s)"
  by (simp_all add: on_adc_mfd_def adc_get_def adc_upd_def)

definition bq2515x_adc_ready_handler :: "env \<Rightarrow> (bq2515x_adc_data, unit) state" where
  "bq2515x_adc_ready_handler env =
     do { _ \<leftarrow> on_adc_mfd (bus (ext env (SemGive ''adc_ready''))); return () }"

definition sys_be16_to_cpu :: "u16 \<Rightarrow> u16" where
  "sys_be16_to_cpu x = push_bit 8 x OR drop_bit 8 x"

definition bq2515x_adc_convert :: "u16 \<Rightarrow> u32 \<Rightarrow> u32 \<Rightarrow> sensor_value" where
  "bq2515x_adc_convert reg num den =
     (let scaled = (ucast (sys_be16_to_cpu reg) :: u32) * num; d = 65535 * den in
      \<lparr>val1 = uint (scaled div d),
       val2 = uint ((ucast (scaled mod d) :: u64) * 1000000 div ucast d)\<rparr>)"

definition bq2515x_adc_channel_get :: "sensor_channel \<Rightarrow> bq2515x_adc_data \<Rightarrow> int + sensor_value" where
  "bq2515x_adc_channel_get chan data =
     (case chan of
        SENSOR_CHAN_GAUGE_VOLTAGE \<Rightarrow> Inr (bq2515x_adc_convert (vbat (results data)) 6 1)
      | SENSOR_CHAN_BQ2515X_ADC_VIN \<Rightarrow> Inr (bq2515x_adc_convert (vin (results data)) 6 1)
      | SENSOR_CHAN_BQ2515X_ADC_PMID \<Rightarrow> Inr (bq2515x_adc_convert (pmid (results data)) 6 1)
      | SENSOR_CHAN_BQ2515X_ADC_IIN \<Rightarrow> Inr (bq2515x_adc_convert (iin (results data)) 375 1000)
      | SENSOR_CHAN_BQ2515X_ADC_TS \<Rightarrow> Inr (bq2515x_adc_convert (ts (results data)) 12 10)
      | SENSOR_CHAN_BQ2515X_ADC_ADCIN \<Rightarrow> Inr (bq2515x_adc_convert (adcin (results data)) 12 10)
      | SENSOR_CHAN_BQ2515X_ADC_ICHG \<Rightarrow> Inr (bq2515x_adc_convert (ichg (results data)) 125 1)
      | SENSOR_CHAN_OTHER \<Rightarrow> Inl (- ENOTSUP))"

definition half_word :: "u8 list \<Rightarrow> nat \<Rightarrow> u16" where
  \<comment> \<open>the \<open>i\<close>-th half word of a buffer, on a little-endian processor\<close>
  "half_word bs i = ucast (bs ! (2 * i)) OR push_bit 8 (ucast (bs ! (2 * i + 1)))"

definition adc_results_of :: "u8 list \<Rightarrow> bq2515x_adc_results" where
  "adc_results_of bs = \<lparr>vbat = half_word bs 0, ts = half_word bs 1, ichg = half_word bs 2,
     adcin = half_word bs 3, vin = half_word bs 4, pmid = half_word bs 5, iin = half_word bs 6\<rparr>"

definition adc_read_results :: "env \<Rightarrow> bq2515x_adc_config \<Rightarrow> (bq2515x_adc_data, int) state" where
  "adc_read_results env cfg =
     do { (ret, bs) \<leftarrow> on_adc_mfd (mfd_bq2515x_reg_read_burst env (adc_mfd_config cfg)
                         BQ2515X_ADC_DATA_VBAT_M_ADDR 14);
          adc_upd (\<lambda>d. d\<lparr>results := adc_results_of bs\<rparr>);
          return ret }"

definition bq2515x_adc_sample_fetch :: "env \<Rightarrow> bq2515x_adc_config \<Rightarrow> (bq2515x_adc_data, int) state" where
  \<comment> \<open>a timeout of the semaphore is only logged\<close>
  "bq2515x_adc_sample_fetch env cfg =
     (if read_rate cfg = BQ2515X_ADCCTRL0_ADC_READ_RATE_MANUAL then
        do { (ret, stat0) \<leftarrow>
               on_adc_mfd (mfd_bq2515x_reg_read env (adc_mfd_config cfg) BQ2515X_STAT0_ADDR);
             if ret \<noteq> 0 then return ret
             else if stat0 AND BQ2515X_STAT0_VIN_PGOOD_STAT = 0 then
               do { _ \<leftarrow> on_adc_mfd (bus (ext env (SemReset ''adc_ready'')));
                    data \<leftarrow> adc_get;
                    ret \<leftarrow> on_adc_mfd (mfd_bq2515x_reg_write env (adc_mfd_config cfg)
                             BQ2515X_ADCCTRL0_ADDR
                             (adcctrl0 data OR BQ2515X_ADCCTRL0_ADC_CONV_START));
                    if ret \<noteq> 0 then return ret
                    else do {
                      _ \<leftarrow> on_adc_mfd (bus (ext env (SemTake ''adc_ready'' 300)));
                      adc_read_results env cfg } }
             else adc_read_results env cfg }
      else adc_read_results env cfg)"

definition adc_conv_speed :: "u8 \<Rightarrow> u8 option" where
  "adc_conv_speed ms =
     (if ms = 24 then Some 0 else if ms = 12 then Some 1 else if ms = 6 then Some 2
      else if ms = 3 then Some 3 else None)"

definition bq2515x_adc_init :: "env \<Rightarrow> bq2515x_adc_config \<Rightarrow> (bq2515x_adc_data, int) state" where
  "bq2515x_adc_init env cfg =
     do { ret \<leftarrow> on_adc_mfd (check_ready env (DeviceReady ''mfd''));
          if ret \<noteq> 0 then return ret
          else do {
            ret \<leftarrow> (if read_rate cfg = BQ2515X_ADCCTRL0_ADC_READ_RATE_MANUAL
                    then on_adc_mfd (mfd_bq2515x_add_callback env (adc_mfd_config cfg)
                           (BIT BQ2515X_EVENT_ADC_READY))
                    else return 0);
            if ret \<noteq> 0 then return ret
            else (case adc_conv_speed (conversion_speed_ms cfg) of
                    None \<Rightarrow> return (- EINVAL)
                  | Some speed \<Rightarrow>
                      let ctrl = FIELD_PREP BQ2515X_ADCCTRL0_ADC_READ_RATE (read_rate cfg) OR
                                 FIELD_PREP BQ2515X_ADCCTRL0_ADC_CONV_SPEED speed in
                      do { adc_upd (\<lambda>d. d\<lparr>adcctrl0 := ctrl\<rparr>);
                           ret \<leftarrow> on_adc_mfd (mfd_bq2515x_reg_write env (adc_mfd_config cfg)
                                    BQ2515X_ADCCTRL0_ADDR ctrl);
                           if ret \<noteq> 0 then return ret
                           else on_adc_mfd (mfd_bq2515x_reg_write env (adc_mfd_config cfg)
                                  BQ2515X_ADC_READ_EN_ADDR
                                  (BIT 7 OR BIT 6 OR BIT 5 OR BIT 4 OR BIT 3 OR BIT 2 OR BIT 1)) }) } }"

section \<open>The conversion\<close>

lemma be16_half_word:
  "unat (sys_be16_to_cpu (half_word bs i)) = unat (bs ! (2 * i)) * 256 + unat (bs ! (2 * i + 1))"
proof -
  let ?a = "bs ! (2 * i)" and ?b = "bs ! (2 * i + 1)"
  have "sys_be16_to_cpu (half_word bs i) = push_bit 8 (ucast ?a) OR ucast ?b"
  proof (rule bit_word_eqI)
    fix n assume n: "n < LENGTH(16)"
    consider "n < 8" | "8 \<le> n" by linarith
    then show "bit (sys_be16_to_cpu (half_word bs i)) n = bit (push_bit 8 (ucast ?a) OR ucast ?b :: u16) n"
      using n by cases (auto simp: sys_be16_to_cpu_def half_word_def bit_simps dest: bit_imp_le_length)
  qed
  also have "\<dots> = push_bit 8 (ucast ?a) + ucast ?b"
    by (rule disjunctive_add_eq_or [symmetric]) (rule bit_word_eqI, auto simp: bit_simps dest: bit_imp_le_length)
  finally show ?thesis
    using unat_u8_less [of ?a] unat_u8_less [of ?b]
    by (simp add: push_bit_eq_mult unat_word_ariths)
qed

lemma div_scaled: "(s div d) * k + (s mod d) * k div d = s * k div d" if "0 < d" for s d k :: nat
proof -
  have "s * k = (s div d * k) * d + (s mod d) * k"
    by (metis add_mult_distrib div_mult_mod_eq mult.assoc mult.commute)
  then show ?thesis using that by simp
qed

lemma adc_convert_parts:
  fixes reg :: u16 and num den :: u32
  assumes "unat num \<le> 375" "0 < unat den" "unat den \<le> 1000"
  defines "S \<equiv> unat (sys_be16_to_cpu reg) * unat num" and "D \<equiv> 65535 * unat den"
  shows "val1 (bq2515x_adc_convert reg num den) = int (S div D) \<and>
         val2 (bq2515x_adc_convert reg num den) = int (S mod D * 1000000 div D) \<and> 0 < D"
proof -
  have "S \<le> 65535 * 375"
    unfolding S_def using unat_u16_less [of "sys_be16_to_cpu reg"] assms(1) by (intro mult_le_mono) simp_all
  then have s: "unat ((ucast (sys_be16_to_cpu reg) :: u32) * num) = S"
    by (simp add: unat_word_ariths S_def)
  have D: "0 < D" "D \<le> 65535000" using assms(2,3) by (simp_all add: D_def)
  then have d: "unat (65535 * den :: u32) = D" by (simp add: unat_word_ariths D_def)
  have "S mod D < D" using D by simp
  with D have m: "S mod D * 1000000 < 18446744073709551616" by linarith
  have v1: "val1 (bq2515x_adc_convert reg num den) = int (S div D)"
    by (simp add: bq2515x_adc_convert_def Let_def uint_nat unat_div s d del: of_nat_unat)
  have md: "unat (ucast ((ucast (sys_be16_to_cpu reg) * num) mod (65535 * den) :: u32) :: u64) = S mod D"
    using m by (simp add: unsigned_ucast_eq unat_mod s d take_bit_nat_eq_self)
  have dd: "unat (ucast (65535 * den :: u32) :: u64) = D"
    using D by (simp add: unsigned_ucast_eq d take_bit_nat_eq_self)
  have "val2 (bq2515x_adc_convert reg num den) = int (S mod D * 1000000 div D)"
    using m by (simp add: bq2515x_adc_convert_def Let_def uint_nat unat_div unat_word_ariths md dd del: of_nat_unat)
  with v1 D show ?thesis by simp
qed

text \<open>The buffer of a burst read, as the chip filled it.\<close>

definition adc_sample :: "u8 list \<Rightarrow> nat \<Rightarrow> int" where
  "adc_sample bs i = int (unat (bs ! (2 * i)) * 256 + unat (bs ! (2 * i + 1)))"

definition micro :: "sensor_value \<Rightarrow> int" where
  "micro v = val1 v * 1000000 + val2 v"

lemma adc_convert_half_word:
  assumes "unat num \<le> 375" "0 < unat den" "unat den \<le> 1000"
  shows "micro (bq2515x_adc_convert (half_word bs i) num den)
           = (adc_sample bs i * int (unat num) * 1000000) div (65535 * int (unat den)) \<and>
         0 \<le> val2 (bq2515x_adc_convert (half_word bs i) num den) \<and>
         val2 (bq2515x_adc_convert (half_word bs i) num den) < 1000000"
proof -
  define S where "S = unat (sys_be16_to_cpu (half_word bs i)) * unat num"
  define D where "D = 65535 * unat den"
  let ?v = "bq2515x_adc_convert (half_word bs i) num den"
  have p: "val1 ?v = int (S div D)" "val2 ?v = int (S mod D * 1000000 div D)" "0 < D"
    using adc_convert_parts [OF assms, of "half_word bs i"] by (simp_all add: S_def D_def)
  have "micro ?v = int ((S div D) * 1000000 + S mod D * 1000000 div D)"
    by (simp only: micro_def p of_nat_add of_nat_mult of_nat_numeral)
  also have "\<dots> = int (S * 1000000 div D)"
    by (simp only: div_scaled [OF p(3)])
  also have "\<dots> = (adc_sample bs i * int (unat num) * 1000000) div (65535 * int (unat den))"
    unfolding S_def D_def be16_half_word adc_sample_def
    by (simp only: zdiv_int of_nat_mult of_nat_numeral)
  finally have "micro ?v = \<dots>" .
  moreover have "S mod D * 1000000 div D < 1000000"
    using p(3) by (simp add: div_less_iff_less_mult)
  ultimately show ?thesis by (simp add: p)
qed

fun channel_scale :: "sensor_channel \<Rightarrow> (nat \<times> int \<times> int) option" where
  \<comment> \<open>index of the half word, full scale of the channel as a fraction: volts, amperes, or per cent of
      the charge current for \<open>ICHG\<close>\<close>
  "channel_scale SENSOR_CHAN_GAUGE_VOLTAGE = Some (0, 6, 1)"
| "channel_scale SENSOR_CHAN_BQ2515X_ADC_TS = Some (1, 6, 5)"
| "channel_scale SENSOR_CHAN_BQ2515X_ADC_ICHG = Some (2, 125, 1)"
| "channel_scale SENSOR_CHAN_BQ2515X_ADC_ADCIN = Some (3, 6, 5)"
| "channel_scale SENSOR_CHAN_BQ2515X_ADC_VIN = Some (4, 6, 1)"
| "channel_scale SENSOR_CHAN_BQ2515X_ADC_PMID = Some (5, 6, 1)"
| "channel_scale SENSOR_CHAN_BQ2515X_ADC_IIN = Some (6, 3, 8)"
| "channel_scale SENSOR_CHAN_OTHER = None"

lemma scale_12_10: "x * 12 * 1000000 div (65535 * 10) = x * 6 * 1000000 div (65535 * 5)" for x :: int
  using div_mult_mult2 [of 2 "x * 6 * 1000000" "65535 * 5"] by (simp add: algebra_simps)

lemma scale_375_1000: "x * 375 * 1000000 div (65535 * 1000) = x * 3 * 1000000 div (65535 * 8)"
  for x :: int
  using div_mult_mult2 [of 125 "x * 3 * 1000000" "65535 * 8"] by (simp add: algebra_simps)

lemma adc_channel_converts:
  assumes that: "results data = adc_results_of bs" and assms: "channel_scale chan = Some (i, n, d)"
  shows "\<exists>num den. bq2515x_adc_channel_get chan data =
                     Inr (bq2515x_adc_convert (half_word bs i) num den) \<and>
           unat num \<le> 375 \<and> 0 < unat den \<and> unat den \<le> 1000 \<and>
           (\<forall>x. x * int (unat num) * 1000000 div (65535 * int (unat den))
                  = x * n * 1000000 div (65535 * d))"
proof -
  note facts = that assms
  have ex: "\<exists>num den. r = Inr (bq2515x_adc_convert (half_word bs j) num den) \<and>
              unat num \<le> 375 \<and> 0 < unat den \<and> unat den \<le> 1000 \<and>
              (\<forall>x. x * int (unat num) * 1000000 div (65535 * int (unat den)) = Q x)"
    if "r = Inr (bq2515x_adc_convert (half_word bs j) a b)" "unat a \<le> 375" "0 < unat b"
       "unat b \<le> 1000" "\<And>x. x * int (unat a) * 1000000 div (65535 * int (unat b)) = Q x"
    for r :: "int + sensor_value" and j a b and Q :: "int \<Rightarrow> int"
    using that by blast
  show ?thesis
  proof (cases chan)
    case SENSOR_CHAN_BQ2515X_ADC_IIN
    then show ?thesis using facts
      by (intro ex [where a = 375 and b = 1000])
         (auto simp: bq2515x_adc_channel_get_def adc_results_of_def scale_375_1000 simp del: div_mult_mult1_if)
  next
    case SENSOR_CHAN_BQ2515X_ADC_TS
    then show ?thesis using facts
      by (intro ex [where a = 12 and b = 10])
         (auto simp: bq2515x_adc_channel_get_def adc_results_of_def scale_12_10)
  next
    case SENSOR_CHAN_BQ2515X_ADC_ADCIN
    then show ?thesis using facts
      by (intro ex [where a = 12 and b = 10])
         (auto simp: bq2515x_adc_channel_get_def adc_results_of_def scale_12_10)
  next
    case SENSOR_CHAN_BQ2515X_ADC_ICHG
    then show ?thesis using facts
      by (intro ex [where a = 125 and b = 1]) (auto simp: bq2515x_adc_channel_get_def adc_results_of_def)
  next
    case SENSOR_CHAN_GAUGE_VOLTAGE
    then show ?thesis using facts
      by (intro ex [where a = 6 and b = 1]) (auto simp: bq2515x_adc_channel_get_def adc_results_of_def)
  next
    case SENSOR_CHAN_BQ2515X_ADC_VIN
    then show ?thesis using facts
      by (intro ex [where a = 6 and b = 1]) (auto simp: bq2515x_adc_channel_get_def adc_results_of_def)
  next
    case SENSOR_CHAN_BQ2515X_ADC_PMID
    then show ?thesis using facts
      by (intro ex [where a = 6 and b = 1]) (auto simp: bq2515x_adc_channel_get_def adc_results_of_def)
  qed (use facts in simp)
qed

text \<open>
  Property C16. When the burst read of a sample fetch returned the bytes \<open>bs\<close>, every supported
  channel reads, in millionths, the 16-bit big-endian sample of that channel over 65535 times the
  full scale of the channel, rounded down: no intermediate product overflows. The fractional part is
  normalised.
\<close>
theorem adc_channel_exact:
  assumes "results data = adc_results_of bs" "channel_scale chan = Some (i, n, d)"
  shows "\<exists>v. bq2515x_adc_channel_get chan data = Inr v \<and>
           micro v = (adc_sample bs i * n * 1000000) div (65535 * d) \<and>
           0 \<le> val2 v \<and> val2 v < 1000000"
proof -
  obtain num den where v: "bq2515x_adc_channel_get chan data = Inr (bq2515x_adc_convert (half_word bs i) num den)"
    and b: "unat num \<le> 375" "0 < unat den" "unat den \<le> 1000"
    and eq: "\<And>x. x * int (unat num) * 1000000 div (65535 * int (unat den)) = x * n * 1000000 div (65535 * d)"
    using adc_channel_converts [OF assms] by blast
  show ?thesis using adc_convert_half_word [OF b, of bs i] v unfolding eq by blast
qed

definition half_scale :: bq2515x_adc_data where
  "half_scale = \<lparr>adcctrl0 = 0, results = adc_results_of (replicate 12 0 @ [128, 0]), adc_mfd = mfd_data_init\<rparr>"

lemma adc_channel_exact_witness:
  "\<exists>v. bq2515x_adc_channel_get SENSOR_CHAN_BQ2515X_ADC_IIN half_scale = Inr v \<and> micro v = 187502"
  using adc_channel_exact [of half_scale "replicate 12 0 @ [128, 0]" SENSOR_CHAN_BQ2515X_ADC_IIN 6 3 8]
  by (auto simp: half_scale_def adc_sample_def nth_append)

end
