(* ===== verification/Wav.thy ===== *)
theory Wav
  imports Zephyr
begin

text \<open>
  WAV files, \<^verbatim>\<open>firmware/audio/app/src/wav.c\<close>: opening a file with its header, appending audio data
  up to the limit of the file, and writing the sizes into the header when the file is closed. The file
  system is a parameter: every call to it is an event with a reply, and what a sequence of calls leaves
  in a file is \<open>fs_files\<close>.
\<close>

record wav_format =
  channels :: u16
  sample_rate :: u32
  bits_per_sample :: u16
  max_file_size :: u32

record wav =
  fp :: int              \<comment> \<open>the file, zero when it was never opened\<close>
  bytes_per_frame :: u16
  max_data_size :: u32
  data_size :: u32

record wav_io =
  the_wav :: wav
  wav_calls :: trace

definition fs :: "(trace, 'a) state \<Rightarrow> (wav_io, 'a) state" where
  "fs = zoom wav_calls (\<lambda>t s. s\<lparr>wav_calls := t\<rparr>)"

definition wav_get :: "(wav_io, wav) state" where
  "wav_get = State (\<lambda>s. (the_wav s, s))"

definition wav_upd :: "(wav \<Rightarrow> wav) \<Rightarrow> (wav_io, unit) state" where
  "wav_upd f = State (\<lambda>s. ((), s\<lparr>the_wav := f (the_wav s)\<rparr>))"

lemma run_wav_state [simp]:
  "run_state (fs m) s = (case run_state m (wav_calls s) of (a, t) \<Rightarrow> (a, s\<lparr>wav_calls := t\<rparr>))"
  "run_state wav_get s = (the_wav s, s)"
  "run_state (wav_upd f) s = ((), s\<lparr>the_wav := f (the_wav s)\<rparr>)"
  by (simp_all add: fs_def wav_get_def wav_upd_def)

definition WAV_HEADER_SIZE :: nat where "WAV_HEADER_SIZE = 44"
definition WAV_CHUNK_SIZE_OFFSET :: nat where "WAV_CHUNK_SIZE_OFFSET = 4"
definition WAV_SUBCHUNK_2_SIZE_OFFSET :: nat where "WAV_SUBCHUNK_2_SIZE_OFFSET = 40"

definition ROUND_DOWN :: "u32 \<Rightarrow> u32 \<Rightarrow> u32" where
  "ROUND_DOWN x align = x div align * align"

definition ascii :: "string \<Rightarrow> u8 list" where
  "ascii = map of_char"

definition short_write_error :: "reply \<Rightarrow> int" where
  \<comment> \<open>\<open>-errno\<close>, with \<open>ENOSPC\<close> when \<open>errno\<close> is zero\<close>
  "short_write_error r = (if r_num r = 0 then - ENOSPC else - r_num r)"

definition wav_write_all :: "env \<Rightarrow> u8 list \<Rightarrow> (wav_io, int) state" where
  "wav_write_all env buf =
     do { w \<leftarrow> wav_get;
          r \<leftarrow> fs (ext env (FsWrite (fp w) buf));
          if r_ret r < 0 then return (r_ret r)
          else if r_ret r \<noteq> int (length buf) then return (short_write_error r)
          else return 0 }"

definition wav_write_u16 :: "env \<Rightarrow> u16 \<Rightarrow> (wav_io, int) state" where
  "wav_write_u16 env val = wav_write_all env (put_le16 val)"

definition wav_write_u32 :: "env \<Rightarrow> u32 \<Rightarrow> (wav_io, int) state" where
  "wav_write_u32 env val = wav_write_all env (put_le32 val)"

definition frame_bytes :: "wav_format \<Rightarrow> u16" where
  "frame_bytes fmt = channels fmt * word_of_int ((uint (bits_per_sample fmt) + 7) div 8)"

definition wav_write_header :: "env \<Rightarrow> wav_format \<Rightarrow> (wav_io, int) state" where
  "wav_write_header env fmt =
     (let bpf = frame_bytes fmt;
          byte_rate = sample_rate fmt * ucast bpf;
          max_size = ROUND_DOWN (max_file_size fmt - 44) (ucast bpf) in
      do { wav_upd (\<lambda>w. w\<lparr>bytes_per_frame := bpf, max_data_size := max_size, data_size := 0\<rparr>);
           seq_neg
             [wav_write_all env (ascii ''RIFF''),
              wav_write_u32 env (max_size + 44 - 8),
              wav_write_all env (ascii ''WAVE''),
              wav_write_all env (ascii ''fmt ''),
              wav_write_u32 env 16,
              wav_write_u16 env 1,
              wav_write_u16 env (channels fmt),
              wav_write_u32 env (sample_rate fmt),
              wav_write_u32 env byte_rate,
              wav_write_u16 env bpf,
              wav_write_u16 env (bits_per_sample fmt),
              wav_write_all env (ascii ''data''),
              wav_write_u32 env max_size] })"

definition wav_zero :: wav where
  "wav_zero = \<lparr>fp = 0, bytes_per_frame = 0, max_data_size = 0, data_size = 0\<rparr>"

definition fs_close :: "env \<Rightarrow> (wav_io, int) state" where
  "fs_close env = do { w \<leftarrow> wav_get; fs (ext_ret env (FsClose (fp w))) }"

definition wav_open :: "env \<Rightarrow> string \<Rightarrow> wav_format \<Rightarrow> (wav_io, int) state" where
  "wav_open env name fmt =
     (if channels fmt = 0 then return (- EINVAL)
      else if sample_rate fmt = 0 then return (- EINVAL)
      else if bits_per_sample fmt = 0 then return (- EINVAL)
      else if max_file_size fmt < 44 then return (- EINVAL)
      else do {
        wav_upd (\<lambda>_. wav_zero);
        r \<leftarrow> fs (ext env (FsOpen name));
        if r_ret r < 0 then return (r_ret r)
        else do {
          wav_upd (\<lambda>w. w\<lparr>fp := r_num r\<rparr>);
          ret \<leftarrow> wav_write_header env fmt;
          if ret < 0 then do { _ \<leftarrow> fs_close env; return ret }
          else return 0 } })"

definition wav_write :: "env \<Rightarrow> u8 list \<Rightarrow> u32 \<Rightarrow> (wav_io, int) state" where
  \<comment> \<open>\<open>buf\<close> is the buffer from the pointer on, of which the first \<open>len\<close> bytes are meant\<close>
  "wav_write env buf len =
     do { w \<leftarrow> wav_get;
          let len = (if data_size w + len > max_data_size w then max_data_size w - data_size w else len);
          r \<leftarrow> fs (ext env (FsWrite (fp w) (take (unat len) buf)));
          if r_ret r < 0 then return (r_ret r)
          else if r_ret r \<noteq> uint len then
            do { wav_upd (\<lambda>w. w\<lparr>data_size := data_size w + word_of_int (r_ret r)\<rparr>);
                 return (short_write_error r) }
          else
            do { wav_upd (\<lambda>w. w\<lparr>data_size := data_size w + len\<rparr>); return (sint len) } }"

definition wav_update_size :: "env \<Rightarrow> (wav_io, int) state" where
  "wav_update_size env =
     do { w \<leftarrow> wav_get;
          let size = ROUND_DOWN (data_size w) (ucast (bytes_per_frame w));
          ret \<leftarrow> seq_neg
            [fs (ext_ret env (FsSeekSet (fp w) WAV_CHUNK_SIZE_OFFSET)),
             wav_write_u32 env (size + 44 - 8),
             fs (ext_ret env (FsSeekSet (fp w) WAV_SUBCHUNK_2_SIZE_OFFSET)),
             wav_write_u32 env size,
             fs (ext_ret env (FsSeekEnd (fp w)))];
          return (if ret < 0 then ret else 0) }"

definition wav_close :: "env \<Rightarrow> (wav_io, int) state" where
  "wav_close env =
     do { ret \<leftarrow> wav_update_size env;
          ret_close \<leftarrow> fs_close env;
          return (if ret = 0 then ret_close else ret) }"

definition wav_close_no_update :: "env \<Rightarrow> (wav_io, int) state" where
  "wav_close_no_update env = fs_close env"

lemma length_ascii [simp]: "length (ascii s) = length s"
  by (simp add: ascii_def)

section \<open>What the file system calls leave in a file\<close>

text \<open>
  A file is its content and the position of the next transfer. A write that returns \<open>n\<close> transferred the
  first \<open>n\<close> bytes of its buffer, a call that returns an error transferred nothing.
\<close>

record fs_file =
  content :: "u8 list"
  pos :: nat

fun fs_step :: "(int \<Rightarrow> fs_file) \<Rightarrow> ext_call \<times> reply \<Rightarrow> int \<Rightarrow> fs_file" where
  "fs_step F (FsOpen name, r) =
     (if r_ret r < 0 then F else F(r_num r := \<lparr>content = [], pos = 0\<rparr>))"
| "fs_step F (FsWrite h bs, r) =
     (if r_ret r < 0 then F
      else let out = take (nat (r_ret r)) bs in
           F(h := \<lparr>content = blit (pos (F h)) out (content (F h)), pos = pos (F h) + length out\<rparr>))"
| "fs_step F (FsSeekSet h n, r) = (if r_ret r < 0 then F else F(h := (F h)\<lparr>pos := n\<rparr>))"
| "fs_step F (FsSeekEnd h, r) = (if r_ret r < 0 then F else F(h := (F h)\<lparr>pos := length (content (F h))\<rparr>))"
| "fs_step F (_, r) = F"

definition fs_files :: "trace \<Rightarrow> int \<Rightarrow> fs_file" where
  "fs_files tr = foldl fs_step (\<lambda>_. \<lparr>content = [], pos = 0\<rparr>) tr"

lemma fs_files_snoc [simp]: "fs_files (tr @ [ev]) = fs_step (fs_files tr) ev"
  by (simp add: fs_files_def)

text \<open>A file system never reports more bytes than it was given, and \<open>errno\<close> is not negative.\<close>

definition fs_honest :: "env \<Rightarrow> bool" where
  "fs_honest env \<longleftrightarrow>
     (\<forall>tr h bs. r_ret (env tr (FsWrite h bs)) \<le> int (length bs) \<and> 0 \<le> r_num (env tr (FsWrite h bs)))"

lemma fs_honestD:
  assumes "fs_honest env"
  shows "r_ret (env tr (FsWrite h bs)) \<le> int (length bs)"
    and "short_write_error (env tr (FsWrite h bs)) < 0"
    and "0 \<le> short_write_error (env tr (FsWrite h bs)) \<longleftrightarrow> False"
proof -
  have "r_ret (env tr (FsWrite h bs)) \<le> int (length bs) \<and> 0 \<le> r_num (env tr (FsWrite h bs))"
    using assms by (simp add: fs_honest_def)
  then show "r_ret (env tr (FsWrite h bs)) \<le> int (length bs)"
    "short_write_error (env tr (FsWrite h bs)) < 0"
    "0 \<le> short_write_error (env tr (FsWrite h bs)) \<longleftrightarrow> False"
    unfolding short_write_error_def by (auto; linarith)+
qed

definition wav_file :: "wav_io \<Rightarrow> fs_file" where
  "wav_file s = fs_files (wav_calls s) (fp (the_wav s))"

section \<open>Sinks that data is appended to\<close>

text \<open>
  The contract between a recorder and the file it fills: \<open>holds s D\<close> says that the sink in state \<open>s\<close>
  contains the data \<open>D\<close>; a write appends a prefix of what it is given, and the whole of it, up to the
  capacity of the sink, when it reports no error.
\<close>

locale data_sink =
  fixes sink_write :: "u8 list \<Rightarrow> ('s, int) state"
    and sink_holds :: "'s \<Rightarrow> u8 list \<Rightarrow> bool"
    and capacity :: nat
  assumes holds_bound: "sink_holds s D \<Longrightarrow> length D \<le> capacity"
    and write_appends: "sink_holds s D \<Longrightarrow> length buf < 2 ^ 31 \<Longrightarrow> run_state (sink_write buf) s = (r, s') \<Longrightarrow>
      \<exists>n \<le> length buf. sink_holds s' (D @ take n buf) \<and>
        (0 \<le> r \<longrightarrow> n = min (length buf) (capacity - length D) \<and> r = int n)"
begin

fun sink_writes :: "u8 list list \<Rightarrow> ('s, int) state" where
  "sink_writes [] = return 0"
| "sink_writes (b # bs) = do { r \<leftarrow> sink_write b; if r < 0 then return r else sink_writes bs }"

lemma writes_append:
  assumes "sink_holds s D" "\<forall>b \<in> set bs. length b < 2 ^ 31" "run_state (sink_writes bs) s = (r, s')"
  shows "\<exists>n. sink_holds s' (D @ take n (concat bs)) \<and>
           (0 \<le> r \<longrightarrow> D @ take n (concat bs) = take capacity (D @ concat bs))"
  using assms
proof (induction bs arbitrary: s D)
  case Nil
  then show ?case using holds_bound [of s D] by auto
next
  case (Cons b bs)
  obtain r1 s1 where w: "run_state (sink_write b) s = (r1, s1)" by fastforce
  with Cons.prems write_appends [of s D b r1 s1]
  obtain n where n: "n \<le> length b" "sink_holds s1 (D @ take n b)"
    "0 \<le> r1 \<longrightarrow> n = min (length b) (capacity - length D) \<and> r1 = int n" by auto
  show ?case
  proof (cases "r1 < 0")
    case True
    with Cons.prems w have "r = r1" "s' = s1" by auto
    with n True show ?thesis by (intro exI [of _ n]) simp
  next
    case False
    then have nn: "n = min (length b) (capacity - length D)" using n(3) by simp
    from False Cons.prems w have "run_state (sink_writes bs) s1 = (r, s')" by simp
    with Cons.IH [OF n(2)] Cons.prems obtain m where
      m: "sink_holds s' ((D @ take n b) @ take m (concat bs))"
         "0 \<le> r \<longrightarrow> (D @ take n b) @ take m (concat bs) = take capacity ((D @ take n b) @ concat bs)"
      by auto
    have full: "take m (concat bs) = []" if "n \<noteq> length b"
    proof -
      have "capacity = length D + n" using that nn holds_bound [OF Cons.prems(1)] by auto
      then have "length (take m (concat bs)) = 0" using holds_bound [OF m(1)] n(1) by simp
      then show ?thesis by (simp only: length_0_conv)
    qed
    show ?thesis
    proof (cases "n = length b")
      case True
      then show ?thesis using m by (intro exI [of _ "length b + m"]) simp
    next
      case False
      then have e: "take m (concat bs) = []" and n': "n < length b" using full n(1) by auto
      have "length D + n = capacity" using False nn holds_bound [OF Cons.prems(1)] by auto
      then show ?thesis using m n' unfolding e by (intro exI [of _ n]) simp
    qed
  qed
qed

end

section \<open>Proofs about files\<close>

definition wav_header :: "wav_format \<Rightarrow> u32 \<Rightarrow> u32 \<Rightarrow> u8 list" where
  \<comment> \<open>the header of a file with the given chunk size and data size\<close>
  "wav_header fmt chunk data =
     ascii ''RIFF'' @ put_le32 chunk @
     (ascii ''WAVE'' @ ascii ''fmt '' @ put_le32 16 @ put_le16 1 @ put_le16 (channels fmt) @
      put_le32 (sample_rate fmt) @ put_le32 (sample_rate fmt * ucast (frame_bytes fmt)) @
      put_le16 (frame_bytes fmt) @ put_le16 (bits_per_sample fmt) @ ascii ''data'') @ put_le32 data"

lemma length_wav_header [simp]: "length (wav_header fmt c d) = 44"
  by (simp add: wav_header_def)

lemma blit_header:
  "blit 4 (put_le32 c') (wav_header fmt c d @ D) = wav_header fmt c' d @ D"
  "blit 40 (put_le32 d') (wav_header fmt c d @ D) = wav_header fmt c d' @ D"
  by (simp_all add: wav_header_def blit_def ascii_def numeral_nat)

lemma blit_append: "blit (length xs) ys xs = xs @ ys"
  by (simp add: blit_def)

definition wav_limit :: "wav_format \<Rightarrow> u32" where
  "wav_limit fmt = ROUND_DOWN (max_file_size fmt - 44) (ucast (frame_bytes fmt))"

definition wav_holds :: "wav_format \<Rightarrow> wav_io \<Rightarrow> u8 list \<Rightarrow> bool" where
  "wav_holds fmt s D \<longleftrightarrow>
     (\<exists>c d. content (wav_file s) = wav_header fmt c d @ D) \<and> pos (wav_file s) = 44 + length D \<and>
     data_size (the_wav s) = of_nat (length D) \<and> length D \<le> unat (wav_limit fmt) \<and>
     bytes_per_frame (the_wav s) = frame_bytes fmt \<and> max_data_size (the_wav s) = wav_limit fmt"

lemma wav_write_all_effect:
  assumes "fs_honest env" "run_state (wav_write_all env bs) s = (r, s')" "0 \<le> r"
  shows "r = 0 \<and> the_wav s' = the_wav s \<and>
    content (wav_file s') = blit (pos (wav_file s)) bs (content (wav_file s)) \<and>
    pos (wav_file s') = pos (wav_file s) + length bs"
  using assms(2,3)
  by (auto simp: wav_write_all_def wav_file_def not_less fs_honestD(3) [OF assms(1)] split: if_splits)

lemma wav_write_alls_effect:
  assumes "fs_honest env" "run_state (seq_neg (map (wav_write_all env) ps)) s = (r, s')" "0 \<le> r"
    and "pos (wav_file s) = length (content (wav_file s))"
  shows "the_wav s' = the_wav s \<and> content (wav_file s') = content (wav_file s) @ concat ps \<and>
    pos (wav_file s') = length (content (wav_file s'))"
  using assms(2-)
proof (induction ps arbitrary: s rule: induct_list012)
  case 1
  then show ?case by simp
next
  case (2 p)
  then show ?case using wav_write_all_effect [OF assms(1), of p s r s'] by (simp add: blit_append)
next
  case (3 p q ps)
  obtain r1 s1 where w: "run_state (wav_write_all env p) s = (r1, s1)" by fastforce
  with 3 have nn: "0 \<le> r1" by (auto split: if_splits)
  note e = wav_write_all_effect [OF assms(1) w nn]
  have "run_state (seq_neg (map (wav_write_all env) (q # ps))) s1 = (r, s')"
    using 3(3) w nn by (simp split: if_splits)
  from 3(2) [OF this \<open>0 \<le> r\<close>] show ?case using e 3(5) by (simp add: blit_append)
qed

definition header_pieces :: "wav_format \<Rightarrow> u8 list list" where
  "header_pieces fmt =
     [ascii ''RIFF'', put_le32 (wav_limit fmt + 44 - 8), ascii ''WAVE'', ascii ''fmt '',
      put_le32 16, put_le16 1, put_le16 (channels fmt), put_le32 (sample_rate fmt),
      put_le32 (sample_rate fmt * ucast (frame_bytes fmt)), put_le16 (frame_bytes fmt),
      put_le16 (bits_per_sample fmt), ascii ''data'', put_le32 (wav_limit fmt)]"

lemma wav_open_run:
  assumes "run_state (wav_open env name fmt) s = (r, s')" "0 \<le> r"
  defines "rep \<equiv> env (wav_calls s) (FsOpen name)"
  defines "s0 \<equiv> s\<lparr>wav_calls := wav_calls s @ [(FsOpen name, rep)], the_wav := \<lparr>fp = r_num rep,
    bytes_per_frame = frame_bytes fmt, max_data_size = wav_limit fmt, data_size = 0\<rparr>\<rparr>"
  shows "0 \<le> r_ret rep \<and> 44 \<le> max_file_size fmt \<and>
    (\<exists>r1. run_state (seq_neg (map (wav_write_all env) (header_pieces fmt))) s0 = (r1, s') \<and> 0 \<le> r1)"
proof -
  have dom: "44 \<le> max_file_size fmt" "0 \<le> r_ret rep"
    "channels fmt \<noteq> 0" "sample_rate fmt \<noteq> 0" "bits_per_sample fmt \<noteq> 0"
    using assms(1,2) by (auto simp: wav_open_def rep_def not_less split: if_splits)
  obtain r1 s1 where w: "run_state (seq_neg (map (wav_write_all env) (header_pieces fmt))) s0 = (r1, s1)"
    by fastforce
  then have "(r1 < 0 \<longrightarrow> r = r1) \<and> (0 \<le> r1 \<longrightarrow> s' = s1)"
    using assms(1) dom
    by (auto simp: wav_open_def wav_write_header_def wav_write_u16_def wav_write_u32_def Let_def rep_def
        wav_zero_def s0_def wav_limit_def header_pieces_def fs_close_def
        split: if_splits prod.splits simp del: seq_neg.simps)
  then have "0 \<le> r1" "s' = s1" using assms(2) by auto
  then show ?thesis using dom w by blast
qed

lemma wav_open_holds:
  assumes "fs_honest env" "run_state (wav_open env name fmt) s = (r, s')" "0 \<le> r"
  shows "wav_holds fmt s' [] \<and> 44 \<le> max_file_size fmt"
proof -
  let ?rep = "env (wav_calls s) (FsOpen name)"
  define s0 where "s0 = s\<lparr>wav_calls := wav_calls s @ [(FsOpen name, ?rep)], the_wav := \<lparr>fp = r_num ?rep,
    bytes_per_frame = frame_bytes fmt, max_data_size = wav_limit fmt, data_size = 0\<rparr>\<rparr>"
  obtain r1 where w: "run_state (seq_neg (map (wav_write_all env) (header_pieces fmt))) s0 = (r1, s')"
    "0 \<le> r1" and dom: "0 \<le> r_ret ?rep" "44 \<le> max_file_size fmt"
    using wav_open_run [OF assms(2,3)] by (auto simp: s0_def)
  have "wav_file s0 = \<lparr>content = [], pos = 0\<rparr>" using dom by (simp add: s0_def wav_file_def)
  then have "the_wav s' = the_wav s0" "content (wav_file s') = concat (header_pieces fmt)"
    "pos (wav_file s') = length (content (wav_file s'))"
    using wav_write_alls_effect [OF assms(1) w] by simp_all
  moreover have "concat (header_pieces fmt) = wav_header fmt (wav_limit fmt + 44 - 8) (wav_limit fmt)"
    by (simp add: wav_header_def header_pieces_def)
  ultimately show ?thesis using dom by (auto simp: wav_holds_def s0_def)
qed

lemma wav_holds_append:
  assumes "wav_holds fmt s D" "0 \<le> r_ret rep" "out = take (nat (r_ret rep)) bs"
    and "length D + length out \<le> unat (wav_limit fmt)"
  shows "wav_holds fmt (s\<lparr>wav_calls := wav_calls s @ [(FsWrite (fp (the_wav s)) bs, rep)],
    the_wav := (the_wav s)\<lparr>data_size := data_size (the_wav s) + of_nat (length out)\<rparr>\<rparr>) (D @ out)"
proof -
  obtain c d where "content (wav_file s) = wav_header fmt c d @ D"
    using assms(1) by (auto simp: wav_holds_def)
  then have "blit (44 + length D) out (content (wav_file s)) = wav_header fmt c d @ D @ out"
    by (simp add: blit_def)
  then show ?thesis using assms by (auto simp: wav_holds_def wav_file_def Let_def)
qed

lemma wav_write_holds:
  assumes "fs_honest env" "wav_holds fmt s D" "length buf < 2 ^ 31"
    and "run_state (wav_write env buf (of_nat (length buf))) s = (r, s')"
    and fits: "unat (wav_limit fmt) + 2 ^ 31 \<le> 2 ^ 32"
  shows "\<exists>n \<le> length buf. wav_holds fmt s' (D @ take n buf) \<and>
    (0 \<le> r \<longrightarrow> n = min (length buf) (unat (wav_limit fmt) - length D) \<and> r = int n)"
proof -
  let ?w = "the_wav s" and ?lim = "unat (wav_limit fmt)"
  define len :: u32 where "len = (if data_size ?w + of_nat (length buf) > max_data_size ?w
    then max_data_size ?w - data_size ?w else of_nat (length buf))"
  define k where "k = min (length buf) (?lim - length D)"
  have D: "length D \<le> ?lim" "unat (of_nat (length D) :: u32) = length D"
    "data_size ?w = of_nat (length D)" "max_data_size ?w = wav_limit fmt"
    using assms(2) fits by (auto simp: wav_holds_def unat_of_nat)
  have len: "unat len = k"
    using D assms(3) fits
    by (auto simp: len_def k_def word_less_nat_alt unat_word_ariths unat_of_nat unat_sub word_le_nat_alt)
  have k: "k \<le> length buf" "length D + k \<le> ?lim" "k < 2 ^ 31"
    using D assms(3) by (auto simp: k_def)
  let ?c = "FsWrite (fp ?w) (take k buf)"
  let ?rep = "env (wav_calls s) ?c"
  have app: "wav_holds fmt (s\<lparr>wav_calls := wav_calls s @ [(?c, ?rep)],
      the_wav := ?w\<lparr>data_size := data_size ?w + of_nat n\<rparr>\<rparr>) (D @ take n buf)"
    if "0 \<le> r_ret ?rep" "n = nat (r_ret ?rep)" "n \<le> k" for n
    using wav_holds_append [OF assms(2) that(1), of "take n buf" "take k buf"] that k(1,2)
    by (simp add: min_absorb1)
  have bound: "r_ret ?rep \<le> int k"
    using fs_honestD(1) [OF assms(1), of "wav_calls s" "fp ?w" "take k buf"] k by simp
  have run: "run_state (wav_write env buf (of_nat (length buf))) s =
    (if r_ret ?rep < 0 then (r_ret ?rep, s\<lparr>wav_calls := wav_calls s @ [(?c, ?rep)]\<rparr>)
     else if r_ret ?rep \<noteq> int k then
       (short_write_error ?rep, s\<lparr>wav_calls := wav_calls s @ [(?c, ?rep)],
          the_wav := ?w\<lparr>data_size := data_size ?w + word_of_int (r_ret ?rep)\<rparr>\<rparr>)
     else (sint len, s\<lparr>wav_calls := wav_calls s @ [(?c, ?rep)],
          the_wav := ?w\<lparr>data_size := data_size ?w + len\<rparr>\<rparr>))"
    unfolding wav_write_def len_def [symmetric] len [symmetric] Let_def
    by (simp add: len_def)
  consider "r_ret ?rep < 0" | "0 \<le> r_ret ?rep" "r_ret ?rep \<noteq> int k" | "r_ret ?rep = int k" by linarith
  then show ?thesis
  proof cases
    case 1
    then have "r < 0" "s' = s\<lparr>wav_calls := wav_calls s @ [(?c, ?rep)]\<rparr>" using assms(4) run by auto
    moreover from this have "wav_holds fmt s' (D @ take 0 buf)"
      using assms(2) 1 by (simp add: wav_holds_def wav_file_def)
    ultimately show ?thesis by (intro exI [of _ 0]) simp
  next
    case 2
    define n where "n = nat (r_ret ?rep)"
    have rn: "word_of_int (r_ret ?rep) = (of_nat n :: u32)" using 2 by (simp add: n_def)
    have "r = short_write_error ?rep" "s' = s\<lparr>wav_calls := wav_calls s @ [(?c, ?rep)],
        the_wav := ?w\<lparr>data_size := data_size ?w + of_nat n\<rparr>\<rparr>"
      using assms(4) run 2 unfolding rn by simp_all
    moreover have "n \<le> k" using bound 2 by (simp add: n_def)
    ultimately show ?thesis
      using app [OF 2(1) n_def] fs_honestD(2) [OF assms(1), of "wav_calls s" "fp ?w" "take k buf"] k(1)
      by (intro exI [of _ n]) auto
  next
    case 3
    have "of_nat k = len" by (simp flip: len)
    moreover have "sint len = int k"
      using k(3) by (simp add: sint_uint uint_nat len signed_take_bit_int_eq_self del: of_nat_unat)
    ultimately have "r = int k" "s' = s\<lparr>wav_calls := wav_calls s @ [(?c, ?rep)],
        the_wav := ?w\<lparr>data_size := data_size ?w + of_nat k\<rparr>\<rparr>"
      using assms(4) run 3 by simp_all
    then show ?thesis using app [of k] 3 k(1) by (intro exI [of _ k]) (simp add: k_def)
  qed
qed

text \<open>The contract of a sink, for the files of a file system that is honest.\<close>

definition wav_sink_holds :: "env \<Rightarrow> wav_format \<Rightarrow> wav_io \<Rightarrow> u8 list \<Rightarrow> bool" where
  "wav_sink_holds env fmt s D \<longleftrightarrow>
     fs_honest env \<and> unat (wav_limit fmt) + 2 ^ 31 \<le> 2 ^ 32 \<and> wav_holds fmt s D"

interpretation wav_sink: data_sink "\<lambda>buf. wav_write env buf (of_nat (length buf))"
  "wav_sink_holds env fmt" "unat (wav_limit fmt)"
proof
  show "length D \<le> unat (wav_limit fmt)" if "wav_sink_holds env fmt s D" for s D
    using that by (auto simp: wav_sink_holds_def wav_holds_def)
next
  show "\<exists>n \<le> length buf. wav_sink_holds env fmt s' (D @ take n buf) \<and>
      (0 \<le> r \<longrightarrow> n = min (length buf) (unat (wav_limit fmt) - length D) \<and> r = int n)"
    if "wav_sink_holds env fmt s D" "length buf < 2 ^ 31"
      "run_state (wav_write env buf (of_nat (length buf))) s = (r, s')" for s D buf r s'
    using wav_write_holds [of env fmt s D buf r s'] that unfolding wav_sink_holds_def by blast
qed

section \<open>Closing a file\<close>

definition whole_frames :: "wav_format \<Rightarrow> u8 list \<Rightarrow> nat" where
  \<comment> \<open>the bytes of the complete frames of the data\<close>
  "whole_frames fmt D = length D - length D mod unat (frame_bytes fmt)"

lemma ROUND_DOWN_frames:
  assumes "length D < 2 ^ 32"
  shows "ROUND_DOWN (of_nat (length D)) (ucast (frame_bytes fmt)) = of_nat (whole_frames fmt D)"
proof -
  have "unat (of_nat (length D) :: u32) = length D" using assms by (simp add: unat_of_nat)
  moreover have "length D div unat (frame_bytes fmt) * unat (frame_bytes fmt) = whole_frames fmt D"
    by (simp add: whole_frames_def minus_mod_eq_div_mult)
  moreover have "whole_frames fmt D < 2 ^ 32" using assms by (simp add: whole_frames_def)
  moreover have "length D div unat (frame_bytes fmt) < 2 ^ 32"
    using assms div_le_dividend le_less_trans by blast
  ultimately have u: "whole_frames fmt D = unat (ROUND_DOWN (of_nat (length D)) (ucast (frame_bytes fmt)))"
    by (simp add: ROUND_DOWN_def unat_word_ariths unat_div)
  show ?thesis unfolding u by simp
qed

lemma seek_set_effect:
  assumes "run_state (fs (ext_ret env (FsSeekSet (fp (the_wav s)) n))) s = (r, s')" "0 \<le> r"
  shows "the_wav s' = the_wav s \<and> content (wav_file s') = content (wav_file s) \<and> pos (wav_file s') = n"
  using assms by (auto simp: wav_file_def)

lemma seek_end_effect:
  assumes "run_state (fs (ext_ret env (FsSeekEnd (fp (the_wav s))))) s = (r, s')" "0 \<le> r"
  shows "the_wav s' = the_wav s \<and> content (wav_file s') = content (wav_file s) \<and>
    pos (wav_file s') = length (content (wav_file s))"
  using assms by (auto simp: wav_file_def)

lemma seq_neg_ConsD:
  assumes "run_state (seq_neg (m # n # ms)) s = (r, s')" "0 \<le> r"
  obtains r1 s1 where "run_state m s = (r1, s1)" "0 \<le> r1" "run_state (seq_neg (n # ms)) s1 = (r, s')"
  using assms by (cases "run_state m s") (auto split: if_splits)

lemma wav_update_size_holds:
  assumes "fs_honest env" "wav_holds fmt s D" "run_state (wav_update_size env) s = (r, s')" "0 \<le> r"
  shows "content (wav_file s') = wav_header fmt (of_nat (whole_frames fmt D) + 36) (of_nat (whole_frames fmt D)) @ D \<and>
    wav_holds fmt s' D"
proof -
  let ?w = "the_wav s" and ?n = "of_nat (whole_frames fmt D) :: u32"
  obtain c d where s: "content (wav_file s) = wav_header fmt c d @ D" "length D \<le> unat (wav_limit fmt)"
    "data_size ?w = of_nat (length D)" "bytes_per_frame ?w = frame_bytes fmt" "max_data_size ?w = wav_limit fmt"
    using assms(2) by (auto simp: wav_holds_def)
  have "length D < 2 ^ 32" using s(2) unat_u32_less [of "wav_limit fmt"] by linarith
  then have size: "ROUND_DOWN (data_size ?w) (ucast (bytes_per_frame ?w)) = ?n"
    using s(3,4) ROUND_DOWN_frames by simp
  obtain r0 where run: "run_state (seq_neg
      [fs (ext_ret env (FsSeekSet (fp ?w) 4)), wav_write_all env (put_le32 (?n + 36)),
       fs (ext_ret env (FsSeekSet (fp ?w) 40)), wav_write_all env (put_le32 ?n),
       fs (ext_ret env (FsSeekEnd (fp ?w)))]) s = (r0, s')" "0 \<le> r0"
    using assms(3,4) size
    by (auto simp: wav_update_size_def Let_def WAV_CHUNK_SIZE_OFFSET_def WAV_SUBCHUNK_2_SIZE_OFFSET_def
        wav_write_u32_def add.commute simp del: seq_neg.simps run_wav_state(1) split: prod.splits if_splits)
  from seq_neg_ConsD [OF run] obtain r1 s1 where 1: "run_state (fs (ext_ret env (FsSeekSet (fp ?w) 4))) s = (r1, s1)"
    "0 \<le> r1" and run1: "run_state (seq_neg [wav_write_all env (put_le32 (?n + 36)),
       fs (ext_ret env (FsSeekSet (fp ?w) 40)), wav_write_all env (put_le32 ?n),
       fs (ext_ret env (FsSeekEnd (fp ?w)))]) s1 = (r0, s')" .
  note e1 = seek_set_effect [OF 1]
  from seq_neg_ConsD [OF run1 run(2)] obtain r2 s2 where
    2: "run_state (wav_write_all env (put_le32 (?n + 36))) s1 = (r2, s2)" "0 \<le> r2"
    and run2: "run_state (seq_neg [fs (ext_ret env (FsSeekSet (fp ?w) 40)), wav_write_all env (put_le32 ?n),
       fs (ext_ret env (FsSeekEnd (fp ?w)))]) s2 = (r0, s')" .
  note e2 = wav_write_all_effect [OF assms(1) 2]
  from seq_neg_ConsD [OF run2 run(2)] obtain r3 s3 where
    3: "run_state (fs (ext_ret env (FsSeekSet (fp ?w) 40))) s2 = (r3, s3)" "0 \<le> r3"
    and run3: "run_state (seq_neg [wav_write_all env (put_le32 ?n),
       fs (ext_ret env (FsSeekEnd (fp ?w)))]) s3 = (r0, s')" .
  have w2: "the_wav s2 = ?w" using e1 e2 by simp
  note e3 = seek_set_effect [OF 3(1) [folded w2] 3(2)]
  from seq_neg_ConsD [OF run3 run(2)] obtain r4 s4 where
    4: "run_state (wav_write_all env (put_le32 ?n)) s3 = (r4, s4)" "0 \<le> r4"
    and run4: "run_state (seq_neg [fs (ext_ret env (FsSeekEnd (fp ?w)))]) s4 = (r0, s')" .
  note e4 = wav_write_all_effect [OF assms(1) 4]
  have w4: "the_wav s4 = ?w" using e3 e4 w2 by simp
  have "run_state (fs (ext_ret env (FsSeekEnd (fp (the_wav s4))))) s4 = (r0, s')"
    using run4 unfolding seq_neg.simps(2) w4 .
  note e5 = seek_end_effect [OF this run(2)]
  have "content (wav_file s4) = wav_header fmt (?n + 36) ?n @ D"
    using e1 e2 e3 e4 s(1) by (simp add: blit_header)
  with e5 w4 s show ?thesis by (auto simp: wav_holds_def)
qed

text \<open>
  How a reader takes a WAV file apart: the tags at their offsets, the format, the two sizes, and the
  data behind the header.
\<close>

definition wav_parses :: "u8 list \<Rightarrow> wav_format \<Rightarrow> nat \<Rightarrow> u8 list \<Rightarrow> bool" where
  "wav_parses f fmt n D \<longleftrightarrow>
     slice 0 4 f = ascii ''RIFF'' \<and> unat (get_le32 (drop 4 f)) = n + 36 \<and>
     slice 8 8 f = ascii ''WAVEfmt '' \<and> get_le32 (drop 16 f) = 16 \<and> get_le16 (drop 20 f) = 1 \<and>
     get_le16 (drop 22 f) = channels fmt \<and> get_le32 (drop 24 f) = sample_rate fmt \<and>
     get_le16 (drop 32 f) = frame_bytes fmt \<and> get_le16 (drop 34 f) = bits_per_sample fmt \<and>
     slice 36 4 f = ascii ''data'' \<and> unat (get_le32 (drop 40 f)) = n \<and> drop 44 f = D"

lemma wav_header_parses:
  assumes "n + 36 < 2 ^ 32"
  shows "wav_parses (wav_header fmt (of_nat n + 36) (of_nat n) @ D) fmt n D"
proof -
  let ?h = "wav_header fmt (of_nat n + 36) (of_nat n) @ D"
  note defs = wav_header_def
  have "drop 4 ?h = put_le32 (of_nat n + 36) @ drop 8 ?h" "drop 16 ?h = put_le32 16 @ drop 20 ?h"
    "drop 20 ?h = put_le16 1 @ drop 22 ?h" "drop 22 ?h = put_le16 (channels fmt) @ drop 24 ?h"
    "drop 24 ?h = put_le32 (sample_rate fmt) @ drop 28 ?h" "drop 32 ?h = put_le16 (frame_bytes fmt) @ drop 34 ?h"
    "drop 34 ?h = put_le16 (bits_per_sample fmt) @ drop 36 ?h" "drop 40 ?h = put_le32 (of_nat n) @ drop 44 ?h"
    "drop 44 ?h = D" "slice 0 4 ?h = ascii ''RIFF''" "slice 8 8 ?h = ascii ''WAVE'' @ ascii ''fmt ''"
    "slice 36 4 ?h = ascii ''data''"
    by (simp_all add: defs slice_def)
  moreover have "unat (of_nat n + 36 :: u32) = n + 36" "unat (of_nat n :: u32) = n"
    using assms by (simp_all add: unat_word_ariths unat_of_nat)
  ultimately show ?thesis
    by (simp add: wav_parses_def ascii_def)
qed

text \<open>
  A recording as its user makes it: open the file, write the buffers until a write fails, close it.
\<close>

definition wav_session :: "env \<Rightarrow> string \<Rightarrow> wav_format \<Rightarrow> u8 list list \<Rightarrow> (wav_io, int \<times> int) state" where
  "wav_session env name fmt bufs =
     do { r \<leftarrow> wav_open env name fmt;
          if r < 0 then return (r, r)
          else do { r \<leftarrow> wav_sink.sink_writes env bufs;
                    c \<leftarrow> wav_close env;
                    return (r, c) } }"

text \<open>
  Property C17. When a file is opened, filled and closed without an error from the open and the close,
  it parses as a WAV file of its format whose data is a prefix of what was written, and as much of it
  as the size limit allows when no write failed. The sizes in the header count the complete frames of
  that data, and the file never exceeds its limit, whatever the sequence of writes and short writes was.
\<close>
theorem wav_session_complete:
  assumes "fs_honest env" "unat (max_file_size fmt) < 2 ^ 31" "frame_bytes fmt \<noteq> 0"
    and "\<forall>b \<in> set bufs. length b < 2 ^ 31"
    and "run_state (wav_session env name fmt bufs) s = ((r, 0), s')"
  shows "\<exists>D. wav_parses (content (wav_file s')) fmt (whole_frames fmt D) D \<and>
    44 + length D \<le> unat (max_file_size fmt) \<and> (\<exists>k. D = take k (concat bufs)) \<and>
    (0 \<le> r \<longrightarrow> D = take (unat (wav_limit fmt)) (concat bufs))"
proof -
  obtain r1 s1 where 1: "run_state (wav_open env name fmt) s = (r1, s1)" by fastforce
  obtain r2 s2 where 2: "run_state (wav_sink.sink_writes env bufs) s1 = (r2, s2)" by fastforce
  obtain r3 s3 where 3: "run_state (wav_update_size env) s2 = (r3, s3)" by fastforce
  have r1: "0 \<le> r1" and r3: "r3 = 0" "r = r2" and s': "content (wav_file s') = content (wav_file s3)"
    using assms(5) 1 2 3
    by (auto simp: wav_session_def wav_close_def fs_close_def wav_file_def not_less split: if_splits)
  have o: "wav_holds fmt s1 []" "44 \<le> max_file_size fmt" using wav_open_holds [OF assms(1) 1 r1] by auto
  let ?m = "unat (max_file_size fmt - 44)"
  have m: "?m + 44 = unat (max_file_size fmt)" using o(2) by (simp add: unat_sub word_le_nat_alt)
  have lim: "unat (wav_limit fmt) \<le> ?m"
    using word_div_mult_le [of "max_file_size fmt - 44" "ucast (frame_bytes fmt)"]
    by (simp add: wav_limit_def ROUND_DOWN_def word_le_nat_alt)
  with o m assms(1,2) have "wav_sink_holds env fmt s1 []" by (simp add: wav_sink_holds_def)
  from wav_sink.writes_append [OF this assms(4) 2] obtain k where
    k: "wav_sink_holds env fmt s2 (take k (concat bufs))"
    "0 \<le> r2 \<longrightarrow> take k (concat bufs) = take (unat (wav_limit fmt)) (concat bufs)" by auto
  define D where "D = take k (concat bufs)"
  have h: "wav_holds fmt s2 D" using k(1) by (simp add: wav_sink_holds_def D_def)
  have u: "content (wav_file s3) = wav_header fmt (of_nat (whole_frames fmt D) + 36) (of_nat (whole_frames fmt D)) @ D"
    using wav_update_size_holds [OF assms(1) h 3] r3 by simp
  have len: "44 + length D \<le> unat (max_file_size fmt)"
    using h lim m by (simp add: wav_holds_def)
  then have "whole_frames fmt D + 36 < 2 ^ 32" using assms(2) by (simp add: whole_frames_def)
  from wav_header_parses [OF this, of fmt D] show ?thesis
    using len k(2) r3 unfolding s' u D_def by blast
qed

definition full_write_env :: env where
  \<comment> \<open>a file system that accepts everything; its files are numbered three\<close>
  "full_write_env tr c =
     (case c of FsWrite h bs \<Rightarrow> quiet_reply\<lparr>r_ret := int (length bs)\<rparr>
      | FsOpen name \<Rightarrow> quiet_reply\<lparr>r_num := 3\<rparr>
      | _ \<Rightarrow> quiet_reply)"

lemma full_write_honest: "fs_honest full_write_env"
  by (simp add: fs_honest_def full_write_env_def quiet_reply_def)

definition cd_format :: wav_format where
  "cd_format = \<lparr>channels = 2, sample_rate = 44100, bits_per_sample = 16, max_file_size = 52\<rparr>"

definition empty_wav_io :: wav_io where
  "empty_wav_io = \<lparr>the_wav = wav_zero, wav_calls = []\<rparr>"

lemma wav_session_complete_witness:
  "\<exists>s' D. run_state (wav_session full_write_env ''a.wav'' cd_format [[1, 2, 3], [4, 5, 6, 7, 8, 9]]) empty_wav_io
            = ((0, 0), s') \<and>
     wav_parses (content (wav_file s')) cd_format (whole_frames cd_format D) D \<and> D = [1, 2, 3, 4, 5, 6, 7, 8]"
proof -
  let ?m = "wav_session full_write_env ''a.wav'' cd_format [[1, 2, 3], [4, 5, 6, 7, 8, 9]]"
  have bpf: "frame_bytes cd_format = 4" by (simp add: frame_bytes_def cd_format_def)
  have lim: "wav_limit cd_format = 8"
    by (simp add: wav_limit_def bpf ROUND_DOWN_def) (simp add: cd_format_def)
  have r: "fst (run_state ?m empty_wav_io) = (0, 0)"
    unfolding wav_session_def wav_sink.sink_writes.simps
    by (simp add: wav_open_def wav_write_header_def wav_write_u16_def wav_write_u32_def
        wav_write_all_def wav_write_def wav_close_def wav_update_size_def fs_close_def full_write_env_def
        quiet_reply_def cd_format_def empty_wav_io_def wav_zero_def frame_bytes_def ROUND_DOWN_def Let_def)
  then obtain s' where s': "run_state ?m empty_wav_io = ((0, 0), s')" by (metis prod.collapse)
  from wav_session_complete [OF full_write_honest _ _ _ s'] show ?thesis
    using s' bpf lim by (auto simp: cd_format_def)
qed

end
