(* ===== verification/Recorder.thy ===== *)
theory Recorder
  imports Wav Led
begin

text \<open>
  The recorder, \<^verbatim>\<open>firmware/audio/app/src/record.c\<close>, with the blocks and the codec calls of
  \<^verbatim>\<open>audio.h\<close> and \<^verbatim>\<open>audio.c\<close> it uses: the state machine of a recording, the placement of the start
  of a recording inside a block, the files with their names, and the thread that closes full files.
  The recorder drives the files of \<open>Wav\<close> and the status LED of \<open>Led\<close>.
\<close>

section \<open>State\<close>

datatype record_state = RECORD_STOPPED | RECORD_WAITING_START | RECORD_WAITING_NEW_FILE | RECORD_RUNNING

definition RECORD_FILE_NAME_PREFIX_LEN :: nat where "RECORD_FILE_NAME_PREFIX_LEN = 32"
definition RECORD_FILE_DIR :: string where "RECORD_FILE_DIR = ''/SD:''"
definition RECORD_FILE_MAX_SIZE :: u32 where "RECORD_FILE_MAX_SIZE = 0x7fffffff"
definition RECORD_SYNC_INTERVAL_MS :: int where "RECORD_SYNC_INTERVAL_MS = 5000"

record audio_block =
  buf :: "u8 list"                \<comment> \<open>the first \<open>len\<close> bytes behind the pointer\<close>
  block_start :: u32
  block_ticks :: u32              \<comment> \<open>\<open>duration\<close>\<close>
  block_frame :: u8               \<comment> \<open>\<open>bytes_per_frame\<close>\<close>

abbreviation block_len :: "audio_block \<Rightarrow> u32" where
  "block_len b \<equiv> of_nat (length (buf b))"

record record_data =
  initialised :: bool
  file_name_prefix :: string
  rec_file :: wav
  file_index :: u32
  record_phase :: record_state
  start_time :: u32
  last_sync_time_ms :: int

definition record_data_init :: record_data where
  "record_data_init = \<lparr>initialised = False, file_name_prefix = ''REC'', rec_file = wav_zero, file_index = 0,
     record_phase = RECORD_STOPPED, start_time = 0, last_sync_time_ms = 0\<rparr>"

record record_system =
  rec_data :: record_data
  rec_calls :: trace
  close_queue :: "wav list"
  rec_led :: led_system

text \<open>
  What the recorder runs on: the kernel with the file system and the settings, which calls the callback
  once for every stored key with the result of reading it, and the LED controller.
\<close>

record record_platform =
  pf_env :: env
  pf_settings :: "(string \<times> int \<times> string) list"
  pf_led_env :: env
  pf_led :: lp58xx_config

type_synonym 'a recorder = "(record_system, 'a) state"

definition on_kernel :: "(trace, 'a) state \<Rightarrow> 'a recorder" where
  "on_kernel = zoom rec_calls (\<lambda>t s. s\<lparr>rec_calls := t\<rparr>)"

definition on_file :: "(wav_io, 'a) state \<Rightarrow> 'a recorder" where
  "on_file = zoom (\<lambda>s. \<lparr>the_wav = rec_file (rec_data s), wav_calls = rec_calls s\<rparr>)
     (\<lambda>w s. s\<lparr>rec_data := (rec_data s)\<lparr>rec_file := the_wav w\<rparr>, rec_calls := wav_calls w\<rparr>)"

definition notify_led :: "(led_system, int) state \<Rightarrow> unit recorder" where
  \<comment> \<open>a call of the LED module whose result is ignored\<close>
  "notify_led m = State (\<lambda>s. ((), s\<lparr>rec_led := snd (run_state m (rec_led s))\<rparr>))"

definition rec_get :: "record_data recorder" where
  "rec_get = State (\<lambda>s. (rec_data s, s))"

definition rec_upd :: "(record_data \<Rightarrow> record_data) \<Rightarrow> unit recorder" where
  "rec_upd f = State (\<lambda>s. ((), s\<lparr>rec_data := f (rec_data s)\<rparr>))"

lemma run_recorder [simp]:
  "run_state (on_kernel k) s = (case run_state k (rec_calls s) of (a, t) \<Rightarrow> (a, s\<lparr>rec_calls := t\<rparr>))"
  "run_state (notify_led m) s = ((), s\<lparr>rec_led := snd (run_state m (rec_led s))\<rparr>)"
  "run_state rec_get s = (rec_data s, s)"
  "run_state (rec_upd f) s = ((), s\<lparr>rec_data := f (rec_data s)\<rparr>)"
  by (simp_all add: on_kernel_def notify_led_def rec_get_def rec_upd_def)

section \<open>File names\<close>

definition isdigit :: "char \<Rightarrow> bool" where
  "isdigit c \<longleftrightarrow> 48 \<le> (of_char c :: nat) \<and> (of_char c :: nat) \<le> 57"

definition digits_value :: "string \<Rightarrow> nat" where
  "digits_value ds = foldl (\<lambda>a d. a * 10 + (of_char d - 48)) 0 ds"

definition strtoul :: "string \<Rightarrow> u32 \<times> string" where
  \<comment> \<open>\<open>strtoul(s, &end, 10)\<close> of the C library: the value and the rest of the string\<close>
  "strtoul s =
     (let t = dropWhile isspace s;
          neg = (t \<noteq> [] \<and> hd t = CHR ''-'');
          t = (case t of c # u \<Rightarrow> if c = CHR ''-'' \<or> c = CHR ''+'' then u else t | [] \<Rightarrow> []);
          ds = takeWhile isdigit t;
          n = digits_value ds in
      if ds = [] then (0, s)
      else (if 2 ^ 32 \<le> n then - 1 else if neg then - of_nat n else of_nat n, dropWhile isdigit t))"

definition pad4 :: "string \<Rightarrow> string" where
  "pad4 ds = replicate (4 - length ds) (CHR ''0'') @ ds"

definition file_base_name :: "string \<Rightarrow> u32 \<Rightarrow> string" where
  \<comment> \<open>\<open>%s_%04u.wav\<close>\<close>
  "file_base_name prefix index = prefix @ ''_'' @ pad4 (decimal (unat index)) @ ''.wav''"

definition entry_index :: "string \<Rightarrow> string \<Rightarrow> u32 option option" where
  \<comment> \<open>the body of the loop over the directory: \<open>None\<close> skips the entry, \<open>Some None\<close> is an index that is
      out of range, \<open>Some (Some i)\<close> is the index of the file\<close>
  "entry_index prefix name =
     (if length name < length prefix + 1 then None
      else if take (length prefix) name \<noteq> prefix then None
      else if name ! length prefix \<noteq> CHR ''_'' then None
      else let index_start = drop (length prefix + 1) name in
           case strtoul index_start of (i, suffix_start) \<Rightarrow>
             if suffix_start = index_start then None
             else if i = 0xffffffff then Some None
             else if suffix_start \<noteq> ''.wav'' then None
             else Some (Some i))"

fun next_file_index_loop :: "nat \<Rightarrow> env \<Rightarrow> int option recorder" where
  \<comment> \<open>the loop over the entries, at most \<open>n\<close> of them: \<open>None\<close> when the directory has more\<close>
  "next_file_index_loop 0 env = return None"
| "next_file_index_loop (Suc n) env =
     do { r \<leftarrow> on_kernel (ext env FsReadDir);
          if r_ret r < 0 then return (Some (r_ret r))
          else if r_text r = [] then return (Some 0)
          else do {
            data \<leftarrow> rec_get;
            case entry_index (file_name_prefix data) (r_text r) of
              None \<Rightarrow> next_file_index_loop n env
            | Some None \<Rightarrow> return (Some (- ERANGE))
            | Some (Some i) \<Rightarrow>
                do { rec_upd (\<lambda>d. d\<lparr>file_index := (if i + 1 > file_index d then i + 1 else file_index d)\<rparr>);
                     next_file_index_loop n env } } }"

definition record_find_next_file_index :: "nat \<Rightarrow> env \<Rightarrow> int option recorder" where
  "record_find_next_file_index n env =
     do { ret \<leftarrow> on_kernel (ext_ret env (FsOpenDir RECORD_FILE_DIR));
          if ret \<noteq> 0 then return (Some ret)
          else do {
            rec_upd (\<lambda>d. d\<lparr>file_index := 0\<rparr>);
            ret \<leftarrow> next_file_index_loop n env;
            case ret of
              None \<Rightarrow> return None
            | Some r \<Rightarrow> do { _ \<leftarrow> on_kernel (ext env FsCloseDir); return (Some r) } } }"

section \<open>Closing files\<close>

definition record_close_file :: "env \<Rightarrow> unit recorder" where
  "record_close_file env =
     do { r \<leftarrow> on_kernel (ext_ret env (MsgqPut ''record_close_queue''));
          if r < 0 then do { _ \<leftarrow> on_file (wav_close_no_update env); return () }
          else State (\<lambda>s. ((), s\<lparr>close_queue := close_queue s @ [rec_file (rec_data s)]\<rparr>)) }"

definition record_close_thread_step :: "env \<Rightarrow> unit recorder" where
  \<comment> \<open>one turn of the loop of \<open>record_close_thread_run\<close>, when the queue has an item\<close>
  "record_close_thread_step env = State (\<lambda>s.
     (case close_queue s of
        [] \<Rightarrow> ((), s)
      | w # ws \<Rightarrow>
          (case run_state (wav_close env) \<lparr>the_wav = w, wav_calls = rec_calls s\<rparr> of
             (_, t) \<Rightarrow> ((), s\<lparr>close_queue := ws, rec_calls := wav_calls t\<rparr>))))"

section \<open>Settings and start-up\<close>

definition record_settings_load_cb :: "string \<times> int \<times> string \<Rightarrow> unit recorder" where
  \<comment> \<open>the arguments are the key, what the read callback returns and the bytes it reads\<close>
  "record_settings_load_cb = (\<lambda>(key, ret, bytes).
     if key = ''prefix'' then
       if ret = 0 \<or> ret < 0 then return ()
       else rec_upd (\<lambda>d. d\<lparr>file_name_prefix :=
              takeWhile (\<lambda>c. c \<noteq> char_of (0 :: nat)) (take (nat ret) bytes)\<rparr>)
     else return ())"

fun settings_load :: "(string \<times> int \<times> string) list \<Rightarrow> unit recorder" where
  "settings_load [] = return ()"
| "settings_load (x # xs) = do { _ \<leftarrow> record_settings_load_cb x; settings_load xs }"

definition record_init :: "nat \<Rightarrow> record_platform \<Rightarrow> int option recorder" where
  "record_init n pf =
     do { data \<leftarrow> rec_get;
          if initialised data then return (Some (- EALREADY))
          else do {
            _ \<leftarrow> on_kernel (ext (pf_env pf) (SettingsLoad ''rec''));
            _ \<leftarrow> settings_load (pf_settings pf);
            _ \<leftarrow> on_kernel (ext (pf_env pf) (ThreadCreate ''record_close''));
            ret \<leftarrow> record_find_next_file_index n (pf_env pf);
            case ret of
              None \<Rightarrow> return None
            | Some _ \<Rightarrow> do { rec_upd (\<lambda>d. d\<lparr>initialised := True\<rparr>); return (Some 0) } } }"

definition record_get_file_name_prefix :: "nat \<Rightarrow> (int + string) recorder" where
  "record_get_file_name_prefix len =
     do { data \<leftarrow> rec_get;
          return (if \<not> initialised data then Inl (- EINVAL)
                  else if len \<le> length (file_name_prefix data) then Inl (- EINVAL)
                  else Inr (file_name_prefix data)) }"

definition record_set_file_name_prefix :: "nat \<Rightarrow> env \<Rightarrow> string \<Rightarrow> int option recorder" where
  "record_set_file_name_prefix n env prefix =
     do { data \<leftarrow> rec_get;
          if \<not> initialised data then return (Some (- EINVAL))
          else if RECORD_FILE_NAME_PREFIX_LEN \<le> length prefix then return (Some (- EINVAL))
          else do {
            rec_upd (\<lambda>d. d\<lparr>file_name_prefix := prefix\<rparr>);
            ret \<leftarrow> on_kernel (ext_ret env (SettingsSave ''rec/prefix'' prefix));
            if ret \<noteq> 0 then return (Some ret)
            else do {
              ret \<leftarrow> record_find_next_file_index n env;
              case ret of None \<Rightarrow> return None | Some _ \<Rightarrow> return (Some 0) } } }"

definition record_card_inserted :: "nat \<Rightarrow> env \<Rightarrow> int option recorder" where
  "record_card_inserted n env =
     do { data \<leftarrow> rec_get;
          if \<not> initialised data then return (Some (- EINVAL))
          else do {
            ret \<leftarrow> record_find_next_file_index n env;
            case ret of None \<Rightarrow> return None | Some r \<Rightarrow> return (Some (if r < 0 then r else 0)) } }"

section \<open>Recording\<close>

definition audio_start :: "env \<Rightarrow> int recorder" where
  "audio_start env = on_kernel (ext_ret env CodecStartInput)"

definition audio_stop :: "env \<Rightarrow> int recorder" where
  "audio_stop env = on_kernel (ext_ret env CodecStopInput)"

definition record_start :: "record_platform \<Rightarrow> u32 \<Rightarrow> int recorder" where
  "record_start pf time =
     do { data \<leftarrow> rec_get;
          if \<not> initialised data then return (- EINVAL)
          else do {
            ret \<leftarrow> audio_start (pf_env pf);
            if ret \<noteq> 0 \<and> ret \<noteq> - EALREADY then return ret
            else do {
              rec_upd (\<lambda>d. d\<lparr>record_phase :=
                (case record_phase d of
                   RECORD_STOPPED \<Rightarrow> RECORD_WAITING_START
                 | RECORD_WAITING_START \<Rightarrow> RECORD_WAITING_START
                 | RECORD_WAITING_NEW_FILE \<Rightarrow> RECORD_WAITING_NEW_FILE
                 | RECORD_RUNNING \<Rightarrow> RECORD_WAITING_NEW_FILE)\<rparr>);
              rec_upd (\<lambda>d. d\<lparr>start_time := time\<rparr>);
              notify_led (led_record_waiting NODE_AUDIO (pf_led_env pf) (pf_led pf));
              return 0 } } }"

definition DIV_ROUND_CLOSEST :: "u32 \<Rightarrow> u32 \<Rightarrow> u32" where
  "DIV_ROUND_CLOSEST n d = (n + d div 2) div d"

record block_plan =
  old_file :: bool
  new_file :: bool
  split_offset :: u32

definition wait_for :: "record_data \<Rightarrow> audio_block \<Rightarrow> u32" where
  \<comment> \<open>the ticks of the block that precede the start time, by serial number arithmetic\<close>
  "wait_for data block =
     (let wait_time = start_time data - block_start block in
      if sint wait_time < 0 then 0 else wait_time)"

definition plan_block :: "record_data \<Rightarrow> audio_block \<Rightarrow> block_plan option" where
  \<comment> \<open>the \<open>switch\<close> of \<open>record_buffer\<close>: \<open>None\<close> when the block is dropped\<close>
  "plan_block data block =
     (let waiting = (\<lambda>old.
        if wait_for data block \<le> block_ticks block then
          let block_frames = block_len block div ucast (block_frame block);
              split_frame = DIV_ROUND_CLOSEST (wait_for data block * block_frames) (block_ticks block) in
          \<lparr>old_file = old, new_file = True, split_offset = split_frame * ucast (block_frame block)\<rparr>
        else \<lparr>old_file = old, new_file = False, split_offset = block_len block\<rparr>) in
      case record_phase data of
        RECORD_STOPPED \<Rightarrow> None
      | RECORD_WAITING_NEW_FILE \<Rightarrow> Some (waiting True)
      | RECORD_WAITING_START \<Rightarrow> Some (waiting False)
      | RECORD_RUNNING \<Rightarrow> Some \<lparr>old_file = True, new_file = False, split_offset = block_len block\<rparr>)"

definition record_stop_with :: "int \<Rightarrow> int recorder" where
  \<comment> \<open>the label \<open>error\<close>\<close>
  "record_stop_with ret = do { rec_upd (\<lambda>d. d\<lparr>record_phase := RECORD_STOPPED\<rparr>); return ret }"

definition record_file_error :: "env \<Rightarrow> int \<Rightarrow> int recorder" where
  \<comment> \<open>the label \<open>file_error\<close>\<close>
  "record_file_error env ret = do { record_close_file env; record_stop_with ret }"

definition record_format :: wav_format where
  "record_format = \<lparr>channels = 2, sample_rate = 48000, bits_per_sample = 16,
     max_file_size = RECORD_FILE_MAX_SIZE\<rparr>"

definition FILE_NAME_SIZE :: nat where
  "FILE_NAME_SIZE = length RECORD_FILE_DIR + 1 + (RECORD_FILE_NAME_PREFIX_LEN - 1) + 1 + 10 + 4 + 1"

definition record_new_file :: "env \<Rightarrow> audio_block \<Rightarrow> bool \<Rightarrow> u32 \<Rightarrow> int recorder" where
  \<comment> \<open>the body of \<open>if (new_file)\<close>\<close>
  "record_new_file env block old split =
     do { _ \<leftarrow> (if old then record_close_file env else return ());
          now \<leftarrow> on_kernel (ext env UptimeGet);
          rec_upd (\<lambda>d. d\<lparr>last_sync_time_ms := r_num now\<rparr>);
          data \<leftarrow> rec_get;
          let name = RECORD_FILE_DIR @ ''/'' @ file_base_name (file_name_prefix data) (file_index data);
          if FILE_NAME_SIZE \<le> length name then record_stop_with (- EOVERFLOW)
          else do {
            ret \<leftarrow> on_file (wav_open env name record_format);
            if ret \<noteq> 0 then record_file_error env ret
            else do {
              rec_upd (\<lambda>d. d\<lparr>file_index := file_index d + 1\<rparr>);
              let write_len = block_len block - split;
              ret \<leftarrow> on_file (wav_write env (drop (unat split) (buf block)) write_len);
              if ret \<noteq> uint write_len then record_file_error env ret
              else do { rec_upd (\<lambda>d. d\<lparr>record_phase := RECORD_RUNNING\<rparr>); return 0 } } } }"

definition record_old_file :: "env \<Rightarrow> audio_block \<Rightarrow> bool \<Rightarrow> u32 \<Rightarrow> int recorder" where
  \<comment> \<open>the body of \<open>if (old_file)\<close>, and what follows it\<close>
  "record_old_file env block new split =
     do { ret \<leftarrow> on_file (wav_write env (buf block) split);
          if ret < 0 then record_file_error env ret
          else do {
            let full = (ret \<noteq> uint split);
            now \<leftarrow> on_kernel (ext env UptimeGet);
            data \<leftarrow> rec_get;
            synced \<leftarrow>
              (if RECORD_SYNC_INTERVAL_MS \<le> r_num now - last_sync_time_ms data
               then on_kernel (ext_ret env (FsSync (fp (rec_file data)))) else return 0);
            if synced \<noteq> 0 then record_file_error env synced
            else do {
              rec_upd (\<lambda>d. if RECORD_SYNC_INTERVAL_MS \<le> r_num now - last_sync_time_ms d
                           then d\<lparr>last_sync_time_ms := r_num now\<rparr> else d);
              if new \<or> full
              then record_new_file env block True (if full then word_of_int ret else split)
              else return 0 } } }"

definition record_buffer :: "record_platform \<Rightarrow> audio_block \<Rightarrow> int recorder" where
  "record_buffer pf block =
     do { data \<leftarrow> rec_get;
          if \<not> initialised data then return (- EINVAL)
          else case plan_block data block of
            None \<Rightarrow> return 0
          | Some plan \<Rightarrow> do {
              _ \<leftarrow> (if new_file plan
                    then notify_led (led_record_started NODE_AUDIO (pf_led_env pf) (pf_led pf))
                    else return ());
              notify_led (led_record_sync (pf_led_env pf) (block_start block));
              if old_file plan
              then record_old_file (pf_env pf) block (new_file plan) (split_offset plan)
              else if new_file plan
              then record_new_file (pf_env pf) block False (split_offset plan)
              else return 0 } }"

definition record_stop_unlocked :: "record_platform \<Rightarrow> int recorder" where
  "record_stop_unlocked pf =
     do { data \<leftarrow> rec_get;
          if \<not> initialised data then return (- EINVAL)
          else do {
            _ \<leftarrow> (case record_phase data of
                   RECORD_STOPPED \<Rightarrow> return ()
                 | RECORD_WAITING_START \<Rightarrow> return ()
                 | RECORD_WAITING_NEW_FILE \<Rightarrow> record_close_file (pf_env pf)
                 | RECORD_RUNNING \<Rightarrow> record_close_file (pf_env pf));
            _ \<leftarrow> audio_stop (pf_env pf);
            notify_led (led_record_stopped NODE_AUDIO (pf_led_env pf) (pf_led pf));
            record_stop_with 0 } }"

definition record_stop :: "record_platform \<Rightarrow> int recorder" where
  "record_stop pf = record_stop_unlocked pf"

definition record_shutdown :: "record_platform \<Rightarrow> int recorder" where
  "record_shutdown pf =
     do { data \<leftarrow> rec_get;
          if \<not> initialised data then return (- EALREADY)
          else do {
            ret \<leftarrow> record_stop_unlocked pf;
            if ret < 0 then return ret
            else do { rec_upd (\<lambda>d. d\<lparr>initialised := False\<rparr>); return 0 } } }"

text \<open>The blocks of \<^verbatim>\<open>audio.c\<close>.\<close>

definition AUDIO_BLOCK_SIZE :: nat where "AUDIO_BLOCK_SIZE = 14400"

definition audio_frames_per_block :: nat where
  "audio_frames_per_block = AUDIO_BLOCK_SIZE div 2 div (16 div 8)"

definition audio_block_ticks :: u32 where
  \<comment> \<open>the whole part of \<open>block_duration\<close>\<close>
  "audio_block_ticks = of_nat (unat ZEUS_TIME_NOMINAL_FREQ * audio_frames_per_block div 48000)"

definition audio_thread_block :: "u8 list \<Rightarrow> u32 \<Rightarrow> audio_block" where
  "audio_thread_block bytes time =
     \<lparr>buf = bytes, block_start = time, block_ticks = audio_block_ticks, block_frame = 6\<rparr>"

section \<open>Names\<close>

lemma digits_value_append:
  "foldl (\<lambda>a d. a * 10 + (of_char d - 48)) x ds = x * 10 ^ length ds + digits_value ds"
proof (induction ds arbitrary: x)
  case (Cons d ds)
  show ?case
    using Cons.IH [of "x * 10 + (of_char d - 48)"] Cons.IH [of "of_char d - 48"]
    by (simp add: digits_value_def algebra_simps)
qed (simp add: digits_value_def)

lemma digits_value_app: "digits_value (xs @ ys) = digits_value xs * 10 ^ length ys + digits_value ys"
  unfolding digits_value_def foldl_append by (simp add: digits_value_append flip: digits_value_def)

lemma of_char_digit: "n < 10 \<Longrightarrow> of_char (char_of (48 + n :: nat)) = (48 + n :: nat)"
  by simp

lemma decimal_value: "digits_value (decimal n) = n"
proof (induction n rule: decimal.induct)
  case (1 n)
  show ?case
  proof (cases "n < 10")
    case True
    then show ?thesis by (subst decimal.simps) (simp add: digits_value_def)
  next
    case False
    have "digits_value (decimal n) = digits_value (decimal (n div 10)) * 10 + n mod 10"
      using False by (subst decimal.simps) (simp add: digits_value_app, simp add: digits_value_def)
    then show ?thesis using 1 False by simp
  qed
qed

lemma decimal_digits: "list_all isdigit (decimal n) \<and> decimal n \<noteq> []"
proof (induction n rule: decimal.induct)
  case (1 n)
  have "isdigit (char_of (48 + n mod 10 :: nat))" by (simp add: isdigit_def)
  then show ?case using 1 by (subst (1 2) decimal.simps) auto
qed

lemma pad4_value: "digits_value (pad4 (decimal n)) = n"
proof -
  have "digits_value (replicate k (CHR ''0'')) = 0" for k
    by (induction k) (simp_all add: digits_value_def)
  then show ?thesis by (simp add: pad4_def digits_value_app decimal_value)
qed

lemma pad4_digits: "list_all isdigit (pad4 (decimal n))" "pad4 (decimal n) \<noteq> []"
  using decimal_digits [of n] by (auto simp: pad4_def list_all_iff isdigit_def)

lemma strtoul_digits:
  assumes "list_all isdigit ds" "ds \<noteq> []" "r \<noteq> []" "\<not> isdigit (hd r)"
  shows "strtoul (ds @ r) = (if 2 ^ 32 \<le> digits_value ds then - 1 else of_nat (digits_value ds), r)"
proof -
  obtain d es where ds: "ds = d # es" using assms(2) by (cases ds) auto
  then have d: "\<not> isspace d" "d \<noteq> CHR ''-''" "d \<noteq> CHR ''+''"
    using assms(1) by (auto simp: isspace_def isdigit_def)
  have "takeWhile isdigit (ds @ r) = ds" "dropWhile isdigit (ds @ r) = r"
    using assms by (auto simp: list_all_iff takeWhile_append dropWhile_append neq_Nil_conv)
  moreover have "dropWhile isspace (ds @ r) = ds @ r" using ds d by simp
  moreover have "(case ds @ r of c # u \<Rightarrow> if c = CHR ''-'' \<or> c = CHR ''+'' then u else ds @ r | [] \<Rightarrow> [])
    = ds @ r" "hd (ds @ r) \<noteq> CHR ''-''"
    using ds d by simp_all
  ultimately show ?thesis using assms(2) by (simp add: strtoul_def Let_def)
qed

lemma entry_index_own_name:
  "entry_index prefix (file_base_name prefix i) = (if i = 0xffffffff then Some None else Some (Some i))"
proof -
  let ?r = "pad4 (decimal (unat i)) @ ''.wav''"
  have "strtoul ?r = (i, ''.wav'')"
    using strtoul_digits [OF pad4_digits, of "''.wav''" "unat i"] unat_u32_less [of i]
    by (simp add: pad4_value isdigit_def)
  moreover have "?r \<noteq> ''.wav''" using pad4_digits(2) by simp
  ultimately show ?thesis by (simp add: entry_index_def file_base_name_def)
qed

text \<open>The names that a sequence of calls has read from the directory.\<close>

definition names_read :: "trace \<Rightarrow> string list" where
  "names_read tr = map (\<lambda>(c, r). r_text r) (filter (\<lambda>(c, r). c = FsReadDir) tr)"

lemma names_read_simps [simp]:
  "names_read [] = []"
  "names_read ((c, r) # tr) = (if c = FsReadDir then r_text r # names_read tr else names_read tr)"
  "names_read (tr @ tr') = names_read tr @ names_read tr'"
  by (simp_all add: names_read_def)

lemma u32_less_succ: "i \<noteq> 0xffffffff \<Longrightarrow> (i :: u32) < i + 1"
proof -
  assume "i \<noteq> 0xffffffff"
  then have "unat i \<noteq> 4294967295"
  proof (rule contrapos_nn)
    assume "unat i = 4294967295"
    then have "(of_nat (unat i) :: u32) = of_nat 4294967295" by (simp only:)
    then show "i = 0xffffffff" by simp
  qed
  then have "unat i + 1 < 2 ^ 32" using unat_u32_less [of i] by simp
  then show ?thesis by (simp add: word_less_nat_alt unat_word_ariths)
qed

lemma next_file_index_loop_bound:
  assumes "run_state (next_file_index_loop n env) s = (Some 0, s')"
  shows "\<exists>evs. rec_calls s' = rec_calls s @ evs \<and>
    file_name_prefix (rec_data s') = file_name_prefix (rec_data s) \<and>
    file_index (rec_data s) \<le> file_index (rec_data s') \<and> [] \<in> set (names_read evs) \<and>
    (\<forall>name \<in> set (names_read evs). case entry_index (file_name_prefix (rec_data s)) name of
        Some (Some i) \<Rightarrow> i < file_index (rec_data s') | Some None \<Rightarrow> False | None \<Rightarrow> True)"
  using assms
proof (induction n arbitrary: s)
  case 0
  then show ?case by simp
next
  case (Suc n)
  let ?r = "env (rec_calls s) FsReadDir" and ?p = "file_name_prefix (rec_data s)"
  let ?s = "s\<lparr>rec_calls := rec_calls s @ [(FsReadDir, ?r)]\<rparr>"
  have nil: "entry_index ?p [] = None" by (simp add: entry_index_def)
  have nonneg: "0 \<le> r_ret ?r" using Suc.prems by (auto split: if_splits)
  show ?case
  proof (cases "r_text ?r = []")
    case True
    then show ?thesis using Suc.prems nonneg nil by (auto split: if_splits)
  next
    case False
    show ?thesis
    proof (cases "entry_index ?p (r_text ?r)")
      case None
      then have "run_state (next_file_index_loop n env) ?s = (Some 0, s')"
        using Suc.prems False nonneg by (auto split: if_splits)
      from Suc.IH [OF this] show ?thesis using None by auto
    next
      case (Some x)
      show ?thesis
      proof (cases x)
        case None
        then show ?thesis using Suc.prems Some False nonneg by (auto split: if_splits)
      next
        case i: (Some i)
        let ?f = "\<lambda>d. d\<lparr>file_index := (if i + 1 > file_index d then i + 1 else file_index d)\<rparr>"
        let ?t = "?s\<lparr>rec_data := ?f (rec_data s)\<rparr>"
        have ne: "i \<noteq> 0xffffffff"
          using Some i by (auto simp: entry_index_def Let_def split: if_splits prod.splits)
        have "run_state (next_file_index_loop n env) ?t = (Some 0, s')"
          using Suc.prems Some i False nonneg by (auto split: if_splits)
        from Suc.IH [OF this] obtain evs where evs: "rec_calls s' = rec_calls ?t @ evs"
          "file_name_prefix (rec_data s') = ?p" "file_index (rec_data ?t) \<le> file_index (rec_data s')"
          "[] \<in> set (names_read evs)"
          "\<forall>name \<in> set (names_read evs). case entry_index ?p name of
             Some (Some i) \<Rightarrow> i < file_index (rec_data s') | Some None \<Rightarrow> False | None \<Rightarrow> True"
          by auto
        have "i < i + 1" using ne by (rule u32_less_succ)
        then have "i < file_index (rec_data s')" "file_index (rec_data s) \<le> file_index (rec_data s')"
          using evs(3) by (auto split: if_splits)
        then show ?thesis using evs Some i
          by (intro exI [of _ "(FsReadDir, ?r) # evs"]) auto
      qed
    qed
  qed
qed

text \<open>
  Property C18. A recording never overwrites an earlier one: when the scan of the directory succeeds, it
  has read the directory to its end, and no entry it has read has the name of the next file or of a file
  with a higher index, for the prefix in use.
\<close>
theorem record_next_name_unused:
  assumes "run_state (record_find_next_file_index n env) s = (Some 0, s')"
  shows "\<exists>evs. rec_calls s' = rec_calls s @ evs \<and> [] \<in> set (names_read evs) \<and>
    (\<forall>j \<ge> file_index (rec_data s'). file_base_name (file_name_prefix (rec_data s)) j \<notin> set (names_read evs))"
proof -
  let ?open = "(FsOpenDir RECORD_FILE_DIR, env (rec_calls s) (FsOpenDir RECORD_FILE_DIR))"
  let ?s = "s\<lparr>rec_calls := rec_calls s @ [?open], rec_data := (rec_data s)\<lparr>file_index := 0\<rparr>\<rparr>"
  obtain r t where loop: "run_state (next_file_index_loop n env) ?s = (r, t)" by fastforce
  have "r = Some 0" and s': "s' = t\<lparr>rec_calls := rec_calls t @ [(FsCloseDir, env (rec_calls t) FsCloseDir)]\<rparr>"
    using assms loop by (auto simp: record_find_next_file_index_def split: if_splits option.splits)
  from next_file_index_loop_bound [OF loop [unfolded this(1)]] obtain evs where
    evs: "rec_calls t = rec_calls ?s @ evs" "[] \<in> set (names_read evs)"
    and bound: "\<forall>name \<in> set (names_read evs). case entry_index (file_name_prefix (rec_data s)) name of
      Some (Some i) \<Rightarrow> i < file_index (rec_data t) | Some None \<Rightarrow> False | None \<Rightarrow> True"
    by auto
  have "file_base_name (file_name_prefix (rec_data s)) j \<notin> set (names_read evs)"
    if "file_index (rec_data t) \<le> j" for j
    using bound that entry_index_own_name [of "file_name_prefix (rec_data s)" j]
    by (force split: if_splits)
  then show ?thesis using evs s'
    by (intro exI [of _ "?open # evs @ [(FsCloseDir, env (rec_calls t) FsCloseDir)]"])
       (auto simp: file_base_name_def)
qed

definition dir_env :: "string list \<Rightarrow> env" where
  \<comment> \<open>a card with these files in its directory\<close>
  "dir_env names tr c =
     (case c of
        FsReadDir \<Rightarrow> (let i = length (names_read tr) in
          quiet_reply\<lparr>r_text := (if i < length names then names ! i else [])\<rparr>)
      | _ \<Rightarrow> quiet_reply)"

definition fresh_recorder :: record_system where
  "fresh_recorder = \<lparr>rec_data = record_data_init, rec_calls = [], close_queue = [], rec_led = led_start\<rparr>"

lemma record_next_name_unused_witness:
  "\<exists>s' evs. run_state (record_find_next_file_index 4 (dir_env [''REC_0007.wav'', ''x''])) fresh_recorder
              = (Some 0, s') \<and> rec_calls s' = evs \<and> file_index (rec_data s') = 8 \<and>
    file_base_name ''REC'' 8 = ''REC_0008.wav'' \<and> ''REC_0008.wav'' \<notin> set (names_read evs)"
proof -
  let ?m = "record_find_next_file_index 4 (dir_env [''REC_0007.wav'', ''x''])"
  have e: "entry_index ''REC'' ''REC_0007.wav'' = Some (Some 7)"
    by (simp add: entry_index_def strtoul_def isspace_def isdigit_def digits_value_def)
  have x: "entry_index ''REC'' ''x'' = None" by (simp add: entry_index_def)
  have b: "file_base_name ''REC'' 8 = ''REC_0008.wav''"
    by code_simp
  have r: "fst (run_state ?m fresh_recorder) = Some 0 \<and>
      file_index (rec_data (snd (run_state ?m fresh_recorder))) = 8"
    by (simp add: record_find_next_file_index_def numeral_nat fresh_recorder_def record_data_init_def
        dir_env_def quiet_reply_def Let_def e x)
  then obtain s' where s': "run_state ?m fresh_recorder = (Some 0, s')" "file_index (rec_data s') = 8"
    by (metis prod.collapse)
  from record_next_name_unused [OF s'(1)] s' b show ?thesis
    by (auto simp: fresh_recorder_def record_data_init_def)
qed

section \<open>Where a recording starts\<close>

definition waiting :: "record_data \<Rightarrow> bool" where
  "waiting data \<longleftrightarrow> record_phase data = RECORD_WAITING_START \<or> record_phase data = RECORD_WAITING_NEW_FILE"

lemma audio_frames: "audio_frames_per_block = 3600" "audio_block_ticks = 1200000"
  by (simp_all add: audio_block_ticks_def audio_frames_per_block_def AUDIO_BLOCK_SIZE_def
      ZEUS_TIME_NOMINAL_FREQ_def)

definition split_chunk :: "nat \<Rightarrow> nat" where
  \<comment> \<open>the number of six-byte units in front of the start of the recording\<close>
  "split_chunk wait = (wait + 250) div 500"

lemma split_chunk_bounds: "500 * split_chunk w \<le> w + 250" "w + 250 < 500 * split_chunk w + 500"
  and split_chunk_near: "\<bar>500 * int (split_chunk w) - int w\<bar> \<le> 250"
proof -
  have "500 * split_chunk w + (w + 250) mod 500 = w + 250" by (simp add: split_chunk_def)
  moreover have "(w + 250) mod 500 < 500" by simp
  ultimately show "500 * split_chunk w \<le> w + 250" "w + 250 < 500 * split_chunk w + 500"
    "\<bar>500 * int (split_chunk w) - int w\<bar> \<le> 250" by linarith+
qed

lemma plan_audio_block:
  assumes "waiting data" "length bytes = 14400"
    and "unat (wait_for data (audio_thread_block bytes time)) \<le> 1200000"
  shows "\<exists>p. plan_block data (audio_thread_block bytes time) = Some p \<and> new_file p \<and>
    (old_file p \<longleftrightarrow> record_phase data = RECORD_WAITING_NEW_FILE) \<and>
    unat (split_offset p) = 6 * split_chunk (unat (wait_for data (audio_thread_block bytes time)))"
proof -
  let ?b = "audio_thread_block bytes time"
  define w where "w = wait_for data ?b"
  have b: "block_len ?b = 14400" "block_ticks ?b = 1200000" "block_frame ?b = 6"
    using assms(2) by (simp_all add: audio_thread_block_def audio_frames)
  have w: "unat w \<le> 1200000" using assms(3) by (simp add: w_def)
  then have le: "w \<le> 1200000" by (simp add: word_le_nat_alt)
  have frames: "(14400 :: u32) div 6 = 2400" by simp
  have "unat (w * 2400) = unat w * 2400" using w by (simp add: unat_word_ariths)
  then have n: "unat (w * 2400 + 1200000 div 2) = unat w * 2400 + 600000"
    using w by (simp add: unat_word_ariths)
  have "(unat w * 2400 + 600000) div 1200000 = split_chunk (unat w)"
    using div_mult_mult1 [of 2400 "unat w + 250" 500] by (simp add: split_chunk_def algebra_simps)
  then have d: "unat (DIV_ROUND_CLOSEST (w * 2400) 1200000) = split_chunk (unat w)"
    unfolding DIV_ROUND_CLOSEST_def by (simp only: unat_div n) simp
  have "split_chunk (unat w) \<le> 2400" using w by (simp add: split_chunk_def)
  then have s: "unat (DIV_ROUND_CLOSEST (w * 2400) 1200000 * 6) = 6 * split_chunk (unat w)"
    by (simp add: unat_word_ariths d)
  have "plan_block data ?b = Some \<lparr>old_file = (record_phase data = RECORD_WAITING_NEW_FILE), new_file = True,
      split_offset = DIV_ROUND_CLOSEST (w * 2400) 1200000 * 6\<rparr>"
    using assms(1) le by (auto simp: plan_block_def waiting_def b w_def Let_def frames)
  then show ?thesis using s by (auto simp: w_def)
qed


definition waiting_at :: "u32 \<Rightarrow> record_data" where
  "waiting_at time = record_data_init\<lparr>record_phase := RECORD_WAITING_START, start_time := time\<rparr>"


text \<open>
  Property C20. A defect: the blocks say that a frame has six bytes, but the files hold two channels of
  16 bits, four bytes. Whenever the cut falls behind an odd number of six-byte units, the new file
  starts in the middle of a frame, so that its two channels are exchanged.
\<close>
theorem record_split_misaligned:
  assumes "waiting data" "length bytes = 14400"
    and "unat (wait_for data (audio_thread_block bytes time)) \<le> 1200000"
    and "odd (split_chunk (unat (wait_for data (audio_thread_block bytes time))))"
  shows "\<exists>p. plan_block data (audio_thread_block bytes time) = Some p \<and> new_file p \<and>
    unat (split_offset p) mod unat (frame_bytes record_format) = 2"
proof -
  obtain p where p: "plan_block data (audio_thread_block bytes time) = Some p" "new_file p"
    "unat (split_offset p) = 6 * split_chunk (unat (wait_for data (audio_thread_block bytes time)))"
    using plan_audio_block [OF assms(1-3)] by blast
  moreover have "frame_bytes record_format = 4" by (simp add: frame_bytes_def record_format_def)
  moreover have "6 * k mod 4 = 2" if "odd k" for k :: nat using that by presburger
  ultimately show ?thesis using assms(4) by auto
qed

lemma record_split_misaligned_witness:
  "\<exists>p. plan_block (waiting_at 100500) (audio_thread_block (replicate 14400 0) 100000) = Some p \<and>
    unat (split_offset p) mod 4 = 2"
proof -
  have "waiting (waiting_at 100500)" by (simp add: waiting_def waiting_at_def)
  moreover have "unat (wait_for (waiting_at 100500) (audio_thread_block (replicate 14400 0) 100000)) = 500"
    by (simp add: wait_for_def waiting_at_def audio_thread_block_def)
  ultimately show ?thesis
    using record_split_misaligned [of "waiting_at 100500" "replicate 14400 0" 100000]
    by (auto simp: split_chunk_def frame_bytes_def record_format_def)
qed

section \<open>Errors\<close>

lemma run_record_stop_with [simp]:
  "run_state (record_stop_with r) s = (r, s\<lparr>rec_data := (rec_data s)\<lparr>record_phase := RECORD_STOPPED\<rparr>\<rparr>)"
  by (simp add: record_stop_with_def)

lemma run_on_file [simp]:
  "run_state (on_file m) s = (case run_state m \<lparr>the_wav = rec_file (rec_data s), wav_calls = rec_calls s\<rparr> of
     (a, w) \<Rightarrow> (a, s\<lparr>rec_data := (rec_data s)\<lparr>rec_file := the_wav w\<rparr>, rec_calls := wav_calls w\<rparr>))"
  by (simp add: on_file_def)

text \<open>What an unsuccessful step leaves: the stopped state, with the module still initialised.\<close>

definition stopped :: "record_system \<Rightarrow> record_system \<Rightarrow> bool" where
  "stopped s s' \<longleftrightarrow> record_phase (rec_data s') = RECORD_STOPPED \<and>
     initialised (rec_data s') = initialised (rec_data s)"

lemma record_file_error_stops:
  "run_state (record_file_error env r) s = (r', s') \<Longrightarrow> r' = r \<and> stopped s s'"
  by (auto simp: record_file_error_def record_close_file_def stopped_def split: prod.splits if_splits)

lemma record_new_file_error:
  "run_state (record_new_file env block old split) s = (r, s') \<Longrightarrow> r \<noteq> 0 \<Longrightarrow> stopped s s'"
  unfolding record_new_file_def record_close_file_def
  by (auto simp: Let_def stopped_def dest!: record_file_error_stops split: prod.splits if_splits)

lemma record_old_file_error:
  "run_state (record_old_file env block new split) s = (r, s') \<Longrightarrow> r \<noteq> 0 \<Longrightarrow> stopped s s'"
  unfolding record_old_file_def
  by (auto simp: Let_def stopped_def dest!: record_file_error_stops record_new_file_error
      split: prod.splits if_splits)

text \<open>
  When a block cannot be recorded, for whatever reason, the recording ends: the state is
  the stopped one, and the blocks that follow are dropped without a call to the file system until a
  recording is started again.
\<close>
theorem record_error_stops:
  assumes "initialised (rec_data s)" "run_state (record_buffer pf block) s = (r, s')" "r \<noteq> 0"
  shows "record_phase (rec_data s') = RECORD_STOPPED \<and> run_state (record_buffer pf next_block) s' = (0, s')"
proof -
  have "stopped s s'"
    using assms unfolding record_buffer_def
    by (auto simp: stopped_def dest!: record_new_file_error record_old_file_error
        split: option.splits prod.splits if_splits)
  then show ?thesis using assms(1) by (simp add: stopped_def record_buffer_def plan_block_def Let_def)
qed

definition no_space_platform :: record_platform where
  \<comment> \<open>no file can be created\<close>
  "no_space_platform = \<lparr>pf_env = failing_env (\<lambda>c. case c of FsOpen _ \<Rightarrow> True | _ \<Rightarrow> False), pf_settings = [],
     pf_led_env = quiet_env, pf_led = board_lp58xx\<rparr>"

lemma record_error_stops_witness:
  "let s = fresh_recorder\<lparr>rec_data := (waiting_at 100500)\<lparr>initialised := True\<rparr>\<rparr>;
       block = audio_thread_block (replicate 14400 0) 100000;
       s' = snd (run_state (record_buffer no_space_platform block) s) in
   fst (run_state (record_buffer no_space_platform block) s) = - 5 \<and>
   record_phase (rec_data s') = RECORD_STOPPED \<and>
   run_state (record_buffer no_space_platform block) s' = (0, s')"
proof -
  define s where "s = fresh_recorder\<lparr>rec_data := (waiting_at 100500)\<lparr>initialised := True\<rparr>\<rparr>"
  define block where "block = audio_thread_block (replicate 14400 0) 100000"
  have w: "waiting ((waiting_at 100500)\<lparr>initialised := True\<rparr>)" by (simp add: waiting_def waiting_at_def)
  have "unat (wait_for ((waiting_at 100500)\<lparr>initialised := True\<rparr>) block) = 500"
    by (simp add: wait_for_def waiting_at_def audio_thread_block_def block_def)
  then obtain p where p: "plan_block (rec_data s) block = Some p" "new_file p" "\<not> old_file p"
    using plan_audio_block [OF w, of "replicate 14400 0" 100000]
    by (auto simp: s_def block_def waiting_at_def)
  have n: "length (file_base_name ''REC'' 0) = 12"
    by (simp add: file_base_name_def pad4_def decimal.simps)
  have "fst (run_state (record_buffer no_space_platform block) s) = - 5"
    using p by (auto simp: record_buffer_def s_def waiting_at_def record_data_init_def fresh_recorder_def
        record_new_file_def Let_def FILE_NAME_SIZE_def RECORD_FILE_DIR_def RECORD_FILE_NAME_PREFIX_LEN_def n
        no_space_platform_def failing_env_def quiet_reply_def wav_open_def record_format_def
        RECORD_FILE_MAX_SIZE_def record_file_error_def split: prod.splits)
  moreover from this obtain s' where "run_state (record_buffer no_space_platform block) s = (- 5, s')"
    by (metis prod.collapse)
  ultimately show ?thesis
    using record_error_stops [of s no_space_platform block "- 5" s' block]
    by (simp add: s_def block_def [symmetric] Let_def waiting_at_def)
qed

end
