(* ===== verification/Recording.thy ===== *)
theory Recording
  imports Recorder
begin

text \<open>
  What a recording keeps: the blocks of a recording that meets no error are in its files, in order and
  without a byte lost or repeated, across the change of files at the size limit and with the thread
  that closes full files running in between.
\<close>

section \<open>Files that are not written to\<close>

definition opened :: "trace \<Rightarrow> int set" where
  "opened tr = {r_num r | name r. (FsOpen name, r) \<in> set tr \<and> 0 \<le> r_ret r}"

lemma opened_snoc [simp]:
  "opened (tr @ [(c, r)]) =
     (case c of FsOpen name \<Rightarrow> if 0 \<le> r_ret r then insert (r_num r) (opened tr) else opened tr
      | _ \<Rightarrow> opened tr)"
  unfolding opened_def by (cases c) auto

lemma two_calls [simp]:
  "opened (tr @ [ev, (c, r)]) =
     (case c of FsOpen name \<Rightarrow> if 0 \<le> r_ret r then insert (r_num r) (opened (tr @ [ev])) else opened (tr @ [ev])
      | _ \<Rightarrow> opened (tr @ [ev]))"
  "fs_files (tr @ [ev, ev']) = fs_step (fs_files (tr @ [ev])) ev'"
  using opened_snoc [of "tr @ [ev]" c r] by (simp_all add: fs_files_def)

definition fresh_files :: "env \<Rightarrow> bool" where
  \<comment> \<open>opening a file never gives a file that was opened before\<close>
  "fresh_files env \<longleftrightarrow> (\<forall>tr name. r_num (env tr (FsOpen name)) \<notin> opened tr)"

definition file_holds :: "trace \<Rightarrow> int \<Rightarrow> u8 list \<Rightarrow> bool" where
  "file_holds tr h D \<longleftrightarrow> 44 \<le> length (content (fs_files tr h)) \<and> drop 44 (content (fs_files tr h)) = D"

text \<open>A step that changes, of all files, at most the header of its own.\<close>

definition header_only :: "wav_io \<Rightarrow> wav_io \<Rightarrow> bool" where
  "header_only s s' \<longleftrightarrow> fp (the_wav s') = fp (the_wav s) \<and> opened (wav_calls s') = opened (wav_calls s) \<and>
     (\<forall>h D. file_holds (wav_calls s) h D \<longrightarrow> file_holds (wav_calls s') h D) \<and>
     (\<forall>h. h \<noteq> fp (the_wav s) \<longrightarrow> fs_files (wav_calls s') h = fs_files (wav_calls s) h)"

lemma header_only_refl [simp]: "header_only s s"
  by (simp add: header_only_def)

lemma header_only_trans: "header_only s t \<Longrightarrow> header_only t u \<Longrightarrow> header_only s u"
  by (auto simp: header_only_def)

lemma seek_header_only:
  assumes "run_state (fs (ext_ret env (FsSeekSet (fp (the_wav s)) n))) s = (r, s')"
  shows "header_only s s' \<and> the_wav s' = the_wav s \<and> (0 \<le> r \<longrightarrow> pos (wav_file s') = n)"
  using assms by (auto simp: header_only_def file_holds_def wav_file_def)

lemma seek_end_header_only:
  assumes "run_state (fs (ext_ret env (FsSeekEnd (fp (the_wav s))))) s = (r, s')"
  shows "header_only s s'"
  using assms by (auto simp: header_only_def file_holds_def)

lemma drop_blit_front: "p + length out \<le> 44 \<Longrightarrow> 44 \<le> length xs \<Longrightarrow>
    drop 44 (blit p out xs) = drop 44 xs \<and> 44 \<le> length (blit p out xs)"
  by (simp add: blit_def)

lemma write_header_only:
  assumes "run_state (wav_write_all env bs) s = (r, s')" "pos (wav_file s) + length bs \<le> 44"
  shows "header_only s s' \<and> the_wav s' = the_wav s"
proof -
  let ?c = "FsWrite (fp (the_wav s)) bs"
  let ?r = "env (wav_calls s) ?c"
  have s': "s' = s\<lparr>wav_calls := wav_calls s @ [(?c, ?r)]\<rparr>"
    using assms(1) by (auto simp: wav_write_all_def split: if_splits)
  have "file_holds (wav_calls s') h D" if "file_holds (wav_calls s) h D" for h D
    using that assms(2) drop_blit_front [of "pos (wav_file s)" "take (nat (r_ret ?r)) bs" "content (wav_file s)"]
    by (auto simp: s' file_holds_def wav_file_def Let_def)
  then show ?thesis by (auto simp: s' header_only_def Let_def)
qed

lemma seq_neg_step:
  assumes "run_state (seq_neg (m # n # ms)) s = (r, s')" "run_state m s = (r1, s1)"
  shows "(r1 < 0 \<and> s' = s1) \<or> (0 \<le> r1 \<and> run_state (seq_neg (n # ms)) s1 = (r, s'))"
  using assms by (auto split: if_splits)

lemma wav_update_size_header_only:
  assumes "run_state (wav_update_size env) s = (r, s')"
  shows "header_only s s'"
proof -
  let ?w = "the_wav s"
  let ?n = "ROUND_DOWN (data_size ?w) (ucast (bytes_per_frame ?w))"
  let ?seek = "\<lambda>n. fs (ext_ret env (FsSeekSet (fp ?w) n))"
  let ?to_end = "fs (ext_ret env (FsSeekEnd (fp ?w)))"
  obtain r0 where run: "run_state (seq_neg [?seek 4, wav_write_all env (put_le32 (?n + 44 - 8)), ?seek 40,
      wav_write_all env (put_le32 ?n), ?to_end]) s = (r0, s')"
    using assms
    by (auto simp: wav_update_size_def Let_def WAV_CHUNK_SIZE_OFFSET_def WAV_SUBCHUNK_2_SIZE_OFFSET_def
        wav_write_u32_def simp del: seq_neg.simps run_wav_state(1) split: prod.splits)
  obtain r1 s1 where 1: "run_state (?seek 4) s = (r1, s1)" by fastforce
  note e1 = seek_header_only [OF 1]
  obtain r2 s2 where 2: "run_state (wav_write_all env (put_le32 (?n + 44 - 8))) s1 = (r2, s2)" by fastforce
  obtain r3 s3 where 3: "run_state (?seek 40) s2 = (r3, s3)" by fastforce
  obtain r4 s4 where 4: "run_state (wav_write_all env (put_le32 ?n)) s3 = (r4, s4)" by fastforce
  obtain r5 s5 where 5: "run_state ?to_end s4 = (r5, s5)" by fastforce
  note split1 = seq_neg_step [OF run 1]
  show ?thesis
  proof (cases "r1 < 0")
    case True
    then show ?thesis using split1 e1 by auto
  next
    case False
    then have run1: "run_state (seq_neg [wav_write_all env (put_le32 (?n + 44 - 8)), ?seek 40,
      wav_write_all env (put_le32 ?n), ?to_end]) s1 = (r0, s')" and p1: "pos (wav_file s1) = 4"
      using split1 e1 by auto
    have e2: "header_only s s2" "the_wav s2 = ?w"
      using write_header_only [OF 2] p1 e1 header_only_trans by auto
    note e3 = seek_header_only [OF 3 [folded e2(2)]]
    note split2 = seq_neg_step [OF run1 2]
    show ?thesis
    proof (cases "r2 < 0")
      case True
      then show ?thesis using split2 e2 by auto
    next
      case False
      then have run2: "run_state (seq_neg [?seek 40, wav_write_all env (put_le32 ?n), ?to_end]) s2 = (r0, s')"
        using split2 by auto
      have h3: "header_only s s3" "the_wav s3 = ?w" using e2 e3 header_only_trans by auto
      note split3 = seq_neg_step [OF run2 3]
      show ?thesis
      proof (cases "r3 < 0")
        case True
        then show ?thesis using split3 h3 by auto
      next
        case False
        then have run3: "run_state (seq_neg [wav_write_all env (put_le32 ?n), ?to_end]) s3 = (r0, s')"
          and p3: "pos (wav_file s3) = 40" using split3 e3 by auto
        have h4: "header_only s s4" "the_wav s4 = ?w"
          using write_header_only [OF 4] p3 h3 header_only_trans by auto
        have "header_only s s5" using seek_end_header_only [OF 5 [folded h4(2)]] h4 header_only_trans by auto
        then show ?thesis using seq_neg_step [OF run3 4] 5 h4 by auto
      qed
    qed
  qed
qed

lemma wav_close_header_only:
  assumes "run_state (wav_close env) s = (r, s')"
  shows "header_only s s'"
proof -
  obtain r1 s1 where 1: "run_state (wav_update_size env) s = (r1, s1)" by fastforce
  have "header_only s s1" by (rule wav_update_size_header_only [OF 1])
  moreover have "header_only s1 s'"
    using assms 1 by (auto simp: wav_close_def fs_close_def header_only_def file_holds_def split: if_splits)
  ultimately show ?thesis by (rule header_only_trans)
qed

text \<open>Steps that write to their own file only.\<close>

definition own_file_only :: "wav_io \<Rightarrow> wav_io \<Rightarrow> bool" where
  "own_file_only s s' \<longleftrightarrow> fp (the_wav s') = fp (the_wav s) \<and> opened (wav_calls s') = opened (wav_calls s) \<and>
     (\<forall>h. h \<noteq> fp (the_wav s) \<longrightarrow> fs_files (wav_calls s') h = fs_files (wav_calls s) h)"

lemma wav_write_all_own: "run_state (wav_write_all env bs) s = (r, s') \<Longrightarrow> own_file_only s s'"
  by (auto simp: wav_write_all_def own_file_only_def Let_def split: if_splits)

lemma wav_write_own: "run_state (wav_write env bs len) s = (r, s') \<Longrightarrow> own_file_only s s'"
  by (auto simp: wav_write_def own_file_only_def Let_def split: if_splits)

lemma wav_write_alls_own:
  "run_state (seq_neg (map (wav_write_all env) ps)) s = (r, s') \<Longrightarrow> own_file_only s s'"
proof (induction ps arbitrary: s rule: induct_list012)
  case (3 p q ps)
  obtain r1 s1 where w: "run_state (wav_write_all env p) s = (r1, s1)" by fastforce
  with 3(2) [of s1] 3(3) show ?case
    using wav_write_all_own [OF w] by (auto simp: own_file_only_def split: if_splits)
qed (auto simp: own_file_only_def dest: wav_write_all_own)

lemma wav_open_own:
  assumes "run_state (wav_open env name fmt) s = (r, s')" "0 \<le> r"
  shows "fp (the_wav s') = r_num (env (wav_calls s) (FsOpen name)) \<and>
    opened (wav_calls s') = insert (fp (the_wav s')) (opened (wav_calls s)) \<and>
    (\<forall>h. h \<noteq> fp (the_wav s') \<longrightarrow> fs_files (wav_calls s') h = fs_files (wav_calls s) h)"
proof -
  obtain r1 where "run_state (seq_neg (map (wav_write_all env) (header_pieces fmt)))
      (s\<lparr>wav_calls := wav_calls s @ [(FsOpen name, env (wav_calls s) (FsOpen name))],
        the_wav := \<lparr>fp = r_num (env (wav_calls s) (FsOpen name)), bytes_per_frame = frame_bytes fmt,
          max_data_size = wav_limit fmt, data_size = 0\<rparr>\<rparr>) = (r1, s')"
    and "0 \<le> r_ret (env (wav_calls s) (FsOpen name))"
    using wav_open_run [OF assms] by blast
  from wav_write_alls_own [OF this(1)] this(2) show ?thesis by (auto simp: own_file_only_def)
qed

section \<open>The files of a recording\<close>

definition rec_view :: "record_system \<Rightarrow> wav_io" where
  "rec_view s = \<lparr>the_wav = rec_file (rec_data s), wav_calls = rec_calls s\<rparr>"

lemma rec_view_simps [simp]:
  "the_wav (rec_view s) = rec_file (rec_data s)" "wav_calls (rec_view s) = rec_calls s"
  "rec_view (s\<lparr>rec_led := l\<rparr>) = rec_view s" "rec_view (s\<lparr>close_queue := q\<rparr>) = rec_view s"
  by (simp_all add: rec_view_def)

lemma rec_view_file [simp]:
  "rec_view (s\<lparr>rec_data := (rec_data s)\<lparr>rec_file := the_wav w\<rparr>, rec_calls := wav_calls w\<rparr>) = w"
  by (simp add: rec_view_def)

text \<open>
  The files that are no longer written to, with their data, and those that wait to be closed: a list of
  closed files \<open>past\<close> is backed by the state when the card holds their data.
\<close>

definition backed :: "env \<Rightarrow> record_system \<Rightarrow> (int \<times> u8 list) list \<Rightarrow> bool" where
  "backed env s past \<longleftrightarrow> fs_honest env \<and> fresh_files env \<and> initialised (rec_data s) \<and>
     (\<forall>(h, d) \<in> set past. h \<in> opened (rec_calls s) \<and> file_holds (rec_calls s) h d) \<and>
     fp ` set (close_queue s) \<subseteq> fst ` set past"

definition recording :: "env \<Rightarrow> record_system \<Rightarrow> (int \<times> u8 list) list \<Rightarrow> u8 list \<Rightarrow> bool" where
  \<comment> \<open>a recording is running; \<open>D\<close> is the data of its current file\<close>
  "recording env s past D \<longleftrightarrow> backed env s past \<and> record_phase (rec_data s) = RECORD_RUNNING \<and>
     wav_sink_holds env record_format (rec_view s) D \<and>
     fp (rec_file (rec_data s)) \<in> opened (rec_calls s) \<and> fp (rec_file (rec_data s)) \<notin> fst ` set past"

lemma wav_holds_file:
  "wav_holds fmt s D \<Longrightarrow> file_holds (wav_calls s) (fp (the_wav s)) D"
  by (auto simp: wav_holds_def wav_file_def file_holds_def)

lemma recording_backed:
  "recording env s past D \<Longrightarrow> backed env s (past @ [(fp (rec_file (rec_data s)), D)])"
  using wav_holds_file [of record_format "rec_view s" D]
  by (auto simp: recording_def backed_def wav_sink_holds_def)

text \<open>Steps after which the files are as they were.\<close>

definition idle_step :: "record_system \<Rightarrow> record_system \<Rightarrow> bool" where
  "idle_step s s' \<longleftrightarrow> rec_file (rec_data s') = rec_file (rec_data s) \<and>
     initialised (rec_data s') = initialised (rec_data s) \<and> close_queue s' = close_queue s \<and>
     opened (rec_calls s') = opened (rec_calls s) \<and> fs_files (rec_calls s') = fs_files (rec_calls s)"

lemma wav_sink_idle:
  "idle_step s s' \<Longrightarrow> wav_sink_holds env fmt (rec_view s') D \<longleftrightarrow> wav_sink_holds env fmt (rec_view s) D"
  by (auto simp: idle_step_def wav_sink_holds_def wav_holds_def wav_file_def)

lemma backed_idle: "idle_step s s' \<Longrightarrow> backed env s' past \<longleftrightarrow> backed env s past"
  by (auto simp: idle_step_def backed_def file_holds_def)

lemma recording_idle:
  "idle_step s s' \<Longrightarrow> record_phase (rec_data s') = record_phase (rec_data s) \<Longrightarrow>
    recording env s' past D \<longleftrightarrow> recording env s past D"
  using wav_sink_idle [of s s'] backed_idle [of s s'] by (auto simp: recording_def idle_step_def)

lemma record_format_limit: "unat (wav_limit record_format) + 2 ^ 31 \<le> 2 ^ 32"
  by (simp add: wav_limit_def ROUND_DOWN_def record_format_def frame_bytes_def RECORD_FILE_MAX_SIZE_def)

lemma record_close_file_backed:
  assumes "run_state (record_close_file env) s = ((), s')" "backed env s past"
    and "fp (rec_file (rec_data s)) \<in> fst ` set past"
  shows "backed env s' past \<and> rec_data s' = rec_data s"
proof -
  have "(close_queue s' = close_queue s \<or> close_queue s' = close_queue s @ [rec_file (rec_data s)]) \<and>
    rec_data s' = rec_data s \<and> opened (rec_calls s') = opened (rec_calls s) \<and>
    fs_files (rec_calls s') = fs_files (rec_calls s)"
    using assms(1) by (auto simp: record_close_file_def wav_close_no_update_def fs_close_def split: if_splits)
  then show ?thesis using assms(2,3)
    by (elim disjE conjE) (simp_all add: backed_def file_holds_def)
qed

lemma open_file_backed:
  assumes "backed env s past" "run_state (wav_open env name fmt) (rec_view s) = (r, w)" "0 \<le> r"
    and "unat (wav_limit fmt) + 2 ^ 31 \<le> 2 ^ 32"
    and s': "s' = s\<lparr>rec_data := (rec_data s)\<lparr>rec_file := the_wav w\<rparr>, rec_calls := wav_calls w\<rparr>"
  shows "backed env s' past \<and> wav_sink_holds env fmt (rec_view s') [] \<and>
    fp (rec_file (rec_data s')) \<in> opened (rec_calls s') \<and> fp (rec_file (rec_data s')) \<notin> fst ` set past"
proof -
  note own = wav_open_own [OF assms(2,3)]
  have honest: "fs_honest env" and fresh: "fresh_files env" using assms(1) by (simp_all add: backed_def)
  have new: "fp (the_wav w) \<notin> opened (rec_calls s)"
    using own fresh by (simp add: fresh_files_def)
  then have "fp (the_wav w) \<notin> fst ` set past" using assms(1) by (auto simp: backed_def)
  moreover have "wav_holds fmt w []" using wav_open_holds [OF honest assms(2,3)] by simp
  moreover have "file_holds (wav_calls w) h d" if "(h, d) \<in> set past" for h d
  proof -
    have "h \<in> opened (rec_calls s)" "file_holds (rec_calls s) h d" using that assms(1) by (auto simp: backed_def)
    moreover from this new have "h \<noteq> fp (the_wav w)" by auto
    then have "fs_files (wav_calls w) h = fs_files (rec_calls s) h" using own by simp
    ultimately show ?thesis by (simp add: file_holds_def)
  qed
  ultimately show ?thesis using own assms(1,4) honest
    unfolding s' rec_view_file by (auto simp: backed_def wav_sink_holds_def)
qed

lemma write_file_backed:
  assumes "backed env s past" "fp (rec_file (rec_data s)) \<notin> fst ` set past"
    and "run_state (wav_write env bs len) (rec_view s) = (r, w)"
    and s': "s' = s\<lparr>rec_data := (rec_data s)\<lparr>rec_file := the_wav w\<rparr>, rec_calls := wav_calls w\<rparr>"
  shows "backed env s' past \<and> fp (rec_file (rec_data s')) = fp (rec_file (rec_data s)) \<and>
    opened (rec_calls s') = opened (rec_calls s)"
proof -
  have own: "own_file_only (rec_view s) w" by (rule wav_write_own [OF assms(3)])
  have "file_holds (wav_calls w) h d" if "(h, d) \<in> set past" for h d
  proof -
    have "h \<noteq> fp (rec_file (rec_data s))" using that assms(2) by (metis fst_conv image_eqI)
    then have "fs_files (wav_calls w) h = fs_files (rec_calls s) h"
      using own by (simp add: own_file_only_def)
    then show ?thesis using that assms(1) by (auto simp: backed_def file_holds_def)
  qed
  then show ?thesis using own assms(1) unfolding s' by (auto simp: backed_def own_file_only_def)
qed

lemma of_nat_length_drop:
  assumes "unat (k :: u32) \<le> length xs" "length xs < 2 ^ 31"
  shows "of_nat (length xs) - k = of_nat (length (drop (unat k) xs))"
  using assms by (simp add: of_nat_diff)

lemma record_new_file_run:
  assumes "run_state (record_new_file env block old split) s = (0, s')"
  obtains s1 s2 w3 s3 r5 w5 where
    "run_state (if old then record_close_file env else return ()) s = ((), s1)"
    "s2 = s1\<lparr>rec_calls := rec_calls s1 @ [(UptimeGet, env (rec_calls s1) UptimeGet)],
      rec_data := (rec_data s1)\<lparr>last_sync_time_ms := r_num (env (rec_calls s1) UptimeGet)\<rparr>\<rparr>"
    "run_state (wav_open env (RECORD_FILE_DIR @ ''/'' @ file_base_name (file_name_prefix (rec_data s2))
       (file_index (rec_data s2))) record_format) (rec_view s2) = (0, w3)"
    "s3 = s2\<lparr>rec_data := (rec_data s2)\<lparr>rec_file := the_wav w3, file_index := file_index (rec_data s2) + 1\<rparr>,
      rec_calls := wav_calls w3\<rparr>"
    "run_state (wav_write env (drop (unat split) (buf block)) (block_len block - split)) (rec_view s3)
       = (r5, w5)"
    "0 \<le> r5"
    "r5 = uint (block_len block - split) \<Longrightarrow> s' = s3\<lparr>rec_data := (rec_data s3)\<lparr>rec_file := the_wav w5, record_phase := RECORD_RUNNING\<rparr>,
      rec_calls := wav_calls w5\<rparr>"
proof -
  obtain s1 where c: "run_state (if old then record_close_file env else return ()) s = ((), s1)"
    by (cases "run_state (if old then record_close_file env else return ()) s") auto
  define s2 where "s2 = s1\<lparr>rec_calls := rec_calls s1 @ [(UptimeGet, env (rec_calls s1) UptimeGet)],
    rec_data := (rec_data s1)\<lparr>last_sync_time_ms := r_num (env (rec_calls s1) UptimeGet)\<rparr>\<rparr>"
  let ?name = "RECORD_FILE_DIR @ ''/'' @ file_base_name (file_name_prefix (rec_data s2)) (file_index (rec_data s2))"
  obtain r3 w3 where o: "run_state (wav_open env ?name record_format) (rec_view s2) = (r3, w3)" by fastforce
  define s3 where "s3 = s2\<lparr>rec_data := (rec_data s2)\<lparr>rec_file := the_wav w3, file_index := file_index (rec_data s2) + 1\<rparr>,
    rec_calls := wav_calls w3\<rparr>"
  obtain r5 w5 where w: "run_state (wav_write env (drop (unat split) (buf block)) (block_len block - split)) (rec_view s3)
       = (r5, w5)" by fastforce
  have err: "fst (run_state (record_file_error env r) t) = r" for r t
    using record_file_error_stops by (metis prod.collapse)
  show ?thesis
    using assms c o w err
    by (intro that [OF c s2_def, of w3 s3 r5 w5])
      (auto simp: record_new_file_def Let_def s2_def s3_def rec_view_def 
         split: if_splits dest!: record_file_error_stops)
qed

lemma record_new_file_records:
  assumes "run_state (record_new_file env block old split) s = (0, s')" "backed env s past"
    and "old \<Longrightarrow> fp (rec_file (rec_data s)) \<in> fst ` set past"
    and "unat split \<le> length (buf block)" "length (buf block) < 2 ^ 30"
  shows "recording env s' past (drop (unat split) (buf block))"
proof -
  let ?rest = "drop (unat split) (buf block)"
  have len: "block_len block - split = of_nat (length ?rest)"
    by (rule of_nat_length_drop) (use assms(4,5) in simp_all)
  have short: "length ?rest < 2 ^ 31" using assms(5) by simp
  then have ulen: "uint (of_nat (length ?rest) :: u32) = int (length ?rest)"
    by (simp add: unsigned_of_nat take_bit_nat_eq_self)
  obtain s1 s2 w3 s3 r5 w5 where
    1: "run_state (if old then record_close_file env else return ()) s = ((), s1)"
    and 2: "s2 = s1\<lparr>rec_calls := rec_calls s1 @ [(UptimeGet, env (rec_calls s1) UptimeGet)],
      rec_data := (rec_data s1)\<lparr>last_sync_time_ms := r_num (env (rec_calls s1) UptimeGet)\<rparr>\<rparr>"
    and 3: "run_state (wav_open env (RECORD_FILE_DIR @ ''/'' @ file_base_name (file_name_prefix (rec_data s2))
       (file_index (rec_data s2))) record_format) (rec_view s2) = (0, w3)"
    and s3: "s3 = s2\<lparr>rec_data := (rec_data s2)\<lparr>rec_file := the_wav w3, file_index := file_index (rec_data s2) + 1\<rparr>,
      rec_calls := wav_calls w3\<rparr>"
    and 5: "run_state (wav_write env ?rest (of_nat (length ?rest))) (rec_view s3) = (r5, w5)" "0 \<le> r5"
    and s': "r5 = int (length ?rest) \<Longrightarrow> s' = s3\<lparr>rec_data := (rec_data s3)\<lparr>rec_file := the_wav w5,
      record_phase := RECORD_RUNNING\<rparr>, rec_calls := wav_calls w5\<rparr>"
    using record_new_file_run [OF assms(1), unfolded len ulen] by metis
  have b1: "backed env s1 past"
    using record_close_file_backed [of env s s1 past] 1 assms(2,3) by (cases old) auto
  have "idle_step s1 s2" by (simp add: 2 idle_step_def)
  then have b2: "backed env s2 past" using b1 backed_idle by blast
  define t where "t = s2\<lparr>rec_data := (rec_data s2)\<lparr>rec_file := the_wav w3\<rparr>, rec_calls := wav_calls w3\<rparr>"
  note o = open_file_backed [OF b2 3 _ record_format_limit t_def]
  have i3: "idle_step t s3" by (simp add: s3 t_def idle_step_def)
  have b3: "backed env s3 past" "wav_sink_holds env record_format (rec_view s3) []"
    "fp (rec_file (rec_data s3)) \<in> opened (rec_calls s3)" "fp (rec_file (rec_data s3)) \<notin> fst ` set past"
    using o backed_idle [OF i3] wav_sink_idle [OF i3] i3 by (simp_all add: idle_step_def)
  obtain n where n: "wav_sink_holds env record_format w5 ([] @ take n ?rest)"
    "0 \<le> r5 \<longrightarrow> n = min (length ?rest) (unat (wav_limit record_format) - length ([] :: u8 list)) \<and> r5 = int n"
    using wav_sink.write_appends [OF b3(2) short 5(1)] by blast
  have "length ?rest \<le> unat (wav_limit record_format)"
    using assms(5) by (simp add: wav_limit_def ROUND_DOWN_def record_format_def frame_bytes_def RECORD_FILE_MAX_SIZE_def)
  then have r5: "r5 = int (length ?rest)" and h5: "wav_sink_holds env record_format w5 ?rest"
    using n 5(2) by auto
  define t' where "t' = s3\<lparr>rec_data := (rec_data s3)\<lparr>rec_file := the_wav w5\<rparr>, rec_calls := wav_calls w5\<rparr>"
  have b5: "backed env t' past" "fp (rec_file (rec_data t')) = fp (rec_file (rec_data s3))"
    "opened (rec_calls t') = opened (rec_calls s3)"
    using write_file_backed [OF b3(1,4) 5(1) t'_def] by simp_all
  have v: "rec_view t' = w5" by (simp add: t'_def)
  have i5: "idle_step t' s'" using s' [OF r5] by (simp add: t'_def idle_step_def)
  have "record_phase (rec_data s') = RECORD_RUNNING" using s' [OF r5] by simp
  then show ?thesis
    using b3 b5 h5 backed_idle [OF i5] wav_sink_idle [OF i5] i5 unfolding recording_def v by (simp add: idle_step_def)
qed

lemma record_old_file_run:
  assumes "run_state (record_old_file env block new split) s = (0, s')"
  obtains r1 w1 s2 where
    "run_state (wav_write env (buf block) split) (rec_view s) = (r1, w1)" "0 \<le> r1"
    "idle_step (s\<lparr>rec_data := (rec_data s)\<lparr>rec_file := the_wav w1\<rparr>, rec_calls := wav_calls w1\<rparr>) s2"
    "record_phase (rec_data s2) = record_phase (rec_data s)"
    "if new \<or> r1 \<noteq> uint split
     then run_state (record_new_file env block True (if r1 \<noteq> uint split then word_of_int r1 else split)) s2 = (0, s')
     else s' = s2"
proof -
  obtain r1 w1 where w: "run_state (wav_write env (buf block) split) (rec_view s) = (r1, w1)" by fastforce
  define s1 where "s1 = s\<lparr>rec_data := (rec_data s)\<lparr>rec_file := the_wav w1\<rparr>, rec_calls := wav_calls w1\<rparr>"
  let ?now = "env (rec_calls s1) UptimeGet"
  let ?due = "RECORD_SYNC_INTERVAL_MS \<le> r_num ?now - last_sync_time_ms (rec_data s1)"
  define t where "t = rec_calls s1 @ [(UptimeGet, ?now)]"
  let ?sync = "(FsSync (fp (the_wav w1)), env t (FsSync (fp (the_wav w1))))"
  define s2 where "s2 = (if ?due
    then s1\<lparr>rec_calls := t @ [?sync], rec_data := (rec_data s1)\<lparr>last_sync_time_ms := r_num ?now\<rparr>\<rparr>
    else s1\<lparr>rec_calls := t, rec_data := rec_data s1\<rparr>)"
  have err: "fst (run_state (record_file_error env r) u) = r" for r u
    using record_file_error_stops by (metis prod.collapse)
  have pos: "0 \<le> r1"
    using assms w by (auto simp: record_old_file_def rec_view_def dest: record_file_error_stops split: if_splits)
  have run: "run_state (record_old_file env block new split) s =
    (if ?due \<and> r_ret (snd ?sync) \<noteq> 0
     then run_state (record_file_error env (r_ret (snd ?sync))) (s1\<lparr>rec_calls := t @ [?sync]\<rparr>)
     else if new \<or> r1 \<noteq> uint split
     then run_state (record_new_file env block True (if r1 \<noteq> uint split then word_of_int r1 else split)) s2
     else (0, s2))"
    using w pos by (simp add: record_old_file_def Let_def rec_view_def s1_def s2_def t_def)
  have "idle_step s1 s2" by (simp add: s2_def t_def idle_step_def)
  moreover have "record_phase (rec_data s2) = record_phase (rec_data s)" by (simp add: s2_def s1_def)
  moreover have "\<not> (?due \<and> r_ret (snd ?sync) \<noteq> 0)" using assms run err by (metis fst_conv)
  ultimately show ?thesis using that [OF w pos] assms run unfolding s1_def [symmetric] by (auto split: if_splits)
qed

lemma recording_write:
  assumes "recording env s past D" "length bs < 2 ^ 31"
    and "run_state (wav_write env bs (of_nat (length bs))) (rec_view s) = (r, w)" "0 \<le> r"
    and s': "s' = s\<lparr>rec_data := (rec_data s)\<lparr>rec_file := the_wav w\<rparr>, rec_calls := wav_calls w\<rparr>"
  shows "\<exists>n \<le> length bs. r = int n \<and> recording env s' past (D @ take n bs) \<and>
    (n < length bs \<longrightarrow> length (D @ take n bs) = unat (wav_limit record_format))"
proof -
  have sink: "wav_sink_holds env record_format (rec_view s) D" using assms(1) by (simp add: recording_def)
  obtain n where n: "n \<le> length bs" "wav_sink_holds env record_format w (D @ take n bs)"
    "n = min (length bs) (unat (wav_limit record_format) - length D)" "r = int n"
    using wav_sink.write_appends [OF sink assms(2,3)] assms(4) by blast
  have v: "rec_view s' = w" by (simp add: s')
  have b: "backed env s' past" "fp (rec_file (rec_data s')) = fp (rec_file (rec_data s))"
    "opened (rec_calls s') = opened (rec_calls s)"
    using write_file_backed [OF _ _ assms(3) s', of past] assms(1) by (simp_all add: recording_def)
  have "recording env s' past (D @ take n bs)"
    using assms(1) b n(2) unfolding recording_def v by (simp add: s')
  moreover have "length (D @ take n bs) = unat (wav_limit record_format)" if "n < length bs"
    using that n wav_sink.holds_bound [OF sink] by simp
  ultimately show ?thesis using n by blast
qed

lemma record_buffer_running:
  assumes "recording (pf_env pf) s past D" "length (buf block) < 2 ^ 30"
    and "run_state (record_buffer pf block) s = (0, s')"
  shows "\<exists>past' D'. recording (pf_env pf) s' past' D' \<and>
    concat (map snd past') @ D' = concat (map snd past) @ D @ buf block \<and>
    (past' = past \<or> (\<exists>x. past' = past @ [x] \<and> length (snd x) = unat (wav_limit record_format)))"
proof -
  let ?env = "pf_env pf" and ?bs = "buf block"
  define t where "t = s\<lparr>rec_led := snd (run_state (led_record_sync (pf_led_env pf) (block_start block)) (rec_led s))\<rparr>"
  have "idle_step s t" "record_phase (rec_data t) = record_phase (rec_data s)" by (simp_all add: t_def idle_step_def)
  then have rt: "recording ?env t past D" using assms(1) recording_idle by blast
  have "run_state (record_old_file ?env block False (block_len block)) t = (0, s')"
    using assms(1,3) by (simp add: record_buffer_def recording_def backed_def plan_block_def Let_def t_def)
  then obtain r1 w1 s2 where
    1: "run_state (wav_write ?env ?bs (of_nat (length ?bs))) (rec_view t) = (r1, w1)" "0 \<le> r1"
    and 2: "idle_step (t\<lparr>rec_data := (rec_data t)\<lparr>rec_file := the_wav w1\<rparr>, rec_calls := wav_calls w1\<rparr>) s2"
      "record_phase (rec_data s2) = record_phase (rec_data t)"
    and 3: "if r1 \<noteq> uint (block_len block)
      then run_state (record_new_file ?env block True (word_of_int r1)) s2 = (0, s')
      else s' = s2"
    by (rule record_old_file_run) (auto split: if_splits)
  have short: "length ?bs < 2 ^ 31" using assms(2) by simp
  obtain n where n: "n \<le> length ?bs" "r1 = int n"
    "recording ?env (t\<lparr>rec_data := (rec_data t)\<lparr>rec_file := the_wav w1\<rparr>, rec_calls := wav_calls w1\<rparr>) past (D @ take n ?bs)"
    "n < length ?bs \<longrightarrow> length (D @ take n ?bs) = unat (wav_limit record_format)"
    using recording_write [OF rt short 1 refl] by blast
  have r2: "recording ?env s2 past (D @ take n ?bs)"
    using n(3) recording_idle [OF 2(1)] 2(2) by simp
  have ulen: "uint (block_len block) = int (length ?bs)"
    using short by (simp add: unsigned_of_nat take_bit_nat_eq_self)
  show ?thesis
  proof (cases "n = length ?bs")
    case True
    then show ?thesis using 3 n(2) ulen r2 by auto
  next
    case False
    then have nf: "run_state (record_new_file ?env block True (of_nat n)) s2 = (0, s')" using 3 n(2) ulen by simp
    have un: "unat (of_nat n :: u32) = n" using n(1) short by (simp add: unat_of_nat)
    let ?x = "(fp (rec_file (rec_data s2)), D @ take n ?bs)"
    have "recording ?env s' (past @ [?x]) (drop n ?bs)"
      using record_new_file_records [OF nf recording_backed [OF r2]] n(1) un assms(2) by simp
    then show ?thesis using n(1,4) False by (intro exI [of _ "past @ [?x]"] exI [of _ "drop n ?bs"]) auto
  qed
qed

lemma close_thread_recording:
  assumes "recording env s past D" "run_state (record_close_thread_step env) s = ((), s')"
  shows "recording env s' past D"
proof (cases "close_queue s")
  case Nil
  then show ?thesis using assms by (simp add: record_close_thread_step_def)
next
  case (Cons q qs)
  obtain r t where t: "run_state (wav_close env) \<lparr>the_wav = q, wav_calls = rec_calls s\<rparr> = (r, t)" by fastforce
  have s': "s' = s\<lparr>close_queue := qs, rec_calls := wav_calls t\<rparr>"
    using assms(2) Cons t by (simp add: record_close_thread_step_def)
  have h: "opened (wav_calls t) = opened (rec_calls s)"
    "\<And>h D. file_holds (rec_calls s) h D \<Longrightarrow> file_holds (wav_calls t) h D"
    "\<And>h. h \<noteq> fp q \<Longrightarrow> fs_files (wav_calls t) h = fs_files (rec_calls s) h"
    using wav_close_header_only [OF t] by (simp_all add: header_only_def)
  have "fp q \<in> fst ` set past" using assms(1) Cons by (simp add: recording_def backed_def)
  then have ne: "fp (rec_file (rec_data s)) \<noteq> fp q"
    using assms(1) unfolding recording_def by metis
  have b: "backed env s' past"
    using assms(1) Cons h(1,2) by (auto simp: recording_def backed_def s')
  have "wav_sink_holds env record_format (rec_view s') D"
    using assms(1) h(3) [OF ne]
    by (auto simp: recording_def wav_sink_holds_def wav_holds_def wav_file_def s' rec_view_def)
  then show ?thesis using assms(1) b h(1) by (simp add: recording_def s')
qed

section \<open>Runs of the recorder\<close>

text \<open>
  A run: blocks that are recorded without an error, with the closing thread taking its turns in between.
\<close>

inductive recorder_run :: "record_platform \<Rightarrow> record_system \<Rightarrow> audio_block list \<Rightarrow> record_system \<Rightarrow> bool"
  for pf s0 where
  run_start: "recorder_run pf s0 [] s0"
| run_block: "recorder_run pf s0 blocks s \<Longrightarrow> run_state (record_buffer pf block) s = (0, s') \<Longrightarrow>
    recorder_run pf s0 (blocks @ [block]) s'"
| run_close: "recorder_run pf s0 blocks s \<Longrightarrow> run_state (record_close_thread_step (pf_env pf)) s = ((), s') \<Longrightarrow>
    recorder_run pf s0 blocks s'"

lemma recorder_run_keeps:
  assumes "recorder_run pf s blocks s'" "recording (pf_env pf) s [] D0"
    and "\<forall>b \<in> set blocks. length (buf b) < 2 ^ 30"
  shows "\<exists>past D. recording (pf_env pf) s' past D \<and>
    concat (map snd past) @ D = D0 @ concat (map buf blocks) \<and>
    (\<forall>x \<in> set past. length (snd x) = unat (wav_limit record_format))"
  using assms
proof (induction rule: recorder_run.induct)
  case run_start
  then show ?case by (intro exI [of _ "[]"] exI [of _ D0]) simp
next
  case (run_block blocks s block s')
  then obtain past D where p: "recording (pf_env pf) s past D"
    "concat (map snd past) @ D = D0 @ concat (map buf blocks)"
    "\<forall>x \<in> set past. length (snd x) = unat (wav_limit record_format)" by auto
  obtain past' D' where "recording (pf_env pf) s' past' D'"
    "concat (map snd past') @ D' = concat (map snd past) @ D @ buf block"
    "past' = past \<or> (\<exists>x. past' = past @ [x] \<and> length (snd x) = unat (wav_limit record_format))"
    using record_buffer_running [OF p(1) _ run_block(2)] run_block.prems by auto
  moreover have "concat (map snd past) @ D @ buf block = D0 @ concat (map buf (blocks @ [block]))"
    using p(2) by simp
  ultimately show ?case using p(3) by (intro exI [of _ past'] exI [of _ D']) auto
next
  case (run_close blocks s s')
  then show ?case using close_thread_recording by blast
qed


lemma record_buffer_first:
  assumes "record_phase (rec_data s) = RECORD_WAITING_START" "backed (pf_env pf) s []"
    and "plan_block (rec_data s) block = Some p" "new_file p"
    and "unat (split_offset p) \<le> length (buf block)" "length (buf block) < 2 ^ 30"
    and "run_state (record_buffer pf block) s = (0, s')"
  shows "recording (pf_env pf) s' [] (drop (unat (split_offset p)) (buf block))"
proof -
  define t where "t = s\<lparr>rec_led := snd (run_state (led_record_sync (pf_led_env pf) (block_start block))
    (snd (run_state (led_record_started NODE_AUDIO (pf_led_env pf) (pf_led pf)) (rec_led s))))\<rparr>"
  have "\<not> old_file p" using assms(1,3) by (auto simp: plan_block_def Let_def split: if_splits)
  then have run: "run_state (record_new_file (pf_env pf) block False (split_offset p)) t = (0, s')"
    using assms(2-4,7) by (simp add: record_buffer_def backed_def t_def)
  have "backed (pf_env pf) t []" using assms(2) by (simp add: backed_def t_def)
  from record_new_file_records [OF run this _ assms(5,6)] show ?thesis by simp
qed


definition card_env :: env where
  \<comment> \<open>a card that accepts everything and never uses a handle twice\<close>
  "card_env tr c =
     (case c of FsWrite h bs \<Rightarrow> quiet_reply\<lparr>r_ret := int (length bs)\<rparr>
      | FsOpen name \<Rightarrow> quiet_reply\<lparr>r_num := sum_list (map (\<lambda>(c, r). \<bar>r_num r\<bar>) tr) + 1\<rparr>
      | _ \<Rightarrow> quiet_reply)"

lemma card_env_ok: "fs_honest card_env" "fresh_files card_env"
proof -
  show "fs_honest card_env" by (simp add: fs_honest_def card_env_def quiet_reply_def)
  have "\<bar>r_num r\<bar> \<le> sum_list (map (\<lambda>(c, r). \<bar>r_num r\<bar>) tr)" if "(c, r) \<in> set tr" for c r tr
  proof (rule member_le_sum_list)
    show "\<bar>r_num r\<bar> \<in> set (map (\<lambda>(c, r). \<bar>r_num r\<bar>) tr)" using that by (auto intro: rev_image_eqI)
  qed auto
  then have "r_num r \<noteq> sum_list (map (\<lambda>(c, r). \<bar>r_num r\<bar>) tr) + 1" if "(c, r) \<in> set tr" for c r tr
    using that by force
  then show "fresh_files card_env"
    unfolding fresh_files_def opened_def card_env_def by fastforce
qed

definition card_platform :: record_platform where
  "card_platform = \<lparr>pf_env = card_env, pf_settings = [], pf_led_env = quiet_env, pf_led = board_lp58xx\<rparr>"

definition first_block :: audio_block where
  "first_block = \<lparr>buf = [1, 2, 3, 4, 5, 6, 7, 8, 9, 10, 11, 12], block_start = 100, block_ticks = 1000, block_frame = 6\<rparr>"

definition second_block :: audio_block where
  "second_block = first_block\<lparr>buf := [13, 14, 15], block_start := 1100\<rparr>"

definition armed_recorder :: record_system where
  "armed_recorder = fresh_recorder\<lparr>rec_data := (waiting_at 600)\<lparr>initialised := True\<rparr>\<rparr>"

lemma first_plan:
  "plan_block (rec_data armed_recorder) first_block = Some \<lparr>old_file = False, new_file = True, split_offset = 6\<rparr>"
  by (simp add: plan_block_def armed_recorder_def waiting_at_def first_block_def wait_for_def
      DIV_ROUND_CLOSEST_def Let_def)

lemmas recorder_eval = record_buffer_def record_old_file_def record_new_file_def record_close_file_def Let_def
  wav_open_def wav_write_header_def wav_write_u16_def wav_write_u32_def wav_write_all_def wav_write_def
  wav_zero_def frame_bytes_def ROUND_DOWN_def record_format_def RECORD_FILE_MAX_SIZE_def
  FILE_NAME_SIZE_def RECORD_FILE_DIR_def RECORD_FILE_NAME_PREFIX_LEN_def RECORD_SYNC_INTERVAL_MS_def
  card_platform_def card_env_def quiet_reply_def


end
