(* ===== verification/Lftpd_Path.thy ===== *)
theory Lftpd_Path
  imports Prelude
begin

text \<open>
  The paths of the FTP server, \<^verbatim>\<open>firmware/lftpd/lftpd_path.c\<close>, and the trimming of arguments,
  \<^verbatim>\<open>lftpd_string.c\<close>. Both work in place on NUL-terminated strings inside buffers. A buffer is the list
  of characters from the pointer to the end of the object it points into, so that its length is the
  room that really exists; the length a caller claims is a separate argument. A function returns \<open>None\<close>
  when it accesses memory outside the buffer.
\<close>

abbreviation NUL :: char where "NUL \<equiv> CHR 0x00"
abbreviation SLASH :: char where "SLASH \<equiv> CHR 0x2F"

definition cstring :: "char list \<Rightarrow> string" where
  \<comment> \<open>the string in a buffer\<close>
  "cstring buf = takeWhile (\<lambda>c. c \<noteq> NUL) buf"

definition strlen :: "char list \<Rightarrow> nat option" where
  "strlen buf = (if NUL \<in> set buf then Some (length (cstring buf)) else None)"

definition store :: "char list \<Rightarrow> nat \<Rightarrow> char list \<Rightarrow> char list option" where
  \<comment> \<open>\<open>memcpy\<close> or \<open>memmove\<close> of the given characters to an offset\<close>
  "store buf off xs = (if off + length xs \<le> length buf then Some (blit off xs buf) else None)"

fun trim_slash_loop :: "nat \<Rightarrow> char list \<Rightarrow> char list" where
  "trim_slash_loop 0 path = path"
| "trim_slash_loop (Suc i) path =
     (if path ! Suc i = SLASH then trim_slash_loop i (path[Suc i := NUL]) else path)"

definition lftpd_path_trim_trailing_slash :: "char list \<Rightarrow> char list option" where
  "lftpd_path_trim_trailing_slash path =
     do { path_len \<leftarrow> strlen path;
          Some (if path_len = 0 then path else trim_slash_loop (path_len - 1) path) }"

definition lftpd_path_prefix :: "string \<Rightarrow> char list \<Rightarrow> nat \<Rightarrow> (int \<times> char list) option" where
  "lftpd_path_prefix prefix path path_buf_len =
     (if path_buf_len = 0 then Some (- EINVAL, path)
      else do {
        path_len \<leftarrow> strlen path;
        let prefix_len = length prefix;
        if prefix_len = 0 then Some (0, path)
        else if path_len = 0 then
          (if prefix_len + 1 > path_buf_len then Some (- ENAMETOOLONG, path)
           else do { path \<leftarrow> store path 0 (prefix @ [NUL]); Some (0, path) })
        else do {
          let prefix_trailing_slash = (prefix ! (prefix_len - 1) = SLASH);
          let path_leading_slash = (path ! 0 = SLASH);
          let (skip, slash_index, path_offset) =
            (if prefix_trailing_slash \<and> path_leading_slash then (1, prefix_len - 1, prefix_len)
             else if prefix_trailing_slash then (0, prefix_len - 1, prefix_len)
             else if path_leading_slash then (0, prefix_len, prefix_len)
             else (0, prefix_len, prefix_len + 1));
          let path_len = path_len - skip;
          if path_offset + path_len + 1 > path_buf_len then Some (- ENAMETOOLONG, path)
          else do {
            path \<leftarrow> store path path_offset (take (path_len + 1) (drop skip path));
            path \<leftarrow> store path 0 prefix;
            path \<leftarrow> store path slash_index [SLASH];
            Some (0, path) } } })"

definition lftpd_path_resolve ::
  "string \<Rightarrow> string \<Rightarrow> char list \<Rightarrow> nat \<Rightarrow> (int \<times> char list) option" where
  \<comment> \<open>for pointers that are not null\<close>
  "lftpd_path_resolve base_dir working_dir path path_buf_len =
     (if path_buf_len = 0 then Some (- EINVAL, path)
      else if path = [] then None
      else do {
        (ret, path) \<leftarrow> lftpd_path_prefix (if path ! 0 = SLASH then base_dir else working_dir) path path_buf_len;
        if ret < 0 then Some (ret, path)
        else do { path \<leftarrow> lftpd_path_trim_trailing_slash path; Some (0, path) } })"

section \<open>Trimming arguments\<close>

function trim_front :: "char list \<Rightarrow> nat \<Rightarrow> nat \<Rightarrow> nat \<Rightarrow> nat option" where
  \<comment> \<open>the first loop: \<open>s\<close> is the pointer and \<open>i\<close> the index, both of which advance; the result is the
      pointer after the loop\<close>
  "trim_front buf len s i =
     (if i < len then
        if length buf \<le> s + i then None
        else if isspace (buf ! (s + i)) then trim_front buf len (s + 1) (i + 1) else Some s
      else Some s)"
  by pat_completeness auto
termination by (relation "measure (\<lambda>(buf, len, s, i). len - i)") auto

fun trim_back :: "char list \<Rightarrow> nat \<Rightarrow> nat \<Rightarrow> char list option" where
  \<comment> \<open>the second loop, from offset \<open>s + i\<close> down: its condition \<open>i >= 0\<close> is always true, so that it leaves
      the buffer when it finds white space only\<close>
  "trim_back buf s i =
     (if length buf \<le> s + i then None
      else if isspace (buf ! (s + i)) then
        (if s + i = 0 then None
         else if i = 0 then trim_back (buf[s + i := NUL]) (s - 1) 0
         else trim_back (buf[s + i := NUL]) s (i - 1))
      else Some buf)"

definition lftpd_string_trim :: "char list \<Rightarrow> nat \<Rightarrow> (nat \<times> char list) option" where
  \<comment> \<open>the string is the one at offset \<open>s\<close>; the result is the offset of the trimmed string\<close>
  "lftpd_string_trim buf s =
     do { len \<leftarrow> strlen (drop s buf);
          s \<leftarrow> trim_front buf len s 0;
          len \<leftarrow> strlen (drop s buf);
          if len = 0 then Some (s, buf)
          else do { buf \<leftarrow> trim_back buf s (len - 1); Some (s, buf) } }"

section \<open>Strings in buffers\<close>

lemma cstring_append: "NUL \<notin> set s \<Longrightarrow> cstring (s @ NUL # rest) = s"
  by (induction s) (auto simp: cstring_def)

lemma buffer_split:
  assumes "NUL \<in> set buf"
  obtains rest where "buf = cstring buf @ NUL # rest" "NUL \<notin> set (cstring buf)"
proof -
  have "dropWhile (\<lambda>c. c \<noteq> NUL) buf \<noteq> []" using assms by (simp add: dropWhile_eq_Nil_conv)
  then obtain c rest where c: "dropWhile (\<lambda>c. c \<noteq> NUL) buf = c # rest" by (cases "dropWhile (\<lambda>c. c \<noteq> NUL) buf") auto
  then have "c = NUL" using hd_dropWhile [of "\<lambda>c. c \<noteq> NUL" buf] by simp
  then have "buf = cstring buf @ NUL # rest" using c unfolding cstring_def by (metis takeWhile_dropWhile_id)
  then show ?thesis by (rule that) (auto simp: cstring_def dest: set_takeWhileD)
qed

lemma strlen_append [simp]: "NUL \<notin> set s \<Longrightarrow> strlen (s @ NUL # rest) = Some (length s)"
  by (simp add: strlen_def cstring_append)

section \<open>What a resolved path is\<close>

definition path_join :: "string \<Rightarrow> string \<Rightarrow> string" where
  \<comment> \<open>the two parts with exactly one slash between them, or the one that is not empty\<close>
  "path_join p q =
     (if p = [] then q else if q = [] then p
      else (if last p = SLASH then butlast p else p) @ SLASH # (if hd q = SLASH then tl q else q))"

definition strip_slashes :: "string \<Rightarrow> string" where
  \<comment> \<open>no slashes at the end, unless nothing would be left\<close>
  "strip_slashes s = (case s of [] \<Rightarrow> [] | c # cs \<Rightarrow> c # rev (dropWhile (\<lambda>c. c = SLASH) (rev cs)))"

definition resolved_path :: "string \<Rightarrow> string \<Rightarrow> string \<Rightarrow> string" where
  "resolved_path base_dir working_dir q =
     strip_slashes (path_join (if q \<noteq> [] \<and> hd q = SLASH then base_dir else working_dir) q)"

lemma path_join_no_NUL: "NUL \<notin> set p \<Longrightarrow> NUL \<notin> set q \<Longrightarrow> NUL \<notin> set (path_join p q)"
  by (auto simp: path_join_def dest: in_set_butlastD list.set_sel(2))

lemma store_over:
  assumes "off = length p + length gap" "length p + length gap + length xs \<le> length m"
    and "gap = take (length gap) (drop (length p) m)"
  shows "store m off xs = Some (take off m @ xs @ drop (off + length xs) m)"
    and "store (take off m @ xs @ drop (off + length xs) m) 0 p = Some (p @ gap @ xs @ drop (off + length xs) m)"
proof -
  show "store m off xs = Some (take off m @ xs @ drop (off + length xs) m)"
    using assms by (simp add: store_def blit_def)
  have "drop (length p) (take off m) = gap" using assms by (simp add: drop_take)
  then show "store (take off m @ xs @ drop (off + length xs) m) 0 p = Some (p @ gap @ xs @ drop (off + length xs) m)"
    using assms(1,2) by (simp add: store_def blit_def)
qed

lemma store_char: "k = length xs \<Longrightarrow> store (xs @ c # ys) k [d] = Some (xs @ d # ys)"
  by (simp add: store_def blit_def)

lemma path_prefix_joins:
  assumes "NUL \<notin> set p" "NUL \<notin> set q" "p \<noteq> []" "q \<noteq> []"
    and "length (path_join p q) + 1 \<le> path_buf_len" "path_buf_len \<le> length m" and m: "m = q @ NUL # rest"
  shows "\<exists>rest'. lftpd_path_prefix p m path_buf_len = Some (0, path_join p q @ NUL # rest') \<and>
    length (path_join p q @ NUL # rest') = length m"
proof -
  obtain p' pl where p: "p = p' @ [pl]" using assms(3) by (cases p rule: rev_cases) auto
  obtain ql q' where q: "q = ql # q'" using assms(4) by (cases q) auto
  have len: "strlen m = Some (length q)" using assms(2) m by simp
  have m0: "m ! 0 = ql" using m q by simp
  have buf: "path_buf_len \<noteq> 0" using assms(5) by simp
  define r where "r n = drop n m" for n
  consider (both) "pl = SLASH" "ql = SLASH" | (tail) "pl = SLASH" "ql \<noteq> SLASH"
    | (head) "pl \<noteq> SLASH" "ql = SLASH" | (none) "pl \<noteq> SLASH" "ql \<noteq> SLASH" by blast
  then show ?thesis
  proof cases
    case both
    then have j: "path_join p q = p @ q'" using p q by (simp add: path_join_def)
    have rest: "take (length q - 1 + 1) (drop 1 m) = q' @ [NUL]" using m q by simp
    have fits: "length p + length ([] :: string) + length (q' @ [NUL]) \<le> length m" using assms(5,6) j by simp
    note st = store_over [of "length p" p "[]" "q' @ [NUL]" m, OF _ fits]
    have "lftpd_path_prefix p m path_buf_len = Some (0, (p @ q') @ NUL # drop (length p + length (q' @ [NUL])) m)"
      using both p len m0 buf assms(5) j rest st store_char [of "length p'" p' pl "q' @ NUL # drop (length p + length (q' @ [NUL])) m" SLASH] q
      by (simp add: lftpd_path_prefix_def Let_def)
    then show ?thesis using fits j by (intro exI [of _ "drop (length p + length (q' @ [NUL])) m"]) simp
  next
    case tail
    then have j: "path_join p q = p @ q" using p q by (simp add: path_join_def)
    have rest: "take (length q + 1) m = q @ [NUL]" using m by simp
    have fits: "length p + length ([] :: string) + length (q @ [NUL]) \<le> length m" using assms(5,6) j by simp
    note st = store_over [of "length p" p "[]" "q @ [NUL]" m, OF _ fits]
    have "lftpd_path_prefix p m path_buf_len = Some (0, (p @ q) @ NUL # drop (length p + length (q @ [NUL])) m)"
      using tail p len m0 buf assms(5) j rest st store_char [of "length p'" p' pl "q @ NUL # drop (length p + length (q @ [NUL])) m" SLASH] q
      by (simp add: lftpd_path_prefix_def Let_def)
    then show ?thesis using fits j by (intro exI [of _ "drop (length p + length (q @ [NUL])) m"]) simp
  next
    case head
    then have j: "path_join p q = p @ q" using p q by (simp add: path_join_def)
    have rest: "take (length q + 1) m = q @ [NUL]" using m by simp
    have fits: "length p + length ([] :: string) + length (q @ [NUL]) \<le> length m" using assms(5,6) j by simp
    note st = store_over [of "length p" p "[]" "q @ [NUL]" m, OF _ fits]
    have "lftpd_path_prefix p m path_buf_len = Some (0, (p @ q) @ NUL # drop (length p + length (q @ [NUL])) m)"
      using head p len m0 buf assms(5) j rest st store_char [of "length p" p ql "q' @ NUL # drop (length p + length (q @ [NUL])) m" SLASH] q
      by (simp add: lftpd_path_prefix_def Let_def)
    then show ?thesis using fits j by (intro exI [of _ "drop (length p + length (q @ [NUL])) m"]) simp
  next
    case none
    then have j: "path_join p q = p @ SLASH # q" using p q by (simp add: path_join_def)
    have rest: "take (length q + 1) m = q @ [NUL]" using m by simp
    have fits: "length p + length [m ! length p] + length (q @ [NUL]) \<le> length m" using assms(5,6) j by simp
    have "[m ! length p] = take (length [m ! length p]) (drop (length p) m)"
      using fits by (simp add: take_Suc_conv_app_nth)
    note st = store_over [of "length p + 1" p "[m ! length p]" "q @ [NUL]" m, OF _ fits this]
    have "lftpd_path_prefix p m path_buf_len = Some (0, (p @ SLASH # q) @ NUL # drop (length p + 1 + length (q @ [NUL])) m)"
      using none p len m0 buf assms(5) j rest st store_char [of "length p" p "m ! length p" "q @ NUL # drop (length p + 1 + length (q @ [NUL])) m" SLASH] q
      by (simp add: lftpd_path_prefix_def Let_def)
    then show ?thesis using fits j by (intro exI [of _ "drop (length p + 1 + length (q @ [NUL])) m"]) simp
  qed
qed

lemma path_prefix_too_long:
  assumes "NUL \<notin> set q" "p \<noteq> []" "path_buf_len < length (path_join p q) + 1" "path_buf_len \<noteq> 0"
  shows "lftpd_path_prefix p (q @ NUL # rest) path_buf_len = Some (- ENAMETOOLONG, q @ NUL # rest)"
proof (cases "q = []")
  case True
  then show ?thesis
    using assms strlen_append [of "[]" rest] by (simp add: lftpd_path_prefix_def path_join_def)
next
  case False
  then obtain c q' where q: "q = c # q'" by (cases q) auto
  obtain n where n: "length p = Suc n" using assms(2) by (cases p) auto
  have "last p = p ! (length p - 1)" using assms(2) by (rule last_conv_nth)
  moreover have "strlen (c # q' @ NUL # rest) = Some (Suc (length q'))"
    using strlen_append [of q rest] assms(1) q by simp
  ultimately show ?thesis
    using assms(2-4) q n by (auto simp: lftpd_path_prefix_def path_join_def Let_def split: if_splits)
qed

lemma path_prefix_nothing:
  assumes "NUL \<notin> set q" "path_buf_len \<noteq> 0"
  shows "lftpd_path_prefix [] (q @ NUL # rest) path_buf_len = Some (0, path_join [] q @ NUL # rest)"
  using assms by (simp add: lftpd_path_prefix_def path_join_def)

lemma path_prefix_only:
  assumes "p \<noteq> []" "length (path_join p []) + 1 \<le> path_buf_len" "path_buf_len \<le> length (NUL # rest)"
  shows "\<exists>rest'. lftpd_path_prefix p (NUL # rest) path_buf_len = Some (0, path_join p [] @ NUL # rest') \<and>
    length (path_join p [] @ NUL # rest') = length (NUL # rest)"
  using assms strlen_append [of "[]" rest]
  by (intro exI [of _ "drop (length p) rest"]) (simp add: lftpd_path_prefix_def path_join_def Let_def store_def blit_def)

lemma trim_slash_loop_strips:
  "\<exists>n. trim_slash_loop (length cs) ((c # cs) @ NUL # rest) = strip_slashes (c # cs) @ replicate n NUL @ NUL # rest \<and>
     length (strip_slashes (c # cs)) + n = length (c # cs)"
proof (induction cs arbitrary: rest rule: rev_induct)
  case Nil
  show ?case by (intro exI [of _ 0]) (simp add: strip_slashes_def)
next
  case (snoc x cs)
  show ?case
  proof (cases "x = SLASH")
    case True
    from snoc obtain n where
      n: "trim_slash_loop (length cs) ((c # cs) @ NUL # NUL # rest) = strip_slashes (c # cs) @ replicate n NUL @ NUL # NUL # rest"
         "length (strip_slashes (c # cs)) + n = length (c # cs)" by blast
    have "strip_slashes (c # cs @ [x]) = strip_slashes (c # cs)" using True by (simp add: strip_slashes_def)
    then show ?thesis
      using n True by (intro exI [of _ "Suc n"]) (simp add: list_update_append replicate_app_Cons_same)
  next
    case False
    then show ?thesis by (intro exI [of _ 0]) (simp add: strip_slashes_def)
  qed
qed

lemma trim_trailing_slash_strips:
  assumes "NUL \<notin> set s"
  shows "\<exists>rest'. lftpd_path_trim_trailing_slash (s @ NUL # rest) = Some (strip_slashes s @ NUL # rest') \<and>
    length (strip_slashes s @ NUL # rest') = length (s @ NUL # rest)"
proof (cases s)
  case Nil
  then show ?thesis using assms strlen_append [of "[]" rest]
    by (intro exI [of _ rest]) (simp add: lftpd_path_trim_trailing_slash_def strip_slashes_def)
next
  case (Cons c cs)
  obtain n where n: "trim_slash_loop (length cs) ((c # cs) @ NUL # rest) = strip_slashes (c # cs) @ replicate n NUL @ NUL # rest"
      "length (strip_slashes (c # cs)) + n = length (c # cs)"
    using trim_slash_loop_strips [of cs c rest] by blast
  have "lftpd_path_trim_trailing_slash (s @ NUL # rest) = Some (strip_slashes s @ NUL # replicate n NUL @ rest)"
    using n strlen_append [OF assms, of rest] Cons
    by (simp add: lftpd_path_trim_trailing_slash_def) (simp add: replicate_app_Cons_same)
  then show ?thesis using n(2) Cons by (intro exI [of _ "replicate n NUL @ rest"]) simp
qed

lemma strip_slashes_no_NUL: "NUL \<notin> set s \<Longrightarrow> NUL \<notin> set (strip_slashes s)"
  by (auto simp: strip_slashes_def dest: set_dropWhileD split: list.splits)

lemma path_prefix_cases:
  assumes "NUL \<notin> set p" "NUL \<notin> set q" "length q < n" "n \<le> length (q @ NUL # rest)"
    and "length (path_join p q) < n"
  obtains rest' where "lftpd_path_prefix p (q @ NUL # rest) n = Some (0, path_join p q @ NUL # rest')"
    "length (path_join p q @ NUL # rest') = length (q @ NUL # rest)"
proof -
  consider "p = []" | "p \<noteq> []" "q = []" | "p \<noteq> []" "q \<noteq> []" by blast
  then show thesis
  proof cases
    case 1
    then show thesis using that [of rest] path_prefix_nothing [OF assms(2), of n rest] assms(3)
      by (simp add: path_join_def)
  next
    case 2
    then show thesis using that path_prefix_only [of p n rest] assms by auto
  next
    case 3
    then show thesis using that path_prefix_joins [OF assms(1,2), of n "q @ NUL # rest" rest] assms by auto
  qed
qed

section \<open>Properties\<close>

text \<open>
  Property C22. \<open>lftpd_path_resolve\<close>, given a string in a buffer of at least the length it is told, never
  leaves the buffer. When the joined path and its terminator fit, it returns 0 with the specified path in
  the buffer: the base directory or the working directory and the argument, with exactly one
  slash between them and none at the end. Otherwise it returns \<open>-ENAMETOOLONG\<close> and the buffer is as it was.
\<close>
theorem lftpd_path_resolve_spec:
  assumes "NUL \<notin> set base_dir" "NUL \<notin> set working_dir" "NUL \<notin> set q"
    and "length q < path_buf_len" "path_buf_len \<le> length (q @ NUL # rest)"
  shows "let p = (if q \<noteq> [] \<and> hd q = SLASH then base_dir else working_dir) in
    if length (path_join p q) < path_buf_len
    then \<exists>rest'. lftpd_path_resolve base_dir working_dir (q @ NUL # rest) path_buf_len =
                   Some (0, resolved_path base_dir working_dir q @ NUL # rest') \<and>
                 length (resolved_path base_dir working_dir q @ NUL # rest') = length (q @ NUL # rest)
    else lftpd_path_resolve base_dir working_dir (q @ NUL # rest) path_buf_len = Some (- ENAMETOOLONG, q @ NUL # rest)"
proof -
  define p where "p = (if q \<noteq> [] \<and> hd q = SLASH then base_dir else working_dir)"
  have choice: "(if (q @ NUL # rest) ! 0 = SLASH then base_dir else working_dir) = p"
    by (cases q) (simp_all add: p_def)
  have p: "NUL \<notin> set p" using assms(1,2) by (simp add: p_def)
  note resolve = lftpd_path_resolve_def [of base_dir working_dir "q @ NUL # rest" path_buf_len, unfolded choice]
  show ?thesis
  proof (cases "length (path_join p q) < path_buf_len")
    case True
    obtain r1 where r1: "lftpd_path_prefix p (q @ NUL # rest) path_buf_len = Some (0, path_join p q @ NUL # r1)"
        "length (path_join p q @ NUL # r1) = length (q @ NUL # rest)"
      using path_prefix_cases [OF p assms(3-5) True] .
    obtain r2 where "lftpd_path_trim_trailing_slash (path_join p q @ NUL # r1) = Some (strip_slashes (path_join p q) @ NUL # r2)"
        "length (strip_slashes (path_join p q) @ NUL # r2) = length (path_join p q @ NUL # r1)"
      using trim_trailing_slash_strips [OF path_join_no_NUL [OF p assms(3)], of r1] by blast
    then show ?thesis
      using True r1 assms(4) by (auto simp: resolve resolved_path_def p_def [symmetric] Let_def)
  next
    case False
    moreover from False assms(4) have "p \<noteq> []" by (auto simp: path_join_def)
    ultimately show ?thesis
      using path_prefix_too_long [OF assms(3), of p path_buf_len rest] assms(4)
      by (simp add: resolve p_def [symmetric])
  qed
qed

theorem lftpd_path_resolve_spec_witness:
  "\<exists>rest'. lftpd_path_resolve ''/'' ''/SD:/audio'' (''take1/'' @ NUL # replicate 122 NUL) 129 =
     Some (0, ''/SD:/audio/take1'' @ NUL # rest')"
proof -
  have "resolved_path ''/'' ''/SD:/audio'' ''take1/'' = ''/SD:/audio/take1''" by code_simp
  moreover have "length (path_join ''/SD:/audio'' ''take1/'') = 17" by code_simp
  ultimately show ?thesis
    using lftpd_path_resolve_spec [of "''/''" "''/SD:/audio''" "''take1/''" 129 "replicate 122 NUL"]
    by (auto simp: Let_def)
qed

lemma string_trim_leaves_white_space:
  \<comment> \<open>the first loop advances both the pointer and the index, so that it looks at every other character\<close>
  "lftpd_string_trim (''  a'' @ [NUL]) 0 = Some (1, ''  a'' @ [NUL])"
  by code_simp

lemma string_trim_leaves_buffer:
  \<comment> \<open>of two blanks, the second loop removes both and goes on below the start of the object; of three, the
      first loop reads behind the terminator\<close>
  "lftpd_string_trim (''  '' @ [NUL]) 0 = None" "lftpd_string_trim (''   '' @ [NUL]) 0 = None"
  by code_simp+

end
