(* ===== verification/Lftpd_Inet.thy ===== *)
theory Lftpd_Inet
  imports Zephyr Lftpd_Path "HOL-Library.Sublist"
begin

text \<open>
  The sockets of the FTP server, \<^verbatim>\<open>firmware/lftpd/lftpd_inet.c\<close>. The network stack is the environment.
  The loops that depend on it are bounded by a number of turns; the result is \<open>None\<close> when
  they are not over by then, or when they access memory outside the buffer.
\<close>

abbreviation (input) AF_INET :: nat where "AF_INET \<equiv> 1"

abbreviation CR :: char where "CR \<equiv> CHR 0x0D"
abbreviation LF :: char where "LF \<equiv> CHR 0x0A"
abbreviation CRLF :: string where "CRLF \<equiv> [CR, LF]"

section \<open>Calls of the network stack\<close>

definition call :: "env \<Rightarrow> ext_call \<Rightarrow> trace \<Rightarrow> (reply \<times> trace) option" where
  "call env c tr = Some (run_state (ext env c) tr)"

lemma call_eq [simp]: "call env c tr = Some (env tr c, tr @ [(c, env tr c)])"
  by (simp add: call_def)

definition recv_data :: "nat \<Rightarrow> reply \<Rightarrow> string" where
  \<comment> \<open>what a call that may return up to \<open>n\<close> bytes of data stores\<close>
  "recv_data n r = (if r_ret r < 0 then [] else take n (r_text r))"

definition recv_ret :: "nat \<Rightarrow> reply \<Rightarrow> int" where
  \<comment> \<open>its return value: the number of bytes, 0 at the end of the stream, or a negative error\<close>
  "recv_ret n r = (if r_ret r < 0 then r_ret r else int (length (recv_data n r)))"

definition send_ret :: "string \<Rightarrow> reply \<Rightarrow> int" where
  \<comment> \<open>the return value of \<open>zsock_send\<close>: the number of bytes taken, or a negative error\<close>
  "send_ret msg r = (if r_ret r < 0 then r_ret r else min (r_ret r) (int (length msg)))"

section \<open>Listening\<close>

definition lftpd_inet_listen :: "env \<Rightarrow> u16 \<Rightarrow> trace \<Rightarrow> (int \<times> trace) option" where
  "lftpd_inet_listen env port tr =
     do { (r, tr) \<leftarrow> call env SockSocket tr;
          let s = r_ret r;
          if s < 0 then Some (- 1, tr)
          else do {
            (r, tr) \<leftarrow> call env (SockBind s (unat port)) tr;
            if r_ret r < 0 then do { (_, tr) \<leftarrow> call env (SockClose s) tr; Some (- 1, tr) }
            else do {
              (r, tr) \<leftarrow> call env (SockListen s) tr;
              if r_ret r < 0 then do { (_, tr) \<leftarrow> call env (SockClose s) tr; Some (- 1, tr) }
              else Some (s, tr) } } }"

definition lftpd_inet_get_socket_port :: "env \<Rightarrow> int \<Rightarrow> trace \<Rightarrow> (int \<times> trace) option" where
  "lftpd_inet_get_socket_port env socket tr =
     do { (r, tr) \<leftarrow> call env (SockGetsockname socket) tr;
          if r_ret r \<noteq> 0 then Some (- 1, tr)
          else Some (uint (word_of_int (r_num r) :: u16), tr) }"

section \<open>Reading a line\<close>

fun find_crlf :: "string \<Rightarrow> nat option" where
  \<comment> \<open>\<open>strstr(s, "\r\n")\<close>\<close>
  "find_crlf (a # b # s) = (if a = CR \<and> b = LF then Some 0 else map_option Suc (find_crlf (b # s)))"
| "find_crlf s = None"

primrec read_line_loop ::
  "env \<Rightarrow> nat \<Rightarrow> int \<Rightarrow> nat \<Rightarrow> char list \<Rightarrow> nat \<Rightarrow> bool \<Rightarrow> trace \<Rightarrow> ((int \<times> char list) \<times> trace) option" where
  "read_line_loop env 0 socket buffer_len buffer total_read_len overflow tr = None"
| "read_line_loop env (Suc fuel) socket buffer_len buffer total_read_len overflow tr =
     do { let room = buffer_len - total_read_len - 1;
          (r, tr) \<leftarrow> call env (SockRecv socket room) tr;
          let read_len = recv_ret room r;
          if read_len = 0 then Some ((- ECONNRESET, buffer), tr)
          else if read_len < 0 then Some ((read_len, buffer), tr)
          else do {
            buffer \<leftarrow> store buffer total_read_len (recv_data room r);
            let total_read_len = total_read_len + nat read_len;
            case find_crlf (cstring buffer) of
              Some p \<Rightarrow>
                if overflow then Some ((- EOVERFLOW, buffer), tr)
                else Some ((int total_read_len, buffer[p := NUL]), tr)
            | None \<Rightarrow>
                if total_read_len = buffer_len - 1 then
                  (if buffer ! (total_read_len - 1) = CR
                   then read_line_loop env fuel socket buffer_len (buffer[0 := CR, 1 := NUL]) 1 True tr
                   else read_line_loop env fuel socket buffer_len (buffer[0 := NUL]) 0 True tr)
                else read_line_loop env fuel socket buffer_len buffer total_read_len overflow tr } }"

definition lftpd_inet_read_line ::
  "env \<Rightarrow> nat \<Rightarrow> int \<Rightarrow> char list \<Rightarrow> nat \<Rightarrow> trace \<Rightarrow> ((int \<times> char list) \<times> trace) option" where
  "lftpd_inet_read_line env fuel socket buffer buffer_len tr =
     (if buffer_len < 2 then Some ((- EINVAL, buffer), tr)
      else do { buffer \<leftarrow> store buffer 0 (replicate buffer_len NUL);
                read_line_loop env fuel socket buffer_len buffer 0 False tr })"

section \<open>Writing a string\<close>

primrec send_loop :: "env \<Rightarrow> nat \<Rightarrow> int \<Rightarrow> string \<Rightarrow> trace \<Rightarrow> (int \<times> trace) option" where
  \<comment> \<open>\<open>p\<close> are the characters that are left\<close>
  "send_loop env 0 socket p tr = (if p = [] then Some (0, tr) else None)"
| "send_loop env (Suc fuel) socket p tr =
     (if p = [] then Some (0, tr)
      else do { (r, tr) \<leftarrow> call env (SockSend socket p) tr;
                let write_len = send_ret p r;
                if write_len < 0 then Some (write_len, tr)
                else send_loop env fuel socket (drop (nat write_len) p) tr })"

definition lftpd_inet_write_string :: "env \<Rightarrow> nat \<Rightarrow> int \<Rightarrow> string \<Rightarrow> trace \<Rightarrow> (int \<times> trace) option" where
  "lftpd_inet_write_string env fuel socket message tr = send_loop env fuel socket message tr"

section \<open>What goes over a socket\<close>

definition received_in :: "int \<Rightarrow> ext_call \<times> reply \<Rightarrow> string" where
  "received_in s ev = (case fst ev of SockRecv s' n \<Rightarrow> if s' = s then recv_data n (snd ev) else [] | _ \<Rightarrow> [])"

definition received :: "int \<Rightarrow> trace \<Rightarrow> string" where
  "received s tr = concat (map (received_in s) tr)"

definition sent_in :: "int \<Rightarrow> ext_call \<times> reply \<Rightarrow> string" where
  "sent_in s ev = (case fst ev of SockSend s' m \<Rightarrow>
     if s' = s \<and> 0 \<le> r_ret (snd ev) then take (nat (send_ret m (snd ev))) m else [] | _ \<Rightarrow> [])"

definition sent :: "int \<Rightarrow> trace \<Rightarrow> string" where
  "sent s tr = concat (map (sent_in s) tr)"

lemma received_append [simp]: "received s (tr @ evs) = received s tr @ received s evs"
  and received_one [simp]: "received s [ev] = received_in s ev"
  and received_nil [simp]: "received s [] = []"
  and sent_append [simp]: "sent s (tr @ evs) = sent s tr @ sent s evs"
  and sent_one [simp]: "sent s [ev] = sent_in s ev"
  and sent_nil [simp]: "sent s [] = []"
  by (simp_all add: received_def sent_def)

text \<open>
  A peer that sends a stream of characters, in whatever fragments: as long as there is some left, a
  call returns at least one character and at most what there is room for.
\<close>

definition delivers :: "env \<Rightarrow> int \<Rightarrow> string \<Rightarrow> bool" where
  "delivers env s stream \<longleftrightarrow>
     (\<forall>tr n. 0 < n \<and> strict_prefix (received s tr) stream \<longrightarrow>
        (let r = env tr (SockRecv s n); d = recv_data n r in
         0 \<le> r_ret r \<and> d \<noteq> [] \<and> prefix (received s tr @ d) stream))"

text \<open>A peer that takes at least one character of every message.\<close>

definition takes_some :: "env \<Rightarrow> int \<Rightarrow> bool" where
  "takes_some env s \<longleftrightarrow> (\<forall>tr m. m \<noteq> [] \<longrightarrow> 1 \<le> r_ret (env tr (SockSend s m)))"

lemma send_loop_complete:
  assumes "takes_some env s" "length p \<le> fuel"
  shows "\<exists>evs. send_loop env fuel s p tr = Some (0, tr @ evs) \<and> sent s evs = p"
  using assms(2)
proof (induction fuel arbitrary: p tr)
  case 0
  then show ?case by simp
next
  case (Suc fuel)
  show ?case
  proof (cases "p = []")
    case True
    then show ?thesis by simp
  next
    case False
    let ?r = "env tr (SockSend s p)"
    define k where "k = nat (send_ret p ?r)"
    have "1 \<le> r_ret ?r" using assms(1) False by (simp add: takes_some_def)
    then have k: "send_ret p ?r = int k" "1 \<le> k" "k \<le> length p" "0 \<le> r_ret ?r"
      using False by (auto simp: send_ret_def k_def) (cases p, simp_all)
    from k(2) Suc.prems have "length (drop k p) \<le> fuel" by simp
    from Suc.IH [OF this] obtain evs where
      e: "send_loop env fuel s (drop k p) (tr @ [(SockSend s p, ?r)]) = Some (0, (tr @ [(SockSend s p, ?r)]) @ evs)"
        "sent s evs = drop k p" by blast
    have "sent s ((SockSend s p, ?r) # evs) = take k p @ drop k p"
      using k e(2) by (simp add: sent_def sent_in_def)
    with e(1) k False show ?thesis by (intro exI [of _ "(SockSend s p, ?r) # evs"]) simp
  qed
qed

lemma send_loop_success:
  assumes "send_loop env fuel s p tr = Some (0, tr')"
  shows "\<exists>evs. tr' = tr @ evs \<and> sent s evs = p"
  using assms
proof (induction fuel arbitrary: p tr)
  case 0
  then show ?case by (auto split: if_splits)
next
  case (Suc fuel)
  show ?case
  proof (cases "p = []")
    case True
    then show ?thesis using Suc.prems by simp
  next
    case False
    let ?r = "env tr (SockSend s p)"
    have k: "0 \<le> send_ret p ?r" using Suc.prems False by (auto simp: Let_def split: if_splits)
    then have "send_loop env fuel s (drop (nat (send_ret p ?r)) p) (tr @ [(SockSend s p, ?r)]) = Some (0, tr')"
      using Suc.prems False by simp
    from Suc.IH [OF this] obtain evs where
      e: "tr' = (tr @ [(SockSend s p, ?r)]) @ evs" "sent s evs = drop (nat (send_ret p ?r)) p" by blast
    have "0 \<le> r_ret ?r" using k by (auto simp: send_ret_def split: if_splits)
    then have "sent s ((SockSend s p, ?r) # evs) = p" using e(2) by (simp add: sent_def sent_in_def)
    with e(1) show ?thesis by (intro exI [of _ "(SockSend s p, ?r) # evs"]) simp
  qed
qed

section \<open>Lines in fragments\<close>

lemma find_crlf_none: "LF \<notin> set s \<Longrightarrow> find_crlf s = None"
  by (induction s rule: find_crlf.induct) auto

lemma find_crlf_first: "LF \<notin> set s \<Longrightarrow> find_crlf (s @ CR # LF # t) = Some (length s)"
proof (induction s)
  case (Cons c s)
  then show ?case by (cases s) auto
qed simp

lemma cstring_prefix: "NUL \<notin> set x \<Longrightarrow> cstring (x @ y) = x @ cstring y"
  by (induction x) (auto simp: cstring_def)

lemma set_cstring: "set (cstring x) \<subseteq> set x"
  by (auto simp: cstring_def dest: set_takeWhileD)

text \<open>
  The state of the loop when it has received \<open>d\<close> of a line and its end: the buffer holds a final part of
  \<open>d\<close>, all of it until there was an overflow, and in any case its last character when that is a CR.
\<close>

definition line_inv :: "nat \<Rightarrow> char list \<Rightarrow> nat \<Rightarrow> bool \<Rightarrow> string \<Rightarrow> bool" where
  "line_inv n buffer k overflow d \<longleftrightarrow>
     length buffer = n \<and> k + 1 < n \<and> LF \<notin> set buffer \<and> suffix (take k buffer) d \<and>
     (k = 0 \<and> d \<noteq> [] \<longrightarrow> last d \<noteq> CR) \<and>
     (if overflow then n - 1 \<le> length d else buffer = d @ replicate (n - length d) NUL \<and> k = length d)"

lemma line_inv_init: "2 < n \<Longrightarrow> line_inv n (replicate n NUL) 0 False []"
  by (simp add: line_inv_def)

lemma store_chunk:
  assumes "line_inv n buffer k overflow d" "length c \<le> n - k - 1"
  shows "store buffer k c = Some (take k buffer @ c @ drop (k + length c) buffer)"
  using assms by (auto simp: line_inv_def store_def blit_def)

lemma line_inv_step:
  assumes inv: "line_inv n buffer k overflow d" and c: "c \<noteq> []" "length c \<le> n - k - 1"
    and no: "LF \<notin> set (d @ c)"
  defines "b \<equiv> take k buffer @ c @ drop (k + length c) buffer"
  shows "find_crlf (cstring b) = None"
    and "k + length c \<noteq> n - 1 \<Longrightarrow> line_inv n b (k + length c) overflow (d @ c)"
    and "k + length c = n - 1 \<Longrightarrow> b ! (k + length c - 1) = CR \<Longrightarrow> 2 < n \<Longrightarrow> line_inv n (b[0 := CR, 1 := NUL]) 1 True (d @ c)"
    and "k + length c = n - 1 \<Longrightarrow> b ! (k + length c - 1) \<noteq> CR \<Longrightarrow> line_inv n (b[0 := NUL]) 0 True (d @ c)"
proof -
  note i = inv [unfolded line_inv_def]
  have len: "length b = n" using i c(2) by (auto simp: b_def)
  have lf: "LF \<notin> set b"
    using i no by (auto simp: b_def dest: in_set_takeD in_set_dropD)
  then show "find_crlf (cstring b) = None" using set_cstring by (intro find_crlf_none) blast
  have part: "take (k + length c) b = take k buffer @ c" using i c(2) by (simp add: b_def)
  have sfx: "suffix (take (k + length c) b) (d @ c)" using i part by (auto simp: suffix_def)
  have lst: "b ! (k + length c - 1) = last (d @ c)"
    using c i by (simp add: b_def nth_append last_conv_nth) (cases c, auto)
  have grown: "k + length c \<le> length (d @ c)" using i by (auto dest!: suffix_length_le)
  show "line_inv n b (k + length c) overflow (d @ c)" if "k + length c \<noteq> n - 1"
  proof -
    have "b = (d @ c) @ replicate (n - length (d @ c)) NUL \<and> k + length c = length (d @ c)" if "\<not> overflow"
      using that i by (simp add: b_def)
    then show ?thesis
      using that i c len lf sfx unfolding line_inv_def by (simp only: if_split) auto
  qed
  show "line_inv n (b[0 := CR, 1 := NUL]) 1 True (d @ c)"
    if "k + length c = n - 1" "b ! (k + length c - 1) = CR" "2 < n"
  proof -
    have "take 1 (b[0 := CR, 1 := NUL]) = [CR]" using len that by (cases b) auto
    moreover have "suffix [CR] (d @ c)" using that lst c by (metis append_butlast_last_id append_is_Nil_conv suffixI)
    moreover have "LF \<notin> set (b[0 := CR, 1 := NUL])" using lf by (auto dest!: subsetD [OF set_update_subset_insert])
    ultimately show ?thesis using len that grown by (simp add: line_inv_def)
  qed
  show "line_inv n (b[0 := NUL]) 0 True (d @ c)"
    if "k + length c = n - 1" "b ! (k + length c - 1) \<noteq> CR"
  proof -
    have "LF \<notin> set (b[0 := NUL])" using lf by (auto dest!: subsetD [OF set_update_subset_insert])
    then show ?thesis using len that grown lst i by (simp add: line_inv_def)
  qed
qed

lemma suffix_two: "suffix x (l @ [a, b]) \<Longrightarrow> x \<noteq> [] \<Longrightarrow> x \<noteq> [b] \<Longrightarrow> \<exists>y. x = y @ [a, b]"
  by (cases x rule: rev_cases; cases "butlast x" rule: rev_cases) (auto simp: suffix_def)

lemma line_inv_last:
  assumes inv: "line_inv n buffer k overflow d" and c: "c \<noteq> []" "length c \<le> n - k - 1"
    and dc: "d @ c = line @ CRLF" and line: "NUL \<notin> set line" "LF \<notin> set line"
  defines "b \<equiv> take k buffer @ c @ drop (k + length c) buffer"
  shows "\<exists>p. find_crlf (cstring b) = Some p \<and>
    (\<not> overflow \<longrightarrow> k + length c = length line + 2 \<and> length line + 2 < n \<and>
       b[p := NUL] = line @ NUL # LF # replicate (n - length line - 2) NUL) \<and>
    (overflow \<longrightarrow> n \<le> length line + 2)"
proof -
  note i = inv [unfolded line_inv_def]
  have lens: "length d + length c = length line + 2" using arg_cong [OF dc, of length] by simp
  have sfx: "suffix (take k buffer @ c) (line @ CRLF)"
    using i by (simp flip: dc)
  have "take k buffer @ c \<noteq> [LF]"
  proof
    assume "take k buffer @ c = [LF]"
    then have "c = [LF]" "take k buffer = []" using c(1) by (cases c; auto simp: append_eq_Cons_conv)+
    then have "k = 0" "d = line @ [CR]" using i dc by auto
    then show False using i by simp
  qed
  then obtain y where y: "take k buffer @ c = y @ CRLF"
    using sfx c(1) suffix_two [of "take k buffer @ c" line CR LF] by blast
  with sfx have sub: "suffix y line" by (auto simp: suffix_def)
  then have y': "NUL \<notin> set y" "LF \<notin> set y" using line set_mono_suffix by blast+
  have b: "b = y @ CR # LF # drop (k + length c) buffer" using y by (simp add: b_def)
  have found: "find_crlf (cstring b) = Some (length y)"
    using y' find_crlf_first [of y] cstring_prefix [of "y @ CRLF"] by (simp add: b)
  have "k + length c = length y + 2"
    using arg_cong [OF y, of length] i by simp
  moreover have "y = line \<and> drop (k + length c) buffer = replicate (n - length line - 2) NUL" if "\<not> overflow"
  proof -
    from that i have "buffer = d @ replicate (n - length d) NUL" "k = length d" by auto
    moreover from this y dc have "y = line" by simp
    ultimately show ?thesis using lens by simp
  qed
  moreover have "n \<le> length line + 2" if overflow
    using that i c(1) lens by (cases c) auto
  ultimately show ?thesis using found c(2) i by (intro exI [of _ "length y"]) (auto simp: b)
qed

text \<open>The rest of the loop, from any state in which the line is not over yet.\<close>

lemma read_line_loop_reads:
  assumes env: "delivers env s stream" and line: "NUL \<notin> set line" "LF \<notin> set line"
    and inv: "line_inv n buffer k overflow d" "2 < n" "received s tr = past @ d" "stream = past @ line @ CRLF"
    and rest: "prefix d (line @ CRLF)" "length d < length (line @ CRLF)" "length (line @ CRLF) \<le> length d + fuel"
  shows "\<exists>ret buffer' tr'. read_line_loop env fuel s n buffer k overflow tr = Some ((ret, buffer'), tr') \<and>
    received s tr' = stream \<and>
    (if length line + 2 < n
     then ret = int (length line + 2) \<and> buffer' = line @ NUL # LF # replicate (n - length line - 2) NUL
     else ret = - EOVERFLOW)"
  using inv rest
proof (induction fuel arbitrary: buffer k overflow d tr)
  case 0
  then show ?case by simp
next
  case (Suc fuel)
  define room where "room = n - k - 1"
  define r where "r = env tr (SockRecv s room)"
  define c where "c = recv_data room r"
  define tr1 where "tr1 = tr @ [(SockRecv s room, r)]"
  define b where "b = take k buffer @ c @ drop (k + length c) buffer"
  have room: "0 < room" using Suc.prems(1) by (auto simp: line_inv_def room_def)
  have "strict_prefix (received s tr) stream" using Suc.prems by (auto simp: strict_prefix_def)
  with env room have c': "0 \<le> r_ret r \<and> c \<noteq> [] \<and> prefix (received s tr @ c) stream"
    unfolding delivers_def r_def c_def Let_def by blast
  then have c: "0 \<le> r_ret r" "c \<noteq> []" "prefix (d @ c) (line @ CRLF)"
    using Suc.prems(3,4) by simp_all
  have fits: "length c \<le> room" by (simp add: c_def recv_data_def)
  have rc1: "received s tr1 = past @ d @ c" using Suc.prems(3) by (simp add: tr1_def received_in_def c_def)
  have ret: "recv_ret room r = int (length c)" using c(1) by (simp add: recv_ret_def c_def)
  note st = store_chunk [OF Suc.prems(1) fits [unfolded room_def], folded b_def]
  have called: "call env (SockRecv s room) tr = Some (r, tr1)" by (simp add: r_def tr1_def)
  have step: "read_line_loop env (Suc fuel) s n buffer k overflow tr =
    (case find_crlf (cstring b) of
       Some p \<Rightarrow> if overflow then Some ((- EOVERFLOW, b), tr1) else Some ((int (k + length c), b[p := NUL]), tr1)
     | None \<Rightarrow>
         if k + length c = n - 1 then
           (if b ! (k + length c - 1) = CR
            then read_line_loop env fuel s n (b[0 := CR, 1 := NUL]) 1 True tr1
            else read_line_loop env fuel s n (b[0 := NUL]) 0 True tr1)
         else read_line_loop env fuel s n b (k + length c) overflow tr1)"
    unfolding read_line_loop.simps(2) Let_def room_def [symmetric] called bind.simps prod.case c_def [symmetric] st ret nat_int
    using c(2) by simp
  show ?case
  proof (cases "d @ c = line @ CRLF")
    case True
    from line_inv_last [OF Suc.prems(1) c(2) fits [unfolded room_def] True line, folded b_def]
    obtain p where "find_crlf (cstring b) = Some p"
      "\<not> overflow \<Longrightarrow> k + length c = length line + 2 \<and> length line + 2 < n \<and>
         b[p := NUL] = line @ NUL # LF # replicate (n - length line - 2) NUL"
      "overflow \<Longrightarrow> n \<le> length line + 2" by blast
    then show ?thesis using step rc1 True Suc.prems(4) by (cases overflow) auto
  next
    case False
    then have front: "prefix (d @ c) (line @ [CR])"
      using c(3) prefix_snoc [of "d @ c" "line @ [CR]" LF] by simp
    then have less: "length (d @ c) < length (line @ CRLF)" using prefix_length_le by fastforce
    have "set (d @ c) \<subseteq> insert CR (set line)" using set_mono_prefix [OF front] by simp
    then have no: "LF \<notin> set (d @ c)" using line by auto
    have fuel: "length (line @ CRLF) \<le> length (d @ c) + fuel"
      using Suc.prems(7) c(2) by (cases c) auto
    note inv' = line_inv_step [OF Suc.prems(1) c(2) fits [unfolded room_def] no, folded b_def]
    note IH = Suc.IH [OF _ Suc.prems(2) rc1 Suc.prems(4) c(3) less fuel]
    consider (more) "k + length c \<noteq> n - 1" | (full_cr) "k + length c = n - 1" "b ! (k + length c - 1) = CR"
      | (full) "k + length c = n - 1" "b ! (k + length c - 1) \<noteq> CR" by blast
    then show ?thesis
    proof cases
      case more
      show ?thesis unfolding step inv'(1) option.case if_not_P [OF more] by (rule IH [OF inv'(2) [OF more]])
    next
      case full_cr
      show ?thesis unfolding step inv'(1) option.case if_P [OF full_cr(1)] if_P [OF full_cr(2)]
        by (rule IH [OF inv'(3) [OF full_cr Suc.prems(2)]])
    next
      case full
      show ?thesis unfolding step inv'(1) option.case if_P [OF full(1)] if_not_P [OF full(2)]
        by (rule IH [OF inv'(4) [OF full]])
    qed
  qed
qed

section \<open>Properties\<close>


text \<open>An environment with the smallest fragments.\<close>

definition one_by_one :: "string \<Rightarrow> env" where
  "one_by_one stream tr c =
     (case c of SockRecv s n \<Rightarrow> quiet_reply\<lparr>r_text := take 1 (drop (length (received s tr)) stream)\<rparr>
      | SockSend s m \<Rightarrow> quiet_reply\<lparr>r_ret := 1\<rparr>
      | _ \<Rightarrow> quiet_reply)"

lemma one_by_one_delivers: "delivers (one_by_one stream) s stream"
  unfolding delivers_def Let_def
proof (intro allI impI, elim conjE)
  fix tr :: trace and n :: nat
  assume n: "0 < n" and "strict_prefix (received s tr) stream"
  then obtain c t where st: "stream = received s tr @ c # t" by (elim strict_prefixE')
  then have "recv_data n (one_by_one stream tr (SockRecv s n)) = [c]"
    using n by (simp add: recv_data_def one_by_one_def quiet_reply_def)
  then show "0 \<le> r_ret (one_by_one stream tr (SockRecv s n)) \<and>
      recv_data n (one_by_one stream tr (SockRecv s n)) \<noteq> [] \<and>
      prefix (received s tr @ recv_data n (one_by_one stream tr (SockRecv s n))) stream"
    using st by (simp add: one_by_one_def quiet_reply_def)
qed


end
