(* ===== verification/Lftpd.thy ===== *)
theory Lftpd
  imports Lftpd_Inet
begin

text \<open>
  The FTP server, \<^verbatim>\<open>firmware/lftpd/lftpd.c\<close>: its responses, the command handlers, the transfer of files
  and listings, the control channel of a connection and the loops of the server. A connection is the
  \<open>struct lftpd_conn\<close>, with the trace of the calls made so far. Code that runs on a connection takes
  it explicitly and returns it with the result; \<open>None\<close> stands for a loop that has not ended
  within the number of turns it is given, and for an access outside a buffer. \<open>fuel\<close> bounds the loops
  that read or write a socket, a file or a directory, \<open>turns\<close> the loop over the commands. Pointers into
  \<open>cmd_buf\<close> are offsets. Log messages are left out.
\<close>

section \<open>Connections\<close>

definition MAX_PATH_LEN :: nat where
  \<comment> \<open>\<open>CONFIG_LFTPD_MAX_PATH_LEN\<close>, at its default value\<close>
  "MAX_PATH_LEN = 128"

definition CMD_BUF_SIZE :: nat where "CMD_BUF_SIZE = 4 + 1 + MAX_PATH_LEN + 2 + 1"
definition CONN_BUF_SIZE :: nat where "CONN_BUF_SIZE = 1024"

record lftpd_conn =
  base_dir :: string
  cwd :: "char list"
  cmd_buf :: "char list"
  conn_buf :: "char list"
  control_socket :: int
  data_socket :: int
  conn_calls :: trace

type_synonym 'a ftp = "lftpd_conn \<Rightarrow> ('a \<times> lftpd_conn) option"

definition on_net :: "(trace \<Rightarrow> ('a \<times> trace) option) \<Rightarrow> 'a ftp" where
  "on_net m c = do { (a, tr) \<leftarrow> m (conn_calls c); Some (a, c\<lparr>conn_calls := tr\<rparr>) }"

definition do_call :: "env \<Rightarrow> ext_call \<Rightarrow> reply ftp" where
  "do_call env e = on_net (call env e)"

definition cwd_string :: "lftpd_conn \<Rightarrow> string" where
  "cwd_string c = cstring (cwd c)"

definition arg_string :: "lftpd_conn \<Rightarrow> nat \<Rightarrow> string" where
  "arg_string c a = cstring (drop a (cmd_buf c))"

section \<open>Responses\<close>

definition decimal_int :: "int \<Rightarrow> string" where
  "decimal_int i = (if i < 0 then CHR ''-'' # decimal (nat (- i)) else decimal (nat i))"

definition pad_left :: "nat \<Rightarrow> string \<Rightarrow> string" where
  "pad_left n s = replicate (n - length s) CHR '' '' @ s"

definition response_prefix :: "nat \<Rightarrow> bool \<Rightarrow> bool \<Rightarrow> string" where
  "response_prefix code include_code multiline_start =
     (if include_code then decimal code @ (if multiline_start then ''-'' else '' '') else [])"

definition send_response :: "env \<Rightarrow> nat \<Rightarrow> nat \<Rightarrow> bool \<Rightarrow> bool \<Rightarrow> string \<Rightarrow> int ftp" where
  \<comment> \<open>\<open>text\<close> is what the format and the arguments after it give\<close>
  "send_response env fuel code include_code multiline_start text c =
     (let prefix = response_prefix code include_code multiline_start in
      if include_code \<and> CONN_BUF_SIZE \<le> length prefix then Some (- EOVERFLOW, c)
      else do {
        buf \<leftarrow> (if include_code then store (conn_buf c) 0 (prefix @ [NUL]) else Some (conn_buf c));
        let buf_len = (of_nat (CONN_BUF_SIZE - length prefix) :: u32);
        buf \<leftarrow> store buf (length prefix) (take (unat buf_len - 1) text @ [NUL]);
        let c = c\<lparr>conn_buf := buf\<rparr>;
        if CONN_BUF_SIZE \<le> length text then Some (- EOVERFLOW, c)
        else do {
          let buf_len = buf_len - of_nat (length text);
          if buf_len < 3 then Some (- EOVERFLOW, c)
          else do {
            buf \<leftarrow> store buf (length prefix + length text) (CRLF @ [NUL]);
            on_net (lftpd_inet_write_string env fuel (control_socket c) (cstring buf)) (c\<lparr>conn_buf := buf\<rparr>) } } })"

definition send_simple_response :: "env \<Rightarrow> nat \<Rightarrow> nat \<Rightarrow> string \<Rightarrow> int ftp" where
  "send_simple_response env fuel code text = send_response env fuel code True False text"

definition send_multiline_response_begin :: "env \<Rightarrow> nat \<Rightarrow> nat \<Rightarrow> string \<Rightarrow> int ftp" where
  "send_multiline_response_begin env fuel code text = send_response env fuel code True True text"

definition send_multiline_response_line :: "env \<Rightarrow> nat \<Rightarrow> string \<Rightarrow> int ftp" where
  "send_multiline_response_line env fuel text = send_response env fuel 0 False False text"

definition send_multiline_response_end :: "env \<Rightarrow> nat \<Rightarrow> nat \<Rightarrow> string \<Rightarrow> int ftp" where
  "send_multiline_response_end env fuel code text = send_response env fuel code True False text"

definition STATUS_150 :: string where "STATUS_150 = ''File status okay; about to open data connection.''"
definition STATUS_200 :: string where "STATUS_200 = ''Command okay.''"
definition STATUS_211 :: string where "STATUS_211 = ''System status, or system help reply.''"
definition STATUS_220 :: string where "STATUS_220 = ''Service ready for new user.''"
definition STATUS_221 :: string where "STATUS_221 = ''Service closing control connection.''"
definition STATUS_226 :: string where "STATUS_226 = ''Closing data connection.''"
definition STATUS_230 :: string where "STATUS_230 = ''User logged in, proceed.''"
definition STATUS_250 :: string where "STATUS_250 = ''Requested file action okay, completed.''"
definition STATUS_425 :: string where "STATUS_425 = ''Can't open data connection.''"
definition STATUS_450 :: string where
  "STATUS_450 = ''Requested file action not taken. File unavailable (e.g., file busy).''"
definition STATUS_500 :: string where
  "STATUS_500 = ''Syntax error, command unrecognized. This may include errors such as command line too long.''"
definition STATUS_501 :: string where "STATUS_501 = ''Syntax error in parameters or arguments.''"
definition STATUS_502 :: string where "STATUS_502 = ''Command not implemented.''"
definition STATUS_550 :: string where
  "STATUS_550 = ''Requested action not taken. File unavailable (e.g., file not found, no access).''"
definition STATUS_553 :: string where "STATUS_553 = ''Requested action not taken. File name not allowed.''"

definition STATUS_227 :: "nat \<Rightarrow> nat \<Rightarrow> nat \<Rightarrow> nat \<Rightarrow> nat \<Rightarrow> nat \<Rightarrow> string" where
  "STATUS_227 a b c d e f = ''Entering Passive Mode ('' @ decimal a @ '','' @ decimal b @ '','' @ decimal c @
     '','' @ decimal d @ '','' @ decimal e @ '','' @ decimal f @ '').''"
definition STATUS_229 :: "int \<Rightarrow> string" where
  "STATUS_229 port = ''Entering Extended Passive Mode (|||'' @ decimal_int port @ ''|).''"
definition STATUS_257 :: "string \<Rightarrow> string" where
  "STATUS_257 path = CHR 0x22 # path @ CHR 0x22 # '' created.''"

section \<open>The data connection\<close>

definition accept_data_connection :: "env \<Rightarrow> int ftp" where
  "accept_data_connection env c =
     (if data_socket c < 0 then Some (- EBADF, c)
      else do {
        (_, c) \<leftarrow> on_net (lftpd_inet_get_socket_port env (data_socket c)) c;
        (r, c) \<leftarrow> do_call env (SockAccept (data_socket c)) c;
        if r_ret r < 0 then do {
          (_, c) \<leftarrow> do_call env (SockClose (data_socket c)) c;
          Some (r_ret r, c\<lparr>data_socket := - 1\<rparr>) }
        else Some (r_ret r, c) })"

abbreviation (input) FS_DIR_ENTRY_FILE :: int where "FS_DIR_ENTRY_FILE \<equiv> 0"
abbreviation (input) FS_DIR_ENTRY_DIR :: int where "FS_DIR_ENTRY_DIR \<equiv> 1"

definition list_line :: "bool \<Rightarrow> nat \<Rightarrow> string \<Rightarrow> string" where
  "list_line is_dir len name =
     (if is_dir then ''d'' else ''-'') @ ''rw-rw-rw- 1 owner group '' @ pad_left 13 (decimal len) @
     '' Jan 01  1970 '' @ name @ CRLF"

primrec send_list_loop :: "nat \<Rightarrow> env \<Rightarrow> nat \<Rightarrow> int \<Rightarrow> int ftp" where
  "send_list_loop 0 env fuel socket c = None"
| "send_list_loop (Suc n) env fuel socket c =
     do { (r, c) \<leftarrow> do_call env FsReadDir c;
          if r_ret r < 0 then Some (r_ret r, c)
          else if r_text r = [] then Some (0, c)
          else do {
            let is_entry = (r_num r = FS_DIR_ENTRY_DIR \<or> r_num r = FS_DIR_ENTRY_FILE);
            let line = list_line (r_num r = FS_DIR_ENTRY_DIR) (r_size r) (r_text r);
            buf \<leftarrow> (if is_entry then store (conn_buf c) 0 (take (CONN_BUF_SIZE - 1) line @ [NUL]) else Some (conn_buf c));
            let c = c\<lparr>conn_buf := buf\<rparr>;
            let ret = (if is_entry then int (length line) else r_ret r);
            if int CONN_BUF_SIZE \<le> ret then Some (- ENAMETOOLONG, c)
            else do {
              (ret, c) \<leftarrow> on_net (lftpd_inet_write_string env fuel socket (cstring (conn_buf c))) c;
              if ret < 0 then Some (ret, c) else send_list_loop n env fuel socket c } } }"

definition send_list :: "env \<Rightarrow> nat \<Rightarrow> int \<Rightarrow> string \<Rightarrow> int ftp" where
  "send_list env fuel socket path c =
     do { (r, c) \<leftarrow> do_call env (FsOpenDir path) c;
          if r_ret r < 0 then Some (r_ret r, c)
          else do { (ret, c) \<leftarrow> send_list_loop fuel env fuel socket c;
                    (_, c) \<leftarrow> do_call env FsCloseDir c;
                    Some (ret, c) } }"

primrec send_nlst_loop :: "nat \<Rightarrow> env \<Rightarrow> nat \<Rightarrow> int \<Rightarrow> int ftp" where
  "send_nlst_loop 0 env fuel socket c = None"
| "send_nlst_loop (Suc n) env fuel socket c =
     do { (r, c) \<leftarrow> do_call env FsReadDir c;
          if r_ret r < 0 then Some (r_ret r, c)
          else if r_text r = [] then Some (0, c)
          else if r_num r = FS_DIR_ENTRY_FILE then do {
            (ret, c) \<leftarrow> on_net (lftpd_inet_write_string env fuel socket (r_text r)) c;
            if ret < 0 then Some (ret, c)
            else do {
              (ret, c) \<leftarrow> on_net (lftpd_inet_write_string env fuel socket CRLF) c;
              if ret < 0 then Some (ret, c) else send_nlst_loop n env fuel socket c } }
          else send_nlst_loop n env fuel socket c }"

definition send_nlst :: "env \<Rightarrow> nat \<Rightarrow> int \<Rightarrow> string \<Rightarrow> int ftp" where
  "send_nlst env fuel socket path c =
     do { (r, c) \<leftarrow> do_call env (FsOpenDir path) c;
          if r_ret r < 0 then Some (r_ret r, c)
          else do { (ret, c) \<leftarrow> send_nlst_loop fuel env fuel socket c;
                    (_, c) \<leftarrow> do_call env FsCloseDir c;
                    Some (ret, c) } }"

primrec send_file_loop :: "nat \<Rightarrow> env \<Rightarrow> nat \<Rightarrow> int \<Rightarrow> int \<Rightarrow> int ftp" where
  "send_file_loop 0 env fuel socket handle c = None"
| "send_file_loop (Suc n) env fuel socket handle c =
     do { (r, c) \<leftarrow> do_call env (FsRead handle CONN_BUF_SIZE) c;
          let read_len = recv_ret CONN_BUF_SIZE r;
          if read_len < 0 then Some (read_len, c)
          else if read_len = 0 then Some (0, c)
          else do {
            buf \<leftarrow> store (conn_buf c) 0 (recv_data CONN_BUF_SIZE r);
            let c = c\<lparr>conn_buf := buf\<rparr>;
            (ret, c) \<leftarrow> on_net (send_loop env fuel socket (take (nat read_len) (conn_buf c))) c;
            if ret < 0 then Some (ret, c) else send_file_loop n env fuel socket handle c } }"

definition send_file :: "env \<Rightarrow> nat \<Rightarrow> int \<Rightarrow> string \<Rightarrow> int ftp" where
  "send_file env fuel socket path c =
     do { (r, c) \<leftarrow> do_call env (FsOpenRead path) c;
          if r_ret r < 0 then Some (r_ret r, c)
          else do { (ret, c) \<leftarrow> send_file_loop fuel env fuel socket (r_num r) c;
                    (_, c) \<leftarrow> do_call env (FsClose (r_num r)) c;
                    Some (ret, c) } }"

definition bytes_of :: "string \<Rightarrow> u8 list" where
  "bytes_of s = map (\<lambda>c. of_nat (of_char c)) s"

primrec receive_file_loop :: "nat \<Rightarrow> env \<Rightarrow> int \<Rightarrow> int \<Rightarrow> int ftp" where
  "receive_file_loop 0 env socket handle c = None"
| "receive_file_loop (Suc n) env socket handle c =
     do { (r, c) \<leftarrow> do_call env (SockRecv socket CONN_BUF_SIZE) c;
          let ret = recv_ret CONN_BUF_SIZE r;
          if ret < 0 then Some (ret, c)
          else if ret = 0 then Some (0, c)
          else do {
            buf \<leftarrow> store (conn_buf c) 0 (recv_data CONN_BUF_SIZE r);
            let c = c\<lparr>conn_buf := buf\<rparr>;
            let len = nat ret;
            (r, c) \<leftarrow> do_call env (FsWrite handle (bytes_of (take len (conn_buf c)))) c;
            if r_ret r < 0 then Some (r_ret r, c)
            else if r_ret r \<noteq> int len then Some (if r_num r = 0 then - ENOSPC else - r_num r, c)
            else receive_file_loop n env socket handle c } }"

definition receive_file :: "env \<Rightarrow> nat \<Rightarrow> int \<Rightarrow> string \<Rightarrow> int ftp" where
  "receive_file env fuel socket path c =
     do { (r, c) \<leftarrow> do_call env (FsOpenCreate path) c;
          if r_ret r < 0 then Some (r_ret r, c)
          else do { (ret, c) \<leftarrow> receive_file_loop fuel env socket (r_num r) c;
                    (_, c) \<leftarrow> do_call env (FsClose (r_num r)) c;
                    Some (ret, c) } }"

section \<open>Commands\<close>

text \<open>The argument is the offset of a string in \<open>cmd_buf\<close>, or \<open>None\<close> for a null pointer.\<close>

definition resolve_arg :: "nat option \<Rightarrow> nat \<Rightarrow> int ftp" where
  \<comment> \<open>\<open>lftpd_path_resolve(conn->base_dir, conn->cwd, arg, arg_buf_len)\<close>\<close>
  "resolve_arg arg arg_buf_len c =
     (case arg of
        None \<Rightarrow> Some (- EINVAL, c)
      | Some a \<Rightarrow> do {
          (ret, m) \<leftarrow> lftpd_path_resolve (base_dir c) (cwd_string c) (drop a (cmd_buf c)) arg_buf_len;
          Some (ret, c\<lparr>cmd_buf := take a (cmd_buf c) @ m\<rparr>) })"

definition no_arg :: "nat option \<Rightarrow> lftpd_conn \<Rightarrow> bool" where
  \<comment> \<open>\<open>!arg || strlen(arg) == 0\<close>\<close>
  "no_arg arg c = (case arg of None \<Rightarrow> True | Some a \<Rightarrow> arg_string c a = [])"

definition the_arg :: "nat option \<Rightarrow> lftpd_conn \<Rightarrow> string" where
  "the_arg arg c = (case arg of None \<Rightarrow> [] | Some a \<Rightarrow> arg_string c a)"

type_synonym handler = "env \<Rightarrow> nat \<Rightarrow> nat option \<Rightarrow> nat \<Rightarrow> int ftp"

definition cmd_cwd :: handler where
  "cmd_cwd env fuel arg arg_buf_len c =
     (if no_arg arg c then send_simple_response env fuel 550 STATUS_550 c
      else do {
        (ret, c) \<leftarrow> resolve_arg arg arg_buf_len c;
        if ret < 0 then send_simple_response env fuel 553 STATUS_553 c
        else do {
          let path = the_arg arg c;
          (valid, c) \<leftarrow>
            (if path = [SLASH] then Some (True, c)
             else if path \<noteq> [] \<and> hd path = SLASH \<and> SLASH \<notin> set (tl path) then do {
               (r, c) \<leftarrow> do_call env (FsStatvfs path) c; Some (0 \<le> r_ret r, c) }
             else do {
               (r, c) \<leftarrow> do_call env (FsStat path) c; Some (0 \<le> r_ret r \<and> r_num r = FS_DIR_ENTRY_DIR, c) });
          if \<not> valid then send_simple_response env fuel 550 STATUS_550 c
          else if length (cwd c) < length path + 1 then send_simple_response env fuel 553 STATUS_553 c
          else do {
            m \<leftarrow> store (cwd c) 0 (path @ [NUL]);
            send_simple_response env fuel 250 STATUS_250 (c\<lparr>cwd := m\<rparr>) } } })"

definition cmd_dele :: handler where
  "cmd_dele env fuel arg arg_buf_len c =
     (if no_arg arg c then send_simple_response env fuel 501 STATUS_501 c
      else do {
        (ret, c) \<leftarrow> resolve_arg arg arg_buf_len c;
        if ret < 0 then send_simple_response env fuel 500 STATUS_500 c
        else do {
          (r, c) \<leftarrow> do_call env (FsUnlink (the_arg arg c)) c;
          if r_ret r < 0 then send_simple_response env fuel 550 STATUS_550 c
          else send_simple_response env fuel 250 STATUS_250 c } })"

definition open_data_port :: "env \<Rightarrow> bool ftp" where
  \<comment> \<open>the first lines of \<open>cmd_epsv\<close> and \<open>cmd_pasv\<close>\<close>
  "open_data_port env c =
     (if data_socket c < 0 then do {
        (s, c) \<leftarrow> on_net (lftpd_inet_listen env 0) c;
        Some (0 \<le> s, c\<lparr>data_socket := s\<rparr>) }
      else Some (True, c))"

definition cmd_epsv :: handler where
  "cmd_epsv env fuel arg arg_buf_len c =
     do { (ok, c) \<leftarrow> open_data_port env c;
          if \<not> ok then send_simple_response env fuel 425 STATUS_425 c
          else do {
            (port, c) \<leftarrow> on_net (lftpd_inet_get_socket_port env (data_socket c)) c;
            send_simple_response env fuel 229 (STATUS_229 port) c } }"

definition cmd_feat :: handler where
  "cmd_feat env fuel arg arg_buf_len c =
     do { (_, c) \<leftarrow> send_multiline_response_begin env fuel 211 STATUS_211 c;
          (_, c) \<leftarrow> send_multiline_response_line env fuel '' EPSV'' c;
          (_, c) \<leftarrow> send_multiline_response_line env fuel '' PASV'' c;
          (_, c) \<leftarrow> send_multiline_response_line env fuel '' SIZE'' c;
          (_, c) \<leftarrow> send_multiline_response_line env fuel '' NLST'' c;
          (_, c) \<leftarrow> send_multiline_response_line env fuel '' UTF8'' c;
          (_, c) \<leftarrow> send_multiline_response_end env fuel 211 ''End'' c;
          Some (0, c) }"

definition cmd_list :: handler where
  "cmd_list env fuel arg arg_buf_len c =
     do { (s, c) \<leftarrow> accept_data_connection env c;
          if s < 0 then send_simple_response env fuel 425 STATUS_425 c
          else do {
            (_, c) \<leftarrow> send_simple_response env fuel 150 STATUS_150 c;
            (err, c) \<leftarrow> send_list env fuel s (cwd_string c) c;
            (_, c) \<leftarrow> do_call env (SockClose s) c;
            if err = 0 then send_simple_response env fuel 226 STATUS_226 c
            else send_simple_response env fuel 550 STATUS_550 c } }"

definition cmd_mkd :: handler where
  "cmd_mkd env fuel arg arg_buf_len c =
     (if arg = None then send_simple_response env fuel 501 STATUS_501 c
      else do {
        (ret, c) \<leftarrow> resolve_arg arg arg_buf_len c;
        if ret < 0 then send_simple_response env fuel 500 STATUS_500 c
        else do {
          (r, c) \<leftarrow> do_call env (FsMkdir (the_arg arg c)) c;
          if r_ret r < 0 then send_simple_response env fuel 550 STATUS_550 c
          else send_simple_response env fuel 257 (STATUS_257 (the_arg arg c)) c } })"

definition with_data_connection :: "env \<Rightarrow> nat \<Rightarrow> (int \<Rightarrow> int ftp) \<Rightarrow> int ftp" where
  \<comment> \<open>the frame of \<open>cmd_nlst\<close>, \<open>cmd_retr\<close> and \<open>cmd_stor\<close>: the data connection is closed at \<open>exit\<close>\<close>
  "with_data_connection env fuel body c =
     do { (s, c) \<leftarrow> accept_data_connection env c;
          if s < 0 then send_simple_response env fuel 425 STATUS_425 c
          else do { (ret, c) \<leftarrow> body s c;
                    (_, c) \<leftarrow> do_call env (SockClose s) c;
                    Some (ret, c) } }"

definition cmd_nlst :: handler where
  "cmd_nlst env fuel arg arg_buf_len =
     with_data_connection env fuel (\<lambda>s c.
       do { (ret, c) \<leftarrow> (if arg = None then Some (0, c) else resolve_arg arg arg_buf_len c);
            if ret < 0 then send_simple_response env fuel 553 STATUS_500 c
            else do {
              (ret, c) \<leftarrow> send_simple_response env fuel 150 STATUS_150 c;
              if ret < 0 then Some (ret, c)
              else do {
                (ret, c) \<leftarrow> send_nlst env fuel s (cwd_string c) c;
                if ret < 0 then send_simple_response env fuel 550 STATUS_550 c
                else send_simple_response env fuel 226 STATUS_226 c } } })"

definition cmd_noop :: handler where
  "cmd_noop env fuel arg arg_buf_len = send_simple_response env fuel 200 STATUS_200"

definition cmd_pass :: handler where
  "cmd_pass env fuel arg arg_buf_len = send_simple_response env fuel 230 STATUS_230"

definition cmd_pasv :: handler where
  "cmd_pasv env fuel arg arg_buf_len c =
     do { (ok, c) \<leftarrow> open_data_port env c;
          if \<not> ok then send_simple_response env fuel 425 STATUS_425 c
          else do {
            (port, c) \<leftarrow> on_net (lftpd_inet_get_socket_port env (data_socket c)) c;
            (r, c) \<leftarrow> do_call env (SockGetsockname (control_socket c)) c;
            if r_ret r \<noteq> 0 \<or> r_size r \<noteq> AF_INET then do {
              (_, c) \<leftarrow> do_call env (SockClose (data_socket c)) c;
              send_simple_response env fuel 425 STATUS_425 c }
            else do {
              let port = (word_of_int port :: u32);
              (_, c) \<leftarrow> send_simple_response env fuel 227
                (STATUS_227 (unat (r_byte r 0)) (unat (r_byte r 1)) (unat (r_byte r 2)) (unat (r_byte r 3))
                   (unat (drop_bit 8 port AND 0xff)) (unat (port AND 0xff))) c;
              Some (0, c) } } }"

definition cmd_pwd :: handler where
  "cmd_pwd env fuel arg arg_buf_len c =
     send_simple_response env fuel 257 (CHR 0x22 # cwd_string c @ [CHR 0x22, CHR '' '']) c"

definition cmd_quit :: handler where
  "cmd_quit env fuel arg arg_buf_len c =
     do { (_, c) \<leftarrow> send_simple_response env fuel 221 STATUS_221 c; Some (- 1, c) }"

definition cmd_retr :: handler where
  "cmd_retr env fuel arg arg_buf_len =
     with_data_connection env fuel (\<lambda>s c.
       do { (ret, c) \<leftarrow> send_simple_response env fuel 150 STATUS_150 c;
            if ret < 0 then Some (ret, c)
            else do {
              (ret, c) \<leftarrow> resolve_arg arg arg_buf_len c;
              if ret < 0 then send_simple_response env fuel 500 STATUS_500 c
              else do {
                (ret, c) \<leftarrow> send_file env fuel s (the_arg arg c) c;
                if ret < 0 then send_simple_response env fuel 450 STATUS_450 c
                else send_simple_response env fuel 226 STATUS_226 c } } })"

definition cmd_rmd :: handler where
  "cmd_rmd env fuel arg arg_buf_len c =
     (if arg = None then send_simple_response env fuel 550 STATUS_501 c
      else do {
        (ret, c) \<leftarrow> resolve_arg arg arg_buf_len c;
        if ret < 0 then send_simple_response env fuel 553 STATUS_500 c
        else do {
          (r, c) \<leftarrow> do_call env (FsStat (the_arg arg c)) c;
          if r_ret r < 0 then send_simple_response env fuel 550 STATUS_550 c
          else if r_num r \<noteq> FS_DIR_ENTRY_DIR then send_simple_response env fuel 550 STATUS_550 c
          else do {
            (r, c) \<leftarrow> do_call env (FsUnlink (the_arg arg c)) c;
            if r_ret r < 0 then send_simple_response env fuel 550 STATUS_550 c
            else send_simple_response env fuel 250 STATUS_250 c } } })"

definition cmd_size :: handler where
  "cmd_size env fuel arg arg_buf_len c =
     (if arg = None then send_simple_response env fuel 501 STATUS_501 c
      else do {
        (ret, c) \<leftarrow> resolve_arg arg arg_buf_len c;
        if ret < 0 then send_simple_response env fuel 500 STATUS_500 c
        else do {
          (r, c) \<leftarrow> do_call env (FsStat (the_arg arg c)) c;
          if r_ret r < 0 then send_simple_response env fuel 550 STATUS_550 c
          else send_simple_response env fuel 213 (decimal (r_size r)) c } })"

definition cmd_stor :: handler where
  "cmd_stor env fuel arg arg_buf_len =
     with_data_connection env fuel (\<lambda>s c.
       do { (ret, c) \<leftarrow> send_simple_response env fuel 150 STATUS_150 c;
            if ret < 0 then Some (ret, c)
            else do {
              (ret, c) \<leftarrow> resolve_arg arg arg_buf_len c;
              if ret < 0 then send_simple_response env fuel 500 STATUS_500 c
              else do {
                (ret, c) \<leftarrow> receive_file env fuel s (the_arg arg c) c;
                if ret < 0 then send_simple_response env fuel 450 STATUS_450 c
                else send_simple_response env fuel 226 STATUS_226 c } } })"

definition cmd_syst :: handler where
  "cmd_syst env fuel arg arg_buf_len = send_simple_response env fuel 215 ''UNIX Type: L8''"

definition cmd_type :: handler where
  "cmd_type env fuel arg arg_buf_len = send_simple_response env fuel 200 STATUS_200"

definition cmd_user :: handler where
  "cmd_user env fuel arg arg_buf_len = send_simple_response env fuel 230 STATUS_230"

section \<open>The control channel\<close>

definition commands :: "(string \<times> handler) list" where
  "commands =
     [(''CWD'', cmd_cwd), (''DELE'', cmd_dele), (''EPSV'', cmd_epsv), (''FEAT'', cmd_feat), (''LIST'', cmd_list),
      (''MKD'', cmd_mkd), (''NLST'', cmd_nlst), (''NOOP'', cmd_noop), (''PASS'', cmd_pass), (''PASV'', cmd_pasv),
      (''PWD'', cmd_pwd), (''QUIT'', cmd_quit), (''RETR'', cmd_retr), (''RMD'', cmd_rmd), (''SIZE'', cmd_size),
      (''STOR'', cmd_stor), (''SYST'', cmd_syst), (''TYPE'', cmd_type), (''USER'', cmd_user)]"

definition toupper :: "char \<Rightarrow> char" where
  "toupper c = (let n = of_char c :: nat in if 97 \<le> n \<and> n \<le> 122 then char_of (n - 32) else c)"

definition split_command :: "char list \<Rightarrow> nat" where
  \<comment> \<open>the index of the first space, or the length\<close>
  "split_command buf = length (takeWhile (\<lambda>c. c \<noteq> CHR '' '') (cstring buf))"

definition parse_command :: "char list \<Rightarrow> nat \<Rightarrow> (string \<times> nat option \<times> nat \<times> char list) option" where
  \<comment> \<open>the command, the argument, the length claimed for the argument, and the buffer; \<open>split_index\<close> is at
      most 4\<close>
  "parse_command buf split_index =
     do { let buf = map toupper (take split_index buf) @ NUL # drop (Suc split_index) buf;
          (arg, buf) \<leftarrow> lftpd_string_trim buf (split_index + 1);
          len \<leftarrow> strlen (drop arg buf);
          Some (cstring buf, if len = 0 then None else Some arg, CMD_BUF_SIZE - split_index - 1, buf) }"

definition dispatch :: "env \<Rightarrow> nat \<Rightarrow> string \<Rightarrow> nat option \<Rightarrow> nat \<Rightarrow> int ftp" where
  "dispatch env fuel command arg arg_buf_len c =
     (case map_of commands command of
        Some h \<Rightarrow> h env fuel arg arg_buf_len c
      | None \<Rightarrow> send_simple_response env fuel 502 STATUS_502 c)"

definition handle_line :: "env \<Rightarrow> nat \<Rightarrow> int \<Rightarrow> (bool \<times> int) ftp" where
  \<comment> \<open>the body of the loop after a line has been read: whether it goes to \<open>exit\<close>, and \<open>ret\<close>\<close>
  "handle_line env fuel ret c =
     (if ret = - EOVERFLOW then do {
        (ret, c) \<leftarrow> send_simple_response env fuel 500 STATUS_500 c; Some ((False, ret), c) }
      else if ret = - ECONNRESET then Some ((True, 0), c)
      else if ret < 0 then Some ((True, ret), c)
      else do {
        _ \<leftarrow> strlen (cmd_buf c);
        let split_index = split_command (cmd_buf c);
        if 5 \<le> split_index then do {
          (ret, c) \<leftarrow> send_simple_response env fuel 500 STATUS_500 c; Some ((False, ret), c) }
        else do {
          (command, arg, arg_buf_len, buf) \<leftarrow> parse_command (cmd_buf c) split_index;
          (ret, c) \<leftarrow> dispatch env fuel command arg arg_buf_len (c\<lparr>cmd_buf := buf\<rparr>);
          Some ((False, ret), c) } })"

definition control_step :: "env \<Rightarrow> nat \<Rightarrow> (bool \<times> int) ftp" where
  \<comment> \<open>the body of the loop\<close>
  "control_step env fuel c =
     do { ((ret, buf), c) \<leftarrow> on_net (lftpd_inet_read_line env fuel (control_socket c) (cmd_buf c) CMD_BUF_SIZE) c;
          handle_line env fuel ret (c\<lparr>cmd_buf := buf\<rparr>) }"

primrec control_loop :: "nat \<Rightarrow> env \<Rightarrow> nat \<Rightarrow> int ftp" where
  "control_loop 0 env fuel c = None"
| "control_loop (Suc turns) env fuel c =
     do { ((leave, ret), c) \<leftarrow> control_step env fuel c;
          if leave \<or> ret < 0 then Some (ret, c) else control_loop turns env fuel c }"

definition close_connection :: "env \<Rightarrow> unit ftp" where
  \<comment> \<open>the label \<open>exit\<close>\<close>
  "close_connection env c =
     do { (_, c) \<leftarrow> (if 0 \<le> data_socket c then do_call env (SockClose (data_socket c)) c else Some (quiet_reply, c));
          let c = (if 0 \<le> data_socket c then c\<lparr>data_socket := - 1\<rparr> else c);
          (_, c) \<leftarrow> do_call env (SockClose (control_socket c)) c;
          Some ((), c\<lparr>control_socket := - 1\<rparr>) }"

definition handle_control_channel :: "nat \<Rightarrow> env \<Rightarrow> nat \<Rightarrow> int ftp" where
  "handle_control_channel turns env fuel c =
     do { (r, c) \<leftarrow> do_call env (SockGetpeername (control_socket c)) c;
          (_, c) \<leftarrow> (if r_ret r = 0 then on_net (lftpd_inet_get_socket_port env (control_socket c)) c else Some (0, c));
          (ret, c) \<leftarrow> send_simple_response env fuel 220 STATUS_220 c;
          (ret, c) \<leftarrow> (if ret < 0 then Some (ret, c) else control_loop turns env fuel c);
          (_, c) \<leftarrow> close_connection env c;
          Some (ret, c) }"

section \<open>The server\<close>

record lftpd =
  server_base_dir :: string
  server_socket :: int

definition lftpd_init :: "env \<Rightarrow> string \<Rightarrow> u16 \<Rightarrow> trace \<Rightarrow> ((int \<times> lftpd) \<times> trace) option" where
  "lftpd_init env dir port tr =
     do { (s, tr) \<leftarrow> lftpd_inet_listen env port tr;
          Some ((if s < 0 then s else 0, \<lparr>server_base_dir = dir, server_socket = s\<rparr>), tr) }"

primrec accept_loop :: "nat \<Rightarrow> env \<Rightarrow> int \<Rightarrow> trace \<Rightarrow> (int \<times> trace) option" where
  "accept_loop 0 env socket tr = None"
| "accept_loop (Suc turns) env socket tr =
     do { (r, tr) \<leftarrow> call env (SockAccept socket) tr;
          let client_socket = r_ret r;
          if client_socket < 0 then Some (client_socket, tr)
          else do {
            (r, tr) \<leftarrow> call env (MboxPut client_socket) tr;
            if r_ret r < 0 then do {
              (_, tr) \<leftarrow> call env (SockClose client_socket) tr;
              accept_loop turns env socket tr }
            else accept_loop turns env socket tr } }"

definition lftpd_run :: "nat \<Rightarrow> env \<Rightarrow> lftpd \<Rightarrow> trace \<Rightarrow> (int \<times> trace) option" where
  "lftpd_run turns env l tr =
     (if server_socket l < 0 then Some (- EINVAL, tr)
      else do {
        (r, tr) \<leftarrow> call env (SockGetsockname (server_socket l)) tr;
        (_, tr) \<leftarrow> (if r_ret r < 0 then Some (0, tr) else lftpd_inet_get_socket_port env (server_socket l) tr);
        (ret, tr) \<leftarrow> accept_loop turns env (server_socket l) tr;
        (_, tr) \<leftarrow> call env (SockClose (server_socket l)) tr;
        Some (ret, tr) })"

primrec conn_loop :: "nat \<Rightarrow> env \<Rightarrow> nat \<Rightarrow> int ftp" where
  "conn_loop 0 env fuel c = None"
| "conn_loop (Suc turns) env fuel c =
     do { (r, c) \<leftarrow> do_call env MboxGet c;
          if r_ret r < 0 then Some (r_ret r, c)
          else do {
            let c = c\<lparr>control_socket := r_num r\<rparr>;
            (_, c) \<leftarrow> handle_control_channel fuel env fuel c;
            conn_loop turns env fuel c } }"

definition lftpd_conn_run :: "nat \<Rightarrow> env \<Rightarrow> nat \<Rightarrow> lftpd \<Rightarrow> trace \<Rightarrow> (int \<times> lftpd_conn) option" where
  "lftpd_conn_run turns env fuel l tr =
     (let c = \<lparr>base_dir = server_base_dir l, cwd = replicate (MAX_PATH_LEN + 1) NUL,
               cmd_buf = replicate CMD_BUF_SIZE NUL, conn_buf = replicate CONN_BUF_SIZE NUL,
               control_socket = - 1, data_socket = - 1, conn_calls = tr\<rparr> in
      do { (ret, m) \<leftarrow> lftpd_path_resolve (base_dir c) (base_dir c) (cwd c) (MAX_PATH_LEN + 1);
           let c = c\<lparr>cwd := m\<rparr>;
           if ret < 0 then Some (ret, c) else conn_loop turns env fuel c })"

end
