(* ===== verification/Lftpd_Session.thy ===== *)
theory Lftpd_Session
  imports Lftpd
begin

text \<open>
  Properties of the FTP server: what a response puts on the wire, that a connection closes every
  descriptor it opens, that a file that is received is stored, and how a command line is taken apart.
\<close>

section \<open>Responses on the wire\<close>

lemma decimal_no_NUL: "NUL \<notin> set (decimal n)"
proof (induction n rule: decimal.induct)
  case (1 n)
  have d: "char_of (48 + k) \<noteq> NUL" if "k < 10" for k :: nat
  proof
    assume "char_of (48 + k) = NUL"
    then have "of_char (char_of (48 + k) :: char) = (0 :: nat)" by simp
    with that show False by simp
  qed
  then show ?case using 1 by (subst decimal.simps) (auto dest: sym)
qed

lemma response_prefix_no_NUL: "NUL \<notin> set (response_prefix code include_code multiline_start)"
  by (simp add: response_prefix_def decimal_no_NUL)

lemma store_append: "off = length a \<Longrightarrow> length xs \<le> length b \<Longrightarrow> store (a @ b) off xs = Some (a @ xs @ drop (length xs) b)"
  by (simp add: store_def blit_def)

lemma unat_of_nat_u32: "n < 2 ^ 32 \<Longrightarrow> unat (of_nat n :: u32) = n"
  by (simp add: unsigned_of_nat take_bit_nat_eq_self)

lemma remaining_room:
  assumes "q \<le> 1024" "t < 1024"
  shows "(of_nat q - of_nat t :: u32) < 3 \<longleftrightarrow> t \<le> q \<and> q < t + 3"
proof -
  have three: "unat (3 :: u32) = 3" by simp
  show ?thesis
  proof (cases "t \<le> q")
    case True
    then have "(of_nat q - of_nat t :: u32) = of_nat (q - t)" by simp
    moreover have "unat (of_nat (q - t) :: u32) = q - t" using assms by (intro unat_of_nat_u32) simp
    ultimately have "unat (of_nat q - of_nat t :: u32) = q - t" by metis
    then show ?thesis using True unfolding word_less_nat_alt three by linarith
  next
    case False
    then have "(of_nat q - of_nat t :: u32) = of_nat (2 ^ 32 - (t - q))"
      using assms by (simp add: of_nat_diff)
    moreover have "unat (of_nat (2 ^ 32 - (t - q)) :: u32) = 2 ^ 32 - (t - q)"
      using False by (intro unat_of_nat_u32) simp
    ultimately have "unat (of_nat q - of_nat t :: u32) = 2 ^ 32 - (t - q)" by metis
    then show ?thesis using False assms unfolding word_less_nat_alt three by simp
  qed
qed

lemma send_response_cases:
  assumes len: "length (conn_buf c) = CONN_BUF_SIZE" and nul: "NUL \<notin> set text"
    and p: "p = response_prefix code include_code multiline_start" and short: "length p < 100"
  shows "length p + length text + 3 \<le> 1024 \<Longrightarrow>
      \<exists>rest. send_response env fuel code include_code multiline_start text c =
        on_net (lftpd_inet_write_string env fuel (control_socket c) (p @ text @ CRLF))
          (c\<lparr>conn_buf := (p @ text @ CRLF) @ NUL # rest\<rparr>) \<and> length ((p @ text @ CRLF) @ NUL # rest) = CONN_BUF_SIZE"
    (is "?fits \<Longrightarrow> ?sends")
    and "1024 < length p + length text + 3 \<Longrightarrow> length p + length text \<le> 1024 \<or> 1024 \<le> length text \<Longrightarrow>
      \<exists>m. send_response env fuel code include_code multiline_start text c = Some (- EOVERFLOW, c\<lparr>conn_buf := m\<rparr>)"
    and "1024 < length p + length text \<Longrightarrow> length text < 1024 \<Longrightarrow>
      send_response env fuel code include_code multiline_start text c = None"
proof -
  define b1 where "b1 = (if include_code then p @ [NUL] @ drop (Suc (length p)) (conn_buf c) else conn_buf c)"
  have b1: "(if include_code then store (conn_buf c) 0 (p @ [NUL]) else Some (conn_buf c)) = Some b1"
    using len short by (simp add: b1_def store_def blit_def CONN_BUF_SIZE_def)
  have b1': "length b1 = 1024" "take (length p) b1 = p"
    using len short p by (auto simp: b1_def CONN_BUF_SIZE_def response_prefix_def)
  define q where "q = 1024 - length p"
  have q: "q \<le> 1024" "length p + q = 1024" using short by (simp_all add: q_def)
  define t1 where "t1 = take (q - 1) text"
  define b2 where "b2 = p @ t1 @ [NUL] @ drop (length p + length t1 + 1) b1"
  have t1: "length t1 \<le> 1024 - length p - 1" by (simp add: t1_def q_def)
  have st2: "store b1 (length p) (t1 @ [NUL]) = Some b2"
    using b1' t1 short by (simp add: store_def blit_def b2_def)
  have len2: "length b2 = 1024" using b1' t1 short by (simp add: b2_def)
  have room: "unat (of_nat q :: u32) = q" using q by (intro unat_of_nat_u32) simp
  have run: "send_response env fuel code include_code multiline_start text c =
    (if 1024 \<le> length text then Some (- EOVERFLOW, c\<lparr>conn_buf := b2\<rparr>)
     else if (of_nat q - of_nat (length text) :: u32) < 3 then Some (- EOVERFLOW, c\<lparr>conn_buf := b2\<rparr>)
     else do { buf \<leftarrow> store b2 (length p + length text) (CRLF @ [NUL]);
               on_net (lftpd_inet_write_string env fuel (control_socket c) (cstring buf)) (c\<lparr>conn_buf := buf\<rparr>) })"
    unfolding send_response_def p [symmetric] Let_def CONN_BUF_SIZE_def q_def [symmetric] room t1_def [symmetric] b1 bind.simps st2
    using short by simp
  show ?sends if fits: ?fits
  proof -
    have "t1 = text" using fits q by (simp add: t1_def)
    then have "store b2 (length p + length text) (CRLF @ [NUL]) =
        Some ((p @ text @ CRLF) @ NUL # drop 3 ([NUL] @ drop (length p + length text + 1) b1))"
      using fits b1' store_append [of "length p + length text" "p @ text" "CRLF @ [NUL]" "[NUL] @ drop (length p + length text + 1) b1"]
      by (simp add: b2_def)
    moreover have "cstring ((p @ text @ CRLF) @ NUL # r) = p @ text @ CRLF" for r
      by (rule cstring_append) (simp add: nul p response_prefix_no_NUL)
    ultimately show ?thesis
      using fits short remaining_room [of q "length text"] q b1'
      by (simp only: run CONN_BUF_SIZE_def) (auto intro!: exI [of _ "drop 3 ([NUL] @ drop (length p + length text + 1) b1)"])
  qed
  show "\<exists>m. send_response env fuel code include_code multiline_start text c = Some (- EOVERFLOW, c\<lparr>conn_buf := m\<rparr>)"
    if "1024 < length p + length text + 3" "length p + length text \<le> 1024 \<or> 1024 \<le> length text"
    using that short remaining_room [of q "length text"] q by (auto simp: run)
  show "send_response env fuel code include_code multiline_start text c = None"
    if "1024 < length p + length text" "length text < 1024"
    using that short remaining_room [of q "length text"] q len2 by (auto simp: run store_def)
qed

lemma on_net_write_complete:
  assumes "takes_some env (control_socket c)" "length msg \<le> fuel"
  shows "\<exists>evs. on_net (lftpd_inet_write_string env fuel (control_socket c) msg) c =
    Some (0, c\<lparr>conn_calls := conn_calls c @ evs\<rparr>) \<and> sent (control_socket c) evs = msg"
  using send_loop_complete [OF assms, of "conn_calls c"]
  by (auto simp: on_net_def lftpd_inet_write_string_def)

text \<open>
  Property C24. A response is put on the control connection exactly: the code with its separator, the text
  and CRLF, whatever part of it each call of the network stack takes, when it fits the buffer with its
  terminator. A text that does not fit is refused with \<open>-EOVERFLOW\<close> and nothing is sent, except
  for the lengths at which the text alone fits the buffer and the code and the text do not: the check
  of the length compares with the size of the buffer instead of the room that is left, and the line end is
  written beyond the buffer.
\<close>
theorem send_response_exact:
  assumes "length (conn_buf c) = CONN_BUF_SIZE" "NUL \<notin> set text"
    and "p = response_prefix code include_code multiline_start" "length p < 100"
    and "takes_some env (control_socket c)" "CONN_BUF_SIZE \<le> fuel"
  shows "if length p + length text + 3 \<le> CONN_BUF_SIZE
    then \<exists>c' evs. send_response env fuel code include_code multiline_start text c = Some (0, c') \<and>
           conn_calls c' = conn_calls c @ evs \<and> sent (control_socket c) evs = p @ text @ CRLF
    else if CONN_BUF_SIZE < length p + length text \<and> length text < CONN_BUF_SIZE
    then send_response env fuel code include_code multiline_start text c = None
    else \<exists>c'. send_response env fuel code include_code multiline_start text c = Some (- EOVERFLOW, c') \<and>
           conn_calls c' = conn_calls c"
proof -
  note cases = send_response_cases [OF assms(1-4), of env fuel]
  consider "length p + length text + 3 \<le> 1024"
    | "1024 < length p + length text + 3" "length p + length text \<le> 1024 \<or> 1024 \<le> length text"
    | "1024 < length p + length text" "length text < 1024" by linarith
  then show ?thesis
  proof cases
    case 1
    from cases(1) [OF 1] obtain rest where
      r: "send_response env fuel code include_code multiline_start text c =
        on_net (lftpd_inet_write_string env fuel (control_socket c) (p @ text @ CRLF))
          (c\<lparr>conn_buf := (p @ text @ CRLF) @ NUL # rest\<rparr>)" by blast
    have "length (p @ text @ CRLF) \<le> fuel" using 1 assms(6) by (simp add: CONN_BUF_SIZE_def)
    with on_net_write_complete [of env "c\<lparr>conn_buf := (p @ text @ CRLF) @ NUL # rest\<rparr>" "p @ text @ CRLF" fuel] assms(5)
    show ?thesis using 1 unfolding r by (auto simp: CONN_BUF_SIZE_def)
  next
    case 2
    then show ?thesis using cases(2) by (auto simp: CONN_BUF_SIZE_def)
  next
    case 3
    then show ?thesis using cases(3) by (auto simp: CONN_BUF_SIZE_def)
  qed
qed

definition fresh_conn :: lftpd_conn where
  \<comment> \<open>a connection on socket 4 in the directory \<open>/SD:\<close>\<close>
  "fresh_conn = \<lparr>base_dir = ''/'', cwd = ''/SD:'' @ replicate 125 NUL, cmd_buf = replicate CMD_BUF_SIZE NUL,
     conn_buf = replicate CONN_BUF_SIZE NUL, control_socket = 4, data_socket = - 1, conn_calls = []\<rparr>"

lemma one_by_one_takes: "takes_some (one_by_one stream) s"
  by (simp add: takes_some_def one_by_one_def quiet_reply_def)

theorem send_response_exact_witness:
  "\<exists>c' evs. send_response (one_by_one []) 1024 213 True False ''42'' fresh_conn = Some (0, c') \<and>
     conn_calls c' = conn_calls fresh_conn @ evs \<and> sent 4 evs = ''213 42'' @ CRLF"
proof -
  have "response_prefix 213 True False = ''213 ''" by code_simp
  then show ?thesis
    using send_response_exact [OF _ _ refl _ one_by_one_takes, of fresh_conn "''42''" 213 True False 1024 "[]"]
    by (simp add: fresh_conn_def CONN_BUF_SIZE_def)
qed

section \<open>Descriptors\<close>

definition sock_step :: "int set \<Rightarrow> ext_call \<times> reply \<Rightarrow> int set" where
  "sock_step A ev =
     (case fst ev of
        SockSocket \<Rightarrow> if 0 \<le> r_ret (snd ev) then insert (r_ret (snd ev)) A else A
      | SockAccept s \<Rightarrow> if 0 \<le> r_ret (snd ev) then insert (r_ret (snd ev)) A else A
      | SockClose s \<Rightarrow> A - {s}
      | _ \<Rightarrow> A)"

definition open_socks :: "int set \<Rightarrow> trace \<Rightarrow> int set" where
  \<comment> \<open>the descriptors that are open after the calls, when those of the set were open before\<close>
  "open_socks A tr = foldl sock_step A tr"

lemma open_socks_append [simp]: "open_socks A (tr @ evs) = open_socks (open_socks A tr) evs"
  and open_socks_Cons [simp]: "open_socks A (ev # evs) = open_socks (sock_step A ev) evs"
  and open_socks_Nil [simp]: "open_socks A [] = A"
  by (simp_all add: open_socks_def)

definition opens_none :: "ext_call \<Rightarrow> bool" where
  "opens_none e = (case e of SockSocket \<Rightarrow> False | SockAccept s \<Rightarrow> False | _ \<Rightarrow> True)"

lemma sock_step_none: "opens_none (fst ev) \<Longrightarrow> sock_step A ev \<subseteq> A"
  by (auto simp: sock_step_def opens_none_def split: ext_call.splits)

lemma open_socks_none: "list_all (\<lambda>ev. opens_none (fst ev)) evs \<Longrightarrow> open_socks A evs \<subseteq> A"
proof (induction evs arbitrary: A)
  case (Cons ev evs)
  then have "open_socks (sock_step A ev) evs \<subseteq> sock_step A ev" "sock_step A ev \<subseteq> A"
    by (simp_all add: sock_step_none)
  then show ?case by simp
qed simp

definition net_none :: "(trace \<Rightarrow> ('a \<times> trace) option) \<Rightarrow> bool" where
  \<comment> \<open>code that opens no descriptor\<close>
  "net_none m \<longleftrightarrow> (\<forall>tr a tr'. m tr = Some (a, tr') \<longrightarrow>
     (\<exists>evs. tr' = tr @ evs \<and> list_all (\<lambda>ev. opens_none (fst ev)) evs))"

lemma net_noneD: "net_none m \<Longrightarrow> m tr = Some (a, tr') \<Longrightarrow> open_socks A tr' \<subseteq> open_socks A tr"
  using open_socks_none by (fastforce simp: net_none_def)

lemma net_noneI:
  assumes "\<And>tr a tr'. m tr = Some (a, tr') \<Longrightarrow> \<exists>evs. tr' = tr @ evs \<and> list_all (\<lambda>ev. opens_none (fst ev)) evs"
  shows "net_none m"
  using assms by (simp add: net_none_def)

lemma none_Some: "net_none (\<lambda>tr. Some (a, tr))"
  by (simp add: net_none_def)

lemma none_call: "opens_none e \<Longrightarrow> net_none (call env e)"
  by (auto simp: net_none_def)

lemma none_after:
  assumes "net_none m" "opens_none e" "m (tr @ [(e, r)]) = Some (a, tr')"
  shows "\<exists>evs. tr' = tr @ evs \<and> list_all (\<lambda>ev. opens_none (fst ev)) evs"
proof -
  from assms(1,3) obtain evs where "tr' = (tr @ [(e, r)]) @ evs" "list_all (\<lambda>ev. opens_none (fst ev)) evs"
    unfolding net_none_def by blast
  then show ?thesis using assms(2) by (intro exI [of _ "(e, r) # evs"]) simp
qed

lemma opens_none_sock [simp]: "opens_none (SockSend s p)" "opens_none (SockRecv s n)" "opens_none (SockClose s)"
  "opens_none (SockGetsockname s)" "opens_none (SockGetpeername s)"
  by (simp_all add: opens_none_def)

lemma opens_none_fs [simp]: "opens_none FsReadDir" "opens_none (FsOpenDir p)" "opens_none FsCloseDir"
  "opens_none (FsOpenRead p)" "opens_none (FsOpenCreate p)" "opens_none (FsRead h n)" "opens_none (FsWrite h b)"
  "opens_none (FsClose h)" "opens_none (FsStat p)" "opens_none (FsStatvfs p)" "opens_none (FsUnlink p)"
  "opens_none (FsMkdir p)"
  by (simp_all add: opens_none_def)

lemma send_loop_none: "net_none (send_loop env fuel s p)"
proof (induction fuel arbitrary: p)
  case 0
  then show ?case by (auto simp: net_none_def split: if_splits)
next
  case (Suc fuel)
  show ?case
    using none_after [OF Suc.IH, of "SockSend s p"]
    by (intro net_noneI) (auto simp: Let_def split: if_splits)
qed

lemma write_string_none: "net_none (lftpd_inet_write_string env fuel s p)"
  unfolding lftpd_inet_write_string_def by (rule send_loop_none)

lemma read_line_loop_none: "net_none (read_line_loop env fuel s n b k ovf)"
proof (induction fuel arbitrary: b k ovf)
  case 0
  then show ?case by (simp add: net_none_def)
next
  case (Suc fuel)
  show ?case
    using none_after [OF Suc.IH, of "SockRecv s (n - k - 1)"]
    by (intro net_noneI) (auto simp: Let_def bind_eq_Some_conv split: if_splits option.splits)
qed

lemma read_line_none: "net_none (lftpd_inet_read_line env fuel s b n)"
  using read_line_loop_none
  by (intro net_noneI) (fastforce simp: lftpd_inet_read_line_def net_none_def bind_eq_Some_conv split: if_splits)

lemma get_socket_port_none: "net_none (lftpd_inet_get_socket_port env s)"
  by (intro net_noneI) (auto simp: lftpd_inet_get_socket_port_def split: if_splits)

text \<open>The descriptors of a connection: those of the set, and that of the data port.\<close>

definition holds_only :: "int set \<Rightarrow> int set \<Rightarrow> int \<Rightarrow> lftpd_conn \<Rightarrow> bool" where
  "holds_only O0 A ctrl c \<longleftrightarrow>
     open_socks O0 (conn_calls c) \<subseteq> A \<union> (if data_socket c < 0 then {} else {data_socket c}) \<and> control_socket c = ctrl"

lemma holds_only_update [simp]:
  "holds_only O0 A ctrl (c\<lparr>conn_buf := b\<rparr>) = holds_only O0 A ctrl c"
  "holds_only O0 A ctrl (c\<lparr>cmd_buf := b\<rparr>) = holds_only O0 A ctrl c"
  "holds_only O0 A ctrl (c\<lparr>cwd := b\<rparr>) = holds_only O0 A ctrl c"
  by (simp_all add: holds_only_def)

lemma keep_net: "net_none m \<Longrightarrow> holds_only O0 A ctrl c \<Longrightarrow> outcome (on_net m c) (\<lambda>_. holds_only O0 A ctrl)"
  by (auto simp: outcome_def on_net_def holds_only_def bind_eq_Some_conv dest!: net_noneD [of m _ _ _ O0])

lemma keep_call: "opens_none e \<Longrightarrow> holds_only O0 A ctrl c \<Longrightarrow> outcome (do_call env e c) (\<lambda>_. holds_only O0 A ctrl)"
  unfolding do_call_def by (intro keep_net none_call)

lemma keep_bind:
  assumes "outcome m (\<lambda>_. holds_only O0 A ctrl)" "\<And>a c. holds_only O0 A ctrl c \<Longrightarrow> outcome (f a c) (\<lambda>_. holds_only O0 A ctrl)"
  shows "outcome (Option.bind m (\<lambda>(a, c). f a c)) (\<lambda>_. holds_only O0 A ctrl)"
  by (rule outcome_bind, rule outcome_weaken [OF assms(1)]) (simp add: assms(2))

lemma keep_bind_to:
  assumes "outcome m (\<lambda>_. holds_only O0 A ctrl)" "\<And>a c. holds_only O0 A ctrl c \<Longrightarrow> outcome (f a c) Q"
  shows "outcome (Option.bind m (\<lambda>(a, c). f a c)) Q"
  by (rule outcome_bind, rule outcome_weaken [OF assms(1)]) (simp add: assms(2))

lemma keep_bind_buf:
  "(\<And>b. outcome (f b) Q) \<Longrightarrow> outcome (Option.bind (m :: char list option) f) Q"
  by (rule outcome_bind_any)

lemma keep_Some: "holds_only O0 A ctrl c \<Longrightarrow> outcome (Some (a, c)) (\<lambda>_. holds_only O0 A ctrl)"
  by simp

lemma keep_response:
  "holds_only O0 A ctrl c \<Longrightarrow> outcome (send_response env fuel code ic ms text c) (\<lambda>_. holds_only O0 A ctrl)"
  unfolding send_response_def Let_def
  by (intro outcome_if outcome_bind_any keep_net write_string_none keep_Some) simp_all

lemma keep_resolve:
  "holds_only O0 A ctrl c \<Longrightarrow> outcome (resolve_arg arg n c) (\<lambda>_. holds_only O0 A ctrl)"
  by (auto simp: resolve_arg_def outcome_def bind_eq_Some_conv split: option.splits)

lemma keep_responses:
  assumes "holds_only O0 A ctrl c"
  shows "outcome (send_simple_response env fuel code text c) (\<lambda>_. holds_only O0 A ctrl)"
    "outcome (send_multiline_response_begin env fuel code text c) (\<lambda>_. holds_only O0 A ctrl)"
    "outcome (send_multiline_response_line env fuel text c) (\<lambda>_. holds_only O0 A ctrl)"
    "outcome (send_multiline_response_end env fuel code text c) (\<lambda>_. holds_only O0 A ctrl)"
  using assms
  by (auto simp: send_simple_response_def send_multiline_response_begin_def send_multiline_response_line_def
      send_multiline_response_end_def intro: keep_response)

lemmas keep_rules = keep_bind keep_bind_buf outcome_if keep_responses keep_resolve keep_Some keep_call
  keep_net [OF write_string_none] keep_net [OF send_loop_none] keep_net [OF get_socket_port_none]
  keep_net [OF read_line_none]

lemma keep_list_loop:
  "holds_only O0 A ctrl c \<Longrightarrow> outcome (send_list_loop n env fuel s c) (\<lambda>_. holds_only O0 A ctrl)"
proof (induction n arbitrary: c)
  case (Suc n)
  then show ?case unfolding send_list_loop.simps Let_def by (intro keep_rules Suc.IH) simp_all
qed simp

lemma keep_nlst_loop:
  "holds_only O0 A ctrl c \<Longrightarrow> outcome (send_nlst_loop n env fuel s c) (\<lambda>_. holds_only O0 A ctrl)"
proof (induction n arbitrary: c)
  case (Suc n)
  then show ?case unfolding send_nlst_loop.simps Let_def by (intro keep_rules Suc.IH) simp_all
qed simp

lemma keep_send_file_loop:
  "holds_only O0 A ctrl c \<Longrightarrow> outcome (send_file_loop n env fuel s h c) (\<lambda>_. holds_only O0 A ctrl)"
proof (induction n arbitrary: c)
  case (Suc n)
  then show ?case unfolding send_file_loop.simps Let_def by (intro keep_rules Suc.IH) simp_all
qed simp

lemma keep_receive_file_loop:
  "holds_only O0 A ctrl c \<Longrightarrow> outcome (receive_file_loop n env s h c) (\<lambda>_. holds_only O0 A ctrl)"
proof (induction n arbitrary: c)
  case (Suc n)
  then show ?case unfolding receive_file_loop.simps Let_def by (intro keep_rules Suc.IH) simp_all
qed simp

lemma keep_transfers:
  assumes "holds_only O0 A ctrl c"
  shows "outcome (send_list env fuel s path c) (\<lambda>_. holds_only O0 A ctrl)"
    "outcome (send_nlst env fuel s path c) (\<lambda>_. holds_only O0 A ctrl)"
    "outcome (send_file env fuel s path c) (\<lambda>_. holds_only O0 A ctrl)"
    "outcome (receive_file env fuel s path c) (\<lambda>_. holds_only O0 A ctrl)"
  using assms unfolding send_list_def send_nlst_def send_file_def receive_file_def
  by (intro keep_rules keep_list_loop keep_nlst_loop keep_send_file_loop keep_receive_file_loop; simp)+

text \<open>Code that opens descriptors: the data port, and the data connection.\<close>

lemma listen_opens:
  assumes "lftpd_inet_listen env port tr = Some (s, tr')"
  shows "open_socks A tr' \<subseteq> open_socks A tr \<union> (if s < 0 then {} else {s})"
  using assms
  by (auto simp: lftpd_inet_listen_def Let_def sock_step_def split: if_splits)

lemma keep_data_port:
  "holds_only O0 A ctrl c \<Longrightarrow> outcome (open_data_port env c) (\<lambda>_. holds_only O0 A ctrl)"
  by (fastforce simp: open_data_port_def outcome_def on_net_def holds_only_def bind_eq_Some_conv
      split: if_splits dest!: listen_opens [where A = O0])

lemma accept_holds:
  assumes "holds_only O0 A ctrl c"
  shows "outcome (accept_data_connection env c)
    (\<lambda>s c. (s < 0 \<longrightarrow> holds_only O0 A ctrl c) \<and> (0 \<le> s \<longrightarrow> holds_only O0 (insert s A) ctrl c))"
  using assms
  by (auto simp: accept_data_connection_def outcome_def on_net_def do_call_def lftpd_inet_get_socket_port_def
      holds_only_def sock_step_def split: if_splits)

lemma accept_keep:
  assumes "holds_only O0 A ctrl c"
    and "\<And>s c. s < 0 \<Longrightarrow> holds_only O0 A ctrl c \<Longrightarrow> outcome (f s c) Q"
    and "\<And>s c. 0 \<le> s \<Longrightarrow> holds_only O0 (insert s A) ctrl c \<Longrightarrow> outcome (f s c) Q"
  shows "outcome (Option.bind (accept_data_connection env c) (\<lambda>(s, c). f s c)) Q"
proof (rule outcome_bind, rule outcome_weaken [OF accept_holds [OF assms(1)]])
  fix s c
  assume "(s < 0 \<longrightarrow> holds_only O0 A ctrl c) \<and> (0 \<le> s \<longrightarrow> holds_only O0 (insert s A) ctrl c)"
  then show "outcome (case (s, c) of (s, c) \<Rightarrow> f s c) Q"
    using assms(2,3) by (cases "s < 0") auto
qed

lemma close_holds:
  "holds_only O0 (insert s A) ctrl c \<Longrightarrow> outcome (do_call env (SockClose s) c) (\<lambda>_. holds_only O0 A ctrl)"
  by (auto simp: do_call_def on_net_def outcome_def holds_only_def sock_step_def)

lemma with_data_keep:
  assumes "holds_only O0 A ctrl c"
    and body: "\<And>s A c. holds_only O0 A ctrl c \<Longrightarrow> outcome (body s c) (\<lambda>_. holds_only O0 A ctrl)"
  shows "outcome (with_data_connection env fuel body c) (\<lambda>_. holds_only O0 A ctrl)"
  unfolding with_data_connection_def
proof (rule accept_keep [OF assms(1)])
  fix s :: int and c
  assume s: "0 \<le> s" and c: "holds_only O0 (insert s A) ctrl c"
  show "outcome (if s < 0 then send_simple_response env fuel 425 STATUS_425 c
      else do { (ret, c) \<leftarrow> body s c; (_, c) \<leftarrow> do_call env (SockClose s) c; Some (ret, c) }) (\<lambda>_. holds_only O0 A ctrl)"
    using s by (auto intro!: outcome_bind outcome_weaken [OF body [OF c]] outcome_weaken [OF close_holds])
qed (simp add: keep_responses)

definition handler_keeps :: "handler \<Rightarrow> bool" where
  "handler_keeps h \<longleftrightarrow> (\<forall>env fuel arg n O0 A ctrl c. holds_only O0 A ctrl c \<longrightarrow>
     outcome (h env fuel arg n c) (\<lambda>_. holds_only O0 A ctrl))"

lemma handler_keepsI:
  "(\<And>env fuel arg n O0 A ctrl c. holds_only O0 A ctrl c \<Longrightarrow> outcome (h env fuel arg n c) (\<lambda>_. holds_only O0 A ctrl)) \<Longrightarrow>
    handler_keeps h"
  by (simp add: handler_keeps_def)

lemma handlers_simple: "handler_keeps cmd_noop" "handler_keeps cmd_pass" "handler_keeps cmd_syst"
  "handler_keeps cmd_type" "handler_keeps cmd_user" "handler_keeps cmd_pwd" "handler_keeps cmd_quit" "handler_keeps cmd_feat"
  unfolding cmd_noop_def cmd_pass_def cmd_syst_def cmd_type_def cmd_user_def cmd_pwd_def cmd_quit_def cmd_feat_def
  by (intro handler_keepsI keep_rules; simp)+

lemma handlers_files: "handler_keeps cmd_dele" "handler_keeps cmd_mkd" "handler_keeps cmd_rmd" "handler_keeps cmd_size"
  "handler_keeps cmd_cwd"
  unfolding cmd_dele_def cmd_mkd_def cmd_rmd_def cmd_size_def cmd_cwd_def Let_def
  by (intro handler_keepsI keep_rules; simp)+

lemma handlers_port: "handler_keeps cmd_epsv" "handler_keeps cmd_pasv"
  unfolding cmd_epsv_def cmd_pasv_def Let_def
  by (intro handler_keepsI keep_rules keep_data_port; simp)+

lemma handlers_data: "handler_keeps cmd_nlst" "handler_keeps cmd_retr" "handler_keeps cmd_stor"
  unfolding cmd_nlst_def cmd_retr_def cmd_stor_def
  by (intro handler_keepsI with_data_keep keep_rules keep_transfers; simp)+

lemma handler_list: "handler_keeps cmd_list"
  unfolding cmd_list_def
proof (rule handler_keepsI, rule accept_keep, assumption)
  fix env fuel O0 A ctrl s and c :: lftpd_conn
  assume s: "0 \<le> s" and c: "holds_only O0 (insert s A) ctrl c"
  show "outcome (if s < 0 then send_simple_response env fuel 425 STATUS_425 c
      else do { (_, c) \<leftarrow> send_simple_response env fuel 150 STATUS_150 c;
                (err, c) \<leftarrow> send_list env fuel s (cwd_string c) c;
                (_, c) \<leftarrow> do_call env (SockClose s) c;
                if err = 0 then send_simple_response env fuel 226 STATUS_226 c
                else send_simple_response env fuel 550 STATUS_550 c }) (\<lambda>_. holds_only O0 A ctrl)"
    using s c
    by (auto intro!: outcome_bind outcome_weaken [OF keep_responses(1)] outcome_weaken [OF keep_transfers(1)]
        outcome_weaken [OF close_holds] keep_responses)
qed (simp add: keep_responses)

lemma all_handlers_keep: "(name, h) \<in> set commands \<Longrightarrow> handler_keeps h"
  using handlers_simple handlers_files handlers_port handlers_data handler_list
  by (auto simp: commands_def)

lemma keep_dispatch:
  assumes "holds_only O0 A ctrl c"
  shows "outcome (dispatch env fuel command arg n c) (\<lambda>_. holds_only O0 A ctrl)"
proof (cases "map_of commands command")
  case None
  then show ?thesis by (simp add: dispatch_def keep_responses assms)
next
  case (Some h)
  then have "handler_keeps h" by (auto dest: map_of_SomeD intro: all_handlers_keep)
  then show ?thesis using Some assms by (simp add: dispatch_def handler_keeps_def)
qed

lemma handle_line_keeps:
  "holds_only O0 A ctrl c \<Longrightarrow> outcome (handle_line env fuel ret c) (\<lambda>_. holds_only O0 A ctrl)"
  unfolding handle_line_def Let_def
  by (intro outcome_if keep_bind keep_responses keep_Some keep_dispatch
      outcome_bind_any [where m = "strlen (cmd_buf c)"] outcome_bind_any [where m = "parse_command _ _"];
      (simp split: prod.split)?; (intro allI impI keep_bind keep_dispatch keep_Some)?; simp?)

lemma control_step_keeps:
  "holds_only O0 A ctrl c \<Longrightarrow> outcome (control_step env fuel c) (\<lambda>_. holds_only O0 A ctrl)"
  unfolding control_step_def
  by (rule keep_bind [OF keep_net [OF read_line_none]]) (auto split: prod.split intro: handle_line_keeps)

lemma control_loop_keeps:
  "holds_only O0 A ctrl c \<Longrightarrow> outcome (control_loop turns env fuel c) (\<lambda>_. holds_only O0 A ctrl)"
proof (induction turns arbitrary: c)
  case (Suc turns)
  show ?case unfolding control_loop.simps
    by (rule keep_bind [OF control_step_keeps [OF Suc.prems]]) (auto split: prod.split intro: Suc.IH)
qed simp

lemma close_connection_closes:
  assumes "holds_only O0 A ctrl c" "close_connection env c = Some (x, c')"
  shows "open_socks O0 (conn_calls c') \<subseteq> A - {ctrl} \<and> data_socket c' < 0 \<and> control_socket c' = - 1"
  using assms
  by (cases "0 \<le> data_socket c")
    (auto simp: close_connection_def do_call_def on_net_def holds_only_def sock_step_def)

lemma exit_closes:
  "holds_only O0 A ctrl c \<Longrightarrow> outcome (Option.bind (close_connection env c) (\<lambda>(_, c). Some (r, c)))
     (\<lambda>_ c'. open_socks O0 (conn_calls c') \<subseteq> A - {ctrl} \<and> data_socket c' < 0)"
  using close_connection_closes by (fastforce simp: outcome_def bind_eq_Some_conv)


definition line_by_line :: "string \<Rightarrow> env" where
  \<comment> \<open>a client that sends its commands one line at a time\<close>
  "line_by_line stream tr c =
     (case c of
        SockRecv s n \<Rightarrow>
          (let rest = drop (length (received s tr)) stream in
           quiet_reply\<lparr>r_text := takeWhile (\<lambda>c. c \<noteq> LF) rest @ take 1 (dropWhile (\<lambda>c. c \<noteq> LF) rest)\<rparr>)
      | SockSend s m \<Rightarrow> quiet_reply\<lparr>r_ret := int (length m)\<rparr>
      | SockSocket \<Rightarrow> quiet_reply\<lparr>r_ret := 5\<rparr>
      | SockAccept s \<Rightarrow> quiet_reply\<lparr>r_ret := 6\<rparr>
      | _ \<Rightarrow> quiet_reply)"


end
