(* ===== verification/Protocol.thy ===== *)
theory Protocol
  imports Prelude
begin

text \<open>
  The advertisements with which the central node tells the audio nodes its time and its commands,
  \<^verbatim>\<open>firmware/include/zeus/protocol.h\<close>: the packed structures, their bytes, and the parser of the audio nodes,
  \<open>mgr_parse_adv_data\<close> of \<^verbatim>\<open>audio/app/src/mgr.cpp\<close>.
\<close>

abbreviation (input) ZEUS_ADV_CMD_NONE :: u8 where "ZEUS_ADV_CMD_NONE \<equiv> 0"
abbreviation (input) ZEUS_ADV_CMD_START :: u8 where "ZEUS_ADV_CMD_START \<equiv> 1"
abbreviation (input) ZEUS_ADV_CMD_STOP :: u8 where "ZEUS_ADV_CMD_STOP \<equiv> 2"

record zeus_adv_sync =
  sync_seq :: u8
  prev_time :: u32                \<comment> \<open>timestamp of the previous packet transmitted\<close>

record zeus_adv_cmd =
  cmd_id :: u8
  cmd_time :: u32                 \<comment> \<open>\<open>start.time\<close>\<close>

record zeus_adv_data =
  adv_sync :: zeus_adv_sync
  adv_seq :: u16                  \<comment> \<open>the number of the command\<close>
  adv_cmd :: zeus_adv_cmd

definition SIZEOF_HEADER :: nat where "SIZEOF_HEADER = 1 + 4 + 2"
definition SIZEOF_CMD :: nat where "SIZEOF_CMD = 1 + 4"

definition adv_bytes :: "zeus_adv_data \<Rightarrow> u8 list" where
  \<comment> \<open>the object in memory, little endian and packed\<close>
  "adv_bytes d = sync_seq (adv_sync d) # put_le32 (prev_time (adv_sync d)) @ put_le16 (adv_seq d) @
     cmd_id (adv_cmd d) # put_le32 (cmd_time (adv_cmd d))"

definition adv_of_bytes :: "u8 list \<Rightarrow> zeus_adv_data" where
  "adv_of_bytes bs =
     \<lparr>adv_sync = \<lparr>sync_seq = bs ! 0, prev_time = get_le32 (drop 1 bs)\<rparr>, adv_seq = get_le16 (drop 5 bs),
      adv_cmd = \<lparr>cmd_id = bs ! 7, cmd_time = get_le32 (drop 8 bs)\<rparr>\<rparr>"

definition BT_DATA_MANUFACTURER_DATA :: u8 where "BT_DATA_MANUFACTURER_DATA = 0xff"

definition mgr_parse_adv_data :: "u8 \<Rightarrow> u8 list \<Rightarrow> zeus_adv_data \<Rightarrow> zeus_adv_data option" where
  \<comment> \<open>type and data of an element of the advertisement, and the object that is overwritten; \<open>None\<close> for
      \<open>false\<close>\<close>
  "mgr_parse_adv_data adv_type bs old =
     (if adv_type \<noteq> BT_DATA_MANUFACTURER_DATA then None
      else if length bs < SIZEOF_HEADER then None
      else if SIZEOF_HEADER + SIZEOF_CMD < length bs then None
      else
        let d = adv_of_bytes (bs @ drop (length bs) (adv_bytes old));
            body_len = length bs - SIZEOF_HEADER in
        if body_len = 0 then Some (d\<lparr>adv_cmd := \<lparr>cmd_id = ZEUS_ADV_CMD_NONE, cmd_time = 0\<rparr>\<rparr>)
        else
          let cmd_len = body_len - 1; i = cmd_id (adv_cmd d) in
          if i = ZEUS_ADV_CMD_NONE \<or> i = ZEUS_ADV_CMD_STOP then (if cmd_len \<noteq> 0 then None else Some d)
          else if i = ZEUS_ADV_CMD_START then (if cmd_len \<noteq> 4 then None else Some d)
          else None)"

definition adv_len :: "zeus_adv_data \<Rightarrow> nat" where
  \<comment> \<open>the length the central node announces; a command it does not know is sent as none\<close>
  "adv_len d =
     SIZEOF_HEADER +
     (if cmd_id (adv_cmd d) = ZEUS_ADV_CMD_START then 1 + 4
      else if cmd_id (adv_cmd d) = ZEUS_ADV_CMD_STOP then 1 + 0
      else 0)"

lemma length_adv_bytes [simp]: "length (adv_bytes d) = 12"
  by (simp add: adv_bytes_def)

definition same_advert :: "zeus_adv_data \<Rightarrow> zeus_adv_data \<Rightarrow> bool" where
  \<comment> \<open>the same header and command; the time counts for a start only\<close>
  "same_advert d d' \<longleftrightarrow> adv_sync d' = adv_sync d \<and> adv_seq d' = adv_seq d \<and>
     cmd_id (adv_cmd d') = cmd_id (adv_cmd d) \<and>
     (cmd_id (adv_cmd d) = ZEUS_ADV_CMD_START \<longrightarrow> cmd_time (adv_cmd d') = cmd_time (adv_cmd d))"

lemma adv_of_adv_bytes:
  "adv_of_bytes (sync_seq (adv_sync d) # put_le32 (prev_time (adv_sync d)) @ put_le16 (adv_seq d) @ i # put_le32 t) =
     \<lparr>adv_sync = adv_sync d, adv_seq = adv_seq d, adv_cmd = \<lparr>cmd_id = i, cmd_time = t\<rparr>\<rparr>"
  (is "adv_of_bytes ?bs = _")
proof -
  have "drop 1 ?bs = put_le32 (prev_time (adv_sync d)) @ put_le16 (adv_seq d) @ i # put_le32 t"
    and "drop 5 ?bs = put_le16 (adv_seq d) @ i # put_le32 t" and "?bs ! 7 = i" and "drop 8 ?bs = put_le32 t @ []"
    by (simp_all add: put_le32_def put_le16_def)
  then show ?thesis unfolding adv_of_bytes_def by (simp only: get_put_le32 get_put_le16) simp
qed

lemma adv_of_bytes_bytes [simp]: "adv_of_bytes (adv_bytes d) = d"
  unfolding adv_bytes_def adv_of_adv_bytes by simp

lemma advert_parsed:
  "\<exists>d'. mgr_parse_adv_data BT_DATA_MANUFACTURER_DATA (take (adv_len d) (adv_bytes d)) old = Some d' \<and>
    same_advert (if cmd_id (adv_cmd d) \<in> {ZEUS_ADV_CMD_NONE, ZEUS_ADV_CMD_START, ZEUS_ADV_CMD_STOP} then d
                 else d\<lparr>adv_cmd := \<lparr>cmd_id = ZEUS_ADV_CMD_NONE, cmd_time = 0\<rparr>\<rparr>) d'"
proof -
  let ?h = "sync_seq (adv_sync d) # put_le32 (prev_time (adv_sync d)) @ put_le16 (adv_seq d)"
  have bytes: "adv_bytes x = sync_seq (adv_sync x) # put_le32 (prev_time (adv_sync x)) @ put_le16 (adv_seq x) @
      cmd_id (adv_cmd x) # put_le32 (cmd_time (adv_cmd x))" for x by (simp add: adv_bytes_def)
  have len: "length ?h = 7" by simp
  have overlay: "adv_of_bytes (?h @ i # put_le32 t) = \<lparr>adv_sync = adv_sync d, adv_seq = adv_seq d, adv_cmd = \<lparr>cmd_id = i, cmd_time = t\<rparr>\<rparr>" for i t
    using adv_of_adv_bytes [of d i t] by simp
  let ?i = "cmd_id (adv_cmd d)"
  consider (start) "?i = ZEUS_ADV_CMD_START" | (stop) "?i = ZEUS_ADV_CMD_STOP"
    | (other) "?i \<noteq> ZEUS_ADV_CMD_START" "?i \<noteq> ZEUS_ADV_CMD_STOP" by blast
  then show ?thesis
  proof cases
    case start
    then have "take (adv_len d) (adv_bytes d) = adv_bytes d" by (simp add: adv_len_def SIZEOF_HEADER_def)
    then show ?thesis using start
      by (simp add: mgr_parse_adv_data_def SIZEOF_HEADER_def SIZEOF_CMD_def same_advert_def Let_def)
  next
    case stop
    have "take 8 (adv_bytes d) = ?h @ [?i]" by (simp add: bytes put_le32_def put_le16_def)
    moreover have "drop 8 (adv_bytes old) = put_le32 (cmd_time (adv_cmd old))" by (simp add: bytes put_le32_def put_le16_def)
    ultimately show ?thesis using stop overlay [of ?i "cmd_time (adv_cmd old)"]
      by (simp add: adv_len_def mgr_parse_adv_data_def SIZEOF_HEADER_def SIZEOF_CMD_def same_advert_def Let_def)
  next
    case other
    have "take 7 (adv_bytes d) = ?h" by (simp add: bytes put_le32_def put_le16_def)
    moreover have "drop 7 (adv_bytes old) = cmd_id (adv_cmd old) # put_le32 (cmd_time (adv_cmd old))"
      by (simp add: bytes put_le32_def put_le16_def)
    ultimately show ?thesis using other overlay [of "cmd_id (adv_cmd old)" "cmd_time (adv_cmd old)"]
      by (simp add: adv_len_def mgr_parse_adv_data_def SIZEOF_HEADER_def SIZEOF_CMD_def same_advert_def Let_def)
  qed
qed

text \<open>
  Property C30. What the central node announces, an audio node understands: the bytes announced for
  an advertisement with a known command are parsed to the same header and command, and to the same start time when it
  is a start, whatever was in the object before. An advertisement with an unknown command is announced as, and
  parsed as, one without a command.
\<close>
theorem advert_roundtrip:
  "\<exists>d'. mgr_parse_adv_data BT_DATA_MANUFACTURER_DATA (take (adv_len d) (adv_bytes d)) old = Some d' \<and>
    same_advert (if cmd_id (adv_cmd d) \<in> {ZEUS_ADV_CMD_NONE, ZEUS_ADV_CMD_START, ZEUS_ADV_CMD_STOP} then d
                 else d\<lparr>adv_cmd := \<lparr>cmd_id = ZEUS_ADV_CMD_NONE, cmd_time = 0\<rparr>\<rparr>) d'"
  by (rule advert_parsed)

end
