(* ===== verification/Central.thy ===== *)
theory Central
  imports Led Protocol "HOL-Library.Sublist"
begin

text \<open>
  The central node: the announcement of time and commands, \<^verbatim>\<open>firmware/central/app/src/sync.c\<close>, the packet timer of the
  network core, \<^verbatim>\<open>central/net/src/main.c\<close>, and the application with its button and shell commands,
  \<^verbatim>\<open>central/app/src/main.c\<close>. The Bluetooth host, the IPC service and the kernel are events; the
  message queue of commands, with room for two, is a list. Mutexes are left out: an operation is one step.
\<close>

section \<open>State\<close>

datatype central_mode = CENTRAL_STATE_IDLE | CENTRAL_STATE_PAIRING | CENTRAL_STATE_RECORDING

record sync_data =
  adv_data :: zeus_adv_data
  first_seq :: bool
  prev_seq :: u8
  last_pkt_time :: u32
  cmd_seq :: u16

record central_system =
  sync_state :: sync_data
  cmd_queue :: "zeus_adv_cmd list"
  central_calls :: trace
  central_led :: led_system
  central_mode :: central_mode
  adv_filter :: bool                \<comment> \<open>the two filter options of \<open>adv_param\<close>\<close>
  button_boot_released :: bool

record central_platform =
  ce_env :: env
  ce_led_env :: env
  ce_led :: lp58xx_config

type_synonym 'a central = "(central_system, 'a) state"

definition ce_call :: "central_platform \<Rightarrow> ext_call \<Rightarrow> reply central" where
  "ce_call pf c = zoom central_calls (\<lambda>t s. s\<lparr>central_calls := t\<rparr>) (ext (ce_env pf) c)"

definition ce_ret :: "central_platform \<Rightarrow> ext_call \<Rightarrow> int central" where
  "ce_ret pf c = do { r \<leftarrow> ce_call pf c; return (r_ret r) }"

definition ce_led_call :: "(led_system, int) state \<Rightarrow> unit central" where
  \<comment> \<open>a call of the LED module whose result is ignored\<close>
  "ce_led_call m = State (\<lambda>s. ((), s\<lparr>central_led := snd (run_state m (central_led s))\<rparr>))"

definition sync_get :: "sync_data central" where
  "sync_get = State (\<lambda>s. (sync_state s, s))"

definition sync_upd :: "(sync_data \<Rightarrow> sync_data) \<Rightarrow> unit central" where
  "sync_upd f = State (\<lambda>s. ((), s\<lparr>sync_state := f (sync_state s)\<rparr>))"

definition set_cmd :: "zeus_adv_cmd \<Rightarrow> sync_data \<Rightarrow> sync_data" where
  "set_cmd c d = d\<lparr>adv_data := (adv_data d)\<lparr>adv_cmd := c\<rparr>\<rparr>"

lemma central_run [simp]:
  "run_state (ce_call pf c) s =
     (ce_env pf (central_calls s) c, s\<lparr>central_calls := central_calls s @ [(c, ce_env pf (central_calls s) c)]\<rparr>)"
  "run_state (ce_ret pf c) s =
     (r_ret (ce_env pf (central_calls s) c), s\<lparr>central_calls := central_calls s @ [(c, ce_env pf (central_calls s) c)]\<rparr>)"
  "run_state (ce_led_call m) s = ((), s\<lparr>central_led := snd (run_state m (central_led s))\<rparr>)"
  "run_state sync_get s = (sync_state s, s)"
  "run_state (sync_upd f) s = ((), s\<lparr>sync_state := f (sync_state s)\<rparr>)"
  by (simp_all add: ce_call_def ce_ret_def ce_led_call_def sync_get_def sync_upd_def)

section \<open>The announcement\<close>

definition SYNC_START_DELAY_SEC :: nat where "SYNC_START_DELAY_SEC = 2"

definition SYNC_START_DELAY :: u32 where
  "SYNC_START_DELAY = of_nat SYNC_START_DELAY_SEC * ZEUS_TIME_NOMINAL_FREQ"

definition sync_time_diff :: "u32 \<Rightarrow> u32 \<Rightarrow> int" where
  "sync_time_diff a b = sint (a - b)"

definition cmd_none :: zeus_adv_cmd where "cmd_none = \<lparr>cmd_id = ZEUS_ADV_CMD_NONE, cmd_time = 0\<rparr>"

definition next_command :: "bool central" where
  \<comment> \<open>\<open>k_msgq_get\<close> into \<open>adv_data.cmd\<close>, without waiting\<close>
  "next_command = State (\<lambda>s.
     (case cmd_queue s of
        [] \<Rightarrow> (False, s)
      | c # cs \<Rightarrow> (True, s\<lparr>cmd_queue := cs, sync_state := set_cmd c (sync_state s)\<rparr>)))"

definition sync_adv_update_data :: "central_platform \<Rightarrow> int central" where
  "sync_adv_update_data pf =
     do { new_cmd \<leftarrow> next_command;
          data \<leftarrow> sync_get;
          let cmd = adv_cmd (adv_data data);
          new_cmd \<leftarrow>
            (if cmd_id cmd = ZEUS_ADV_CMD_START then do {
               let waiting_time = sync_time_diff (cmd_time cmd) (prev_time (adv_sync (adv_data data)));
               ce_led_call (if 0 < waiting_time then led_record_waiting NODE_CENTRAL (ce_led_env pf) (ce_led pf)
                            else led_record_started NODE_CENTRAL (ce_led_env pf) (ce_led pf));
               if waiting_time < - int (unat SYNC_START_DELAY)
               then do { sync_upd (set_cmd cmd_none); return True }
               else return new_cmd }
             else if cmd_id cmd = ZEUS_ADV_CMD_STOP then do {
               ce_led_call (led_record_stopped NODE_CENTRAL (ce_led_env pf) (ce_led pf));
               return new_cmd }
             else return new_cmd);
          (if new_cmd
           then sync_upd (\<lambda>d. d\<lparr>cmd_seq := cmd_seq d + 1, adv_data := (adv_data d)\<lparr>adv_seq := cmd_seq d + 1\<rparr>\<rparr>)
           else return ());
          sync_upd (\<lambda>d. if cmd_id (adv_cmd (adv_data d)) \<in> {ZEUS_ADV_CMD_START, ZEUS_ADV_CMD_STOP} then d
                        else set_cmd ((adv_cmd (adv_data d))\<lparr>cmd_id := ZEUS_ADV_CMD_NONE\<rparr>) d);
          data \<leftarrow> sync_get;
          ce_ret pf (BtSetData (take (adv_len (adv_data data)) (adv_bytes (adv_data data)))) }"

definition sync_adv_update_handler :: "central_platform \<Rightarrow> unit central" where
  "sync_adv_update_handler pf =
     do { _ \<leftarrow> sync_adv_update_data pf;
          data \<leftarrow> sync_get;
          ce_led_call (led_record_sync (ce_led_env pf) (prev_time (adv_sync (adv_data data)))) }"

definition sync_ipc_recv :: "central_platform \<Rightarrow> u8 \<Rightarrow> u32 \<Rightarrow> unit central" where
  \<comment> \<open>the sequence number and the time of the message; a mismatch is only logged\<close>
  "sync_ipc_recv pf msg_seq msg_time =
     do { sync_upd (\<lambda>t. t\<lparr>prev_seq := msg_seq, first_seq := False, last_pkt_time := msg_time,
            adv_data := (adv_data t)\<lparr>adv_sync := \<lparr>sync_seq = msg_seq, prev_time = msg_time\<rparr>\<rparr>\<rparr>);
          _ \<leftarrow> ce_call pf (WorkSubmit ''sync_update_work'');
          return () }"

definition sync_adv_init :: "central_platform \<Rightarrow> int central" where
  "sync_adv_init pf =
     seq_nz [ce_ret pf (Bt ''bt_le_ext_adv_create sync'' []), ce_ret pf (Bt ''bt_le_per_adv_set_param'' []),
             ce_ret pf (Bt ''bt_le_per_adv_start'' []), ce_ret pf (Bt ''bt_le_ext_adv_start sync'' [])]"

definition sync_init :: "central_platform \<Rightarrow> int central" where
  "sync_init pf =
     do { ret \<leftarrow> ce_ret pf (SysCall ''ipc_service_open_instance'' []);
          if ret < 0 \<and> ret \<noteq> - EALREADY then return ret
          else do {
            ret \<leftarrow> ce_ret pf (SysCall ''ipc_service_register_endpoint'' []);
            if ret < 0 then return ret
            else do {
              ret \<leftarrow> sync_adv_init pf;
              if ret \<noteq> 0 then return ret else return 0 } } }"

abbreviation (input) ENOMSG :: int where "ENOMSG \<equiv> 35"

definition CMD_QUEUE_SIZE :: nat where "CMD_QUEUE_SIZE = 2"

definition put_command :: "zeus_adv_cmd \<Rightarrow> int central" where
  \<comment> \<open>\<open>k_msgq_put\<close>, without waiting\<close>
  "put_command c = State (\<lambda>s.
     (if length (cmd_queue s) < CMD_QUEUE_SIZE then (0, s\<lparr>cmd_queue := cmd_queue s @ [c]\<rparr>) else (- ENOMSG, s)))"

definition sync_cmd_start :: "int central" where
  "sync_cmd_start =
     do { data \<leftarrow> sync_get;
          put_command \<lparr>cmd_id = ZEUS_ADV_CMD_START, cmd_time = last_pkt_time data + SYNC_START_DELAY\<rparr> }"

definition sync_cmd_stop :: "int central" where
  "sync_cmd_stop = put_command \<lparr>cmd_id = ZEUS_ADV_CMD_STOP, cmd_time = 0\<rparr>"

section \<open>The application\<close>

definition get_mode :: "central_mode central" where
  "get_mode = State (\<lambda>s. (central_mode s, s))"

definition set_mode :: "central_mode \<Rightarrow> unit central" where
  "set_mode m = State (\<lambda>s. ((), s\<lparr>central_mode := m\<rparr>))"

definition connect_adv_init :: "central_platform \<Rightarrow> int central" where
  "connect_adv_init pf =
     do { _ \<leftarrow> ce_call pf (Bt ''bt_foreach_bond'' []);
          ret \<leftarrow> seq_nz [ce_ret pf (Bt ''bt_le_ext_adv_create'' []), ce_ret pf (Bt ''bt_le_ext_adv_set_data'' []),
                         ce_ret pf (Bt ''bt_le_ext_adv_start'' [])];
          return ret }"

definition connect_adv_set_pairing :: "central_platform \<Rightarrow> bool \<Rightarrow> int central" where
  \<comment> \<open>the argument of the call is 1 when only bonded devices may connect\<close>
  "connect_adv_set_pairing pf pairing =
     do { _ \<leftarrow> State (\<lambda>s. ((), s\<lparr>adv_filter := \<not> pairing\<rparr>));
          ce_ret pf (Bt ''bt_le_ext_adv_update_param'' [of_bool (\<not> pairing)]) }"

definition central_pair :: "central_platform \<Rightarrow> int central" where
  "central_pair pf =
     do { mode \<leftarrow> get_mode;
          if mode \<noteq> CENTRAL_STATE_IDLE then return (- EBUSY)
          else do {
            ret \<leftarrow> seq_nz [ce_ret pf (Bt ''bt_le_ext_adv_stop'' []), connect_adv_set_pairing pf True,
                           ce_ret pf (Bt ''bt_le_ext_adv_start'' [])];
            if ret \<noteq> 0 then return ret
            else do { set_mode CENTRAL_STATE_PAIRING; return 0 } } }"

definition central_start :: "int central" where
  "central_start =
     do { mode \<leftarrow> get_mode;
          if mode = CENTRAL_STATE_PAIRING then return (- EBUSY)
          else do {
            ret \<leftarrow> sync_cmd_start;
            if ret \<noteq> 0 then return ret
            else do { set_mode CENTRAL_STATE_RECORDING; return ret } } }"

definition central_stop :: "int central" where
  "central_stop =
     do { mode \<leftarrow> get_mode;
          if mode = CENTRAL_STATE_PAIRING then return (- EBUSY)
          else do {
            ret \<leftarrow> sync_cmd_stop;
            if ret \<noteq> 0 then return ret
            else do { set_mode CENTRAL_STATE_IDLE; return ret } } }"

definition central_toggle :: "int central" where
  "central_toggle =
     do { mode \<leftarrow> get_mode;
          case mode of
            CENTRAL_STATE_PAIRING \<Rightarrow> return (- EBUSY)
          | CENTRAL_STATE_IDLE \<Rightarrow> do {
              ret \<leftarrow> sync_cmd_start;
              if ret \<noteq> 0 then return ret
              else do { set_mode CENTRAL_STATE_RECORDING; return ret } }
          | CENTRAL_STATE_RECORDING \<Rightarrow> do {
              ret \<leftarrow> sync_cmd_stop;
              if ret \<noteq> 0 then return ret
              else do { set_mode CENTRAL_STATE_IDLE; return ret } } }"

definition cmd_pair :: "central_platform \<Rightarrow> int central" where "cmd_pair pf = central_pair pf"
definition cmd_start :: "int central" where "cmd_start = central_start"
definition cmd_stop :: "int central" where "cmd_stop = central_stop"

definition button_release_work_handler :: "unit central" where
  "button_release_work_handler =
     do { released \<leftarrow> State (\<lambda>s. (button_boot_released s, s\<lparr>button_boot_released := True\<rparr>));
          if released then do { _ \<leftarrow> central_toggle; return () } else return () }"

definition button_release_handler :: "central_platform \<Rightarrow> unit central" where
  "button_release_handler pf = do { _ \<leftarrow> ce_call pf (WorkSchedule 50); return () }"

definition button_init :: "central_platform \<Rightarrow> int central" where
  "button_init pf =
     do { ret \<leftarrow> ce_ret pf (GpioAddCallback ''button'');
          if ret \<noteq> 0 then return ret
          else do {
            ret \<leftarrow> ce_ret pf (GpioInterrupt ''button'');
            if ret \<noteq> 0 then return ret
            else do {
              pressed \<leftarrow> ce_ret pf (SysCall ''gpio_pin_get_dt'' []);
              (if pressed = 0 then State (\<lambda>s. ((), s\<lparr>button_boot_released := True\<rparr>)) else return ());
              return 0 } } }"

definition cpu_clock_128_mhz :: "central_platform \<Rightarrow> int central" where
  "cpu_clock_128_mhz pf =
     do { err \<leftarrow> ce_ret pf (Nrf ''nrfx_clock_divider_set''); return (if err \<noteq> 0 then - 1 else 0) }"

definition central_main :: "central_platform \<Rightarrow> int central" where
  \<comment> \<open>\<open>power_init\<close> is a call\<close>
  "central_main pf =
     do { _ \<leftarrow> ce_call pf (SysCall ''power_init'' []);
          _ \<leftarrow> cpu_clock_128_mhz pf;
          ce_led_call (led_boot NODE_CENTRAL (ce_led_env pf) (ce_led pf));
          ret \<leftarrow> ce_ret pf (Bt ''bt_enable'' []);
          if ret \<noteq> 0 then return 0
          else do {
            _ \<leftarrow> ce_call pf (SettingsLoad []);
            _ \<leftarrow> ce_call pf (SysCall ''usb_init'' []);
            ret \<leftarrow> connect_adv_init pf;
            if ret \<noteq> 0 then return 0
            else do {
              ret \<leftarrow> sync_init pf;
              if ret \<noteq> 0 then return 0
              else do { _ \<leftarrow> button_init pf; return 0 } } } }"

section \<open>The packet timer of the network core\<close>

record packet_timer =
  timer_seq :: u8
  timer_sent :: trace

definition sync_msg_bytes :: "u8 \<Rightarrow> u32 \<Rightarrow> u8 list" where
  \<comment> \<open>\<open>struct zeus_sync_msg\<close>, which is not packed\<close>
  "sync_msg_bytes s t = [s, 0, 0, 0] @ put_le32 t"

definition packet_timer_isr :: "env \<Rightarrow> (u8 \<times> nat) option \<Rightarrow> u32 \<Rightarrow> packet_timer \<Rightarrow> packet_timer" where
  \<comment> \<open>the radio's packet: its type and the length of its extended header, if the pointer is not null; the
      captured time\<close>
  "packet_timer_isr env pdu captured t =
     (case pdu of
        None \<Rightarrow> t
      | Some (pdu_type, ext_hdr_len) \<Rightarrow>
          if pdu_type \<noteq> 7 then t
          else if ext_hdr_len \<noteq> 0 then t
          else t\<lparr>timer_seq := timer_seq t + 1,
                 timer_sent := snd (run_state (ext env (IpcSend (sync_msg_bytes (timer_seq t) captured))) (timer_sent t))\<rparr>)"

definition packet_timer_init :: "env \<Rightarrow> (trace, int) state" where
  \<comment> \<open>the assertion on the result of \<open>nrfx_timer_init\<close> is left out\<close>
  "packet_timer_init env =
     do { err \<leftarrow> ext_ret env (SysCall ''ipc_service_open_instance'' []);
          if err < 0 \<and> err \<noteq> - EALREADY then return err
          else do {
            err \<leftarrow> ext_ret env (SysCall ''ipc_service_register_endpoint'' []);
            if err < 0 then return err
            else do {
              _ \<leftarrow> ext env (Nrf ''nrfx_timer_init'');
              _ \<leftarrow> ext env (Nrf ''nrf_timer_subscribe_set CAPTURE0'');
              _ \<leftarrow> ext env (Nrf ''nrfx_egu_init'');
              _ \<leftarrow> ext env (Nrf ''nrf_egu_subscribe_set TRIGGER0'');
              _ \<leftarrow> ext env (Nrf ''nrfx_egu_int_enable'');
              _ \<leftarrow> ext env (Nrf ''onoff_request'');
              _ \<leftarrow> ext env (Nrf ''nrfx_timer_enable'');
              return 0 } } }"

definition central_net_main :: "env \<Rightarrow> (trace, int) state" where
  "central_net_main env = seq_nz [packet_timer_init env, ext_ret env (SysCall ''hci_ipc_init'' [])]"

end
