(* ===== verification/Freq_Est.thy ===== *)
theory Freq_Est
  imports Prelude Complex_Main
begin

text \<open>
  The estimator of phase and frequency with which the audio nodes follow the clock of the central node,
  \<^verbatim>\<open>firmware/audio/app/src/freq_est.c\<close>, the controller of the audio clock,
  \<^verbatim>\<open>freq_ctlr.c\<close>, and the fixed-point numbers of \<^verbatim>\<open>fixed.h\<close>.

  Phases and times are Q32.32 numbers, 64-bit words that wrap. A \<open>float\<close> is a real number: an
  operation on floats is the exact operation followed by rounding to a float, the function \<open>fl\<close>,
  which is a parameter of the model. Statements hold for every rounding, or for the roundings they
  name; \<open>fl = id\<close> is exact arithmetic. Infinities and NaN do not appear, and the compiler is taken not to
  contract a multiplication and an addition into one operation.
\<close>

type_synonym rounding = "real \<Rightarrow> real"

section \<open>Fixed-point numbers\<close>

definition QU32_32_ONE :: u64 where "QU32_32_ONE = push_bit 32 1"

definition qu32_32_from_int :: "u32 \<Rightarrow> u64" where
  "qu32_32_from_int val = push_bit 32 (ucast val)"

definition qu32_32_whole :: "u64 \<Rightarrow> u32" where
  "qu32_32_whole val = ucast (drop_bit 32 val)"

definition qu32_32_to_float :: "rounding \<Rightarrow> u64 \<Rightarrow> real" where
  "qu32_32_to_float fl val = fl (fl (real (unat val)) / fl (real (unat QU32_32_ONE)))"

definition q32_32_to_float :: "rounding \<Rightarrow> u64 \<Rightarrow> real" where
  \<comment> \<open>of the signed number with the given bits\<close>
  "q32_32_to_float fl val = fl (fl (real_of_int (sint val)) / fl (real (unat QU32_32_ONE)))"

definition phase_add_float :: "u64 \<Rightarrow> real \<Rightarrow> u64" where
  "phase_add_float theta inc =
     (if 0 \<le> inc then theta + word_of_int \<lfloor>inc\<rfloor> else theta - word_of_int \<lfloor>- inc\<rfloor>)"

definition phase_diff_signed :: "u64 \<Rightarrow> u64 \<Rightarrow> u64" where
  "phase_diff_signed a b = a - b"

section \<open>The estimator\<close>

datatype freq_est_status = FREQ_EST_STATUS_RESET | FREQ_EST_STATUS_CONVERGING | FREQ_EST_STATUS_CONVERGED

datatype freq_est_result = FREQ_EST_RESULT_OK | FREQ_EST_RESULT_INIT | FREQ_EST_RESULT_OUTLIER
  | FREQ_EST_RESULT_OUTLIER_RESET

record freq_est_config =
  cfg_nominal_freq :: u32
  cfg_k_u :: real
  cfg_q_theta :: real
  cfg_q_f :: real
  cfg_r :: real
  cfg_p0 :: real
  cfg_outlier_threshold :: real
  cfg_outlier_resync_count :: u32

record freq_est_state =
  state_status :: freq_est_status
  state_theta :: u64
  state_f :: real

record freq_est =
  est_config :: freq_est_config
  est_k_u :: real
  est_q_theta :: real
  est_q_f :: real
  est_r :: real
  est_status :: freq_est_status
  est_last_time :: u64
  est_theta :: u64
  est_f :: real
  est_p00 :: real
  est_p01 :: real
  est_p10 :: real
  est_p11 :: real
  est_outlier_count :: u32

definition freq_est_init :: "rounding \<Rightarrow> freq_est_config \<Rightarrow> freq_est" where
  "freq_est_init fl cfg =
     (let nominal_freq_2 = fl (fl (real (unat (cfg_nominal_freq cfg))) * fl (real (unat (cfg_nominal_freq cfg)))) in
      \<lparr>est_config = cfg, est_k_u = fl (cfg_k_u cfg * fl (2 ^ 32)), est_q_theta = cfg_q_theta cfg,
       est_q_f = fl (cfg_q_f cfg / nominal_freq_2), est_r = fl (cfg_r cfg * nominal_freq_2),
       est_status = FREQ_EST_STATUS_RESET, est_last_time = 0, est_theta = 0, est_f = 0,
       est_p00 = 0, est_p01 = 0, est_p10 = 0, est_p11 = 0, est_outlier_count = 0\<rparr>)"

definition freq_est_predict :: "rounding \<Rightarrow> freq_est \<Rightarrow> u64 \<Rightarrow> u64" where
  "freq_est_predict fl e time =
     (let dt = q32_32_to_float fl (phase_diff_signed time (est_last_time e)) in
      phase_add_float (est_theta e) (fl (dt * est_f e)))"

definition est_reset_to :: "freq_est \<Rightarrow> u64 \<Rightarrow> u64 \<Rightarrow> freq_est" where
  \<comment> \<open>the first update after a reset; the frequency is kept\<close>
  "est_reset_to e local_time z =
     e\<lparr>est_status := FREQ_EST_STATUS_CONVERGING, est_last_time := local_time, est_theta := z,
       est_p00 := cfg_p0 (est_config e), est_p01 := 0, est_p10 := 0, est_p11 := cfg_p0 (est_config e),
       est_outlier_count := 0\<rparr>"

definition est_advance :: "rounding \<Rightarrow> freq_est \<Rightarrow> u64 \<Rightarrow> 16 word \<Rightarrow> freq_est" where
  \<comment> \<open>the prediction\<close>
  "est_advance fl e local_time input =
     (let dt = qu32_32_to_float fl (local_time - est_last_time e);
          scaled_input = fl (fl (real_of_int (sint input)) * est_k_u e);
          dt_p11 = fl (dt * est_p11 e) in
      e\<lparr>est_last_time := local_time,
        est_theta := phase_add_float (est_theta e) (fl (dt * fl (est_f e + scaled_input))),
        est_f := fl (est_f e + scaled_input),
        est_p00 := fl (est_p00 e + fl (dt * fl (fl (fl (fl (dt * est_q_theta e) + est_p01 e) + est_p10 e) + dt_p11))),
        est_p01 := fl (est_p01 e + dt_p11),
        est_p10 := fl (est_p10 e + dt_p11),
        est_p11 := fl (est_p11 e + fl (fl (dt * dt) * est_q_f e))\<rparr>)"

definition est_error :: "freq_est \<Rightarrow> u64 \<Rightarrow> int" where
  "est_error e z = sint (phase_diff_signed z (est_theta e))"

definition est_outlier :: "rounding \<Rightarrow> freq_est \<Rightarrow> u64 \<Rightarrow> bool" where
  \<comment> \<open>of the state after the prediction\<close>
  "est_outlier fl e z \<longleftrightarrow>
     0 < cfg_outlier_threshold (est_config e) \<and>
     cfg_outlier_threshold (est_config e) \<le>
       fl (fl (real_of_int \<bar>est_error e z\<bar>) / fl (sqrt (fl (est_p00 e + est_r e))))"

definition est_correct :: "rounding \<Rightarrow> freq_est \<Rightarrow> u64 \<Rightarrow> freq_est" where
  \<comment> \<open>the correction by the measurement\<close>
  "est_correct fl e z =
     (let p00_r = fl (est_p00 e + est_r e);
          k0 = fl (est_p00 e / p00_r);
          k1 = fl (est_p10 e / p00_r);
          theta_error = est_error e z in
      e\<lparr>est_theta := phase_add_float (est_theta e) (fl (k0 * fl (real_of_int theta_error))),
        est_f := fl (est_f e + fl (k1 * fl (real_of_int theta_error))),
        est_p11 := fl (est_p11 e - fl (fl (est_p01 e * est_p10 e) / p00_r)),
        est_p01 := fl (fl (est_r e * est_p01 e) / p00_r),
        est_p00 := fl (est_r e * k0),
        est_p10 := fl (est_r e * k1)\<rparr>)"

definition freq_est_update ::
  "rounding \<Rightarrow> freq_est \<Rightarrow> u64 \<Rightarrow> u64 \<Rightarrow> 16 word \<Rightarrow> freq_est_result \<times> freq_est" where
  "freq_est_update fl e local_time ref_time input =
     (let cfg = est_config e; z = local_time - ref_time in
      if est_status e = FREQ_EST_STATUS_RESET then (FREQ_EST_RESULT_INIT, est_reset_to e local_time z)
      else
        let e = est_advance fl e local_time input in
        if est_outlier fl e z then
          (let e = e\<lparr>est_outlier_count := est_outlier_count e + 1\<rparr> in
           if 0 < cfg_outlier_resync_count cfg \<and> cfg_outlier_resync_count cfg \<le> est_outlier_count e
           then (FREQ_EST_RESULT_OUTLIER_RESET, e\<lparr>est_status := FREQ_EST_STATUS_RESET\<rparr>)
           else (FREQ_EST_RESULT_OUTLIER, e))
        else
          (let e = (if 0 < cfg_outlier_threshold cfg then e\<lparr>est_outlier_count := 0\<rparr> else e) in
           (FREQ_EST_RESULT_OK, est_correct fl e z)))"

definition freq_est_get_state :: "freq_est \<Rightarrow> freq_est_state" where
  "freq_est_get_state e = \<lparr>state_status = est_status e, state_theta = est_theta e, state_f = est_f e\<rparr>"

section \<open>The controller\<close>

record freq_ctlr =
  k_theta :: real
  k_f :: real
  max_step :: u16

definition round_f_to_i16 :: "rounding \<Rightarrow> real \<Rightarrow> int" where
  \<comment> \<open>the conversion to an integer truncates\<close>
  "round_f_to_i16 fl u =
     (let v = fl (u + (if 0 < u then 1 / 2 else - (1 / 2))) in if 0 \<le> v then \<lfloor>v\<rfloor> else - \<lfloor>- v\<rfloor>)"

definition freq_ctlr_update :: "rounding \<Rightarrow> freq_ctlr \<Rightarrow> u64 \<Rightarrow> freq_est_state \<Rightarrow> 16 word" where
  "freq_ctlr_update fl c target_theta state =
     (let theta_err = fl (real_of_int (sint (phase_diff_signed target_theta (state_theta state))));
          f_err = - state_f state;
          u = fl (fl (k_theta c * theta_err) + fl (k_f c * f_err)) in
      if real (unat (max_step c)) < u then max_step c
      else if u < - real (unat (max_step c)) then - max_step c
      else word_of_int (round_f_to_i16 fl u))"

section \<open>Covariance in exact arithmetic\<close>

text \<open>
  The textbook filter, with matrices: the state is the phase and the frequency, a step of length \<open>dt\<close> moves
  the phase by \<open>dt\<close> times the frequency, the phase is measured.
\<close>

datatype mat2 = Mat2 real real real real

fun mat_mult :: "mat2 \<Rightarrow> mat2 \<Rightarrow> mat2" where
  "mat_mult (Mat2 a b c d) (Mat2 a' b' c' d') =
     Mat2 (a * a' + b * c') (a * b' + b * d') (c * a' + d * c') (c * b' + d * d')"

fun mat_add :: "mat2 \<Rightarrow> mat2 \<Rightarrow> mat2" where
  "mat_add (Mat2 a b c d) (Mat2 a' b' c' d') = Mat2 (a + a') (b + b') (c + c') (d + d')"

fun mat_sub :: "mat2 \<Rightarrow> mat2 \<Rightarrow> mat2" where
  "mat_sub (Mat2 a b c d) (Mat2 a' b' c' d') = Mat2 (a - a') (b - b') (c - c') (d - d')"

fun mat_transpose :: "mat2 \<Rightarrow> mat2" where
  "mat_transpose (Mat2 a b c d) = Mat2 a c b d"

fun mat_entry00 :: "mat2 \<Rightarrow> real" where "mat_entry00 (Mat2 a b c d) = a"

definition transition :: "real \<Rightarrow> mat2" where
  "transition dt = Mat2 1 dt 0 1"

definition process_noise :: "real \<Rightarrow> real \<Rightarrow> real \<Rightarrow> mat2" where
  "process_noise dt q_theta q_f = Mat2 (dt * dt * q_theta) 0 0 (dt * dt * q_f)"

definition kalman_predict :: "real \<Rightarrow> real \<Rightarrow> real \<Rightarrow> mat2 \<Rightarrow> mat2" where
  \<comment> \<open>\<open>F P F' + Q\<close>\<close>
  "kalman_predict dt q_theta q_f P =
     mat_add (mat_mult (mat_mult (transition dt) P) (mat_transpose (transition dt))) (process_noise dt q_theta q_f)"

fun kalman_gain :: "real \<Rightarrow> mat2 \<Rightarrow> real \<times> real" where
  \<comment> \<open>\<open>P H\<^sup>T (H P H\<^sup>T + R)\<^sup>-\<^sup>1\<close> for \<open>H = (1 0)\<close>\<close>
  "kalman_gain r (Mat2 a b c d) = (a / (a + r), c / (a + r))"

definition kalman_correct :: "real \<Rightarrow> mat2 \<Rightarrow> mat2" where
  \<comment> \<open>\<open>(I - K H) P\<close>\<close>
  "kalman_correct r P =
     (case kalman_gain r P of (k0, k1) \<Rightarrow> mat_mult (mat_sub (Mat2 1 0 0 1) (Mat2 k0 0 k1 0)) P)"

definition covariance :: "freq_est \<Rightarrow> mat2" where
  "covariance e = Mat2 (est_p00 e) (est_p01 e) (est_p10 e) (est_p11 e)"

fun positive :: "mat2 \<Rightarrow> bool" where
  \<comment> \<open>symmetric and positive definite\<close>
  "positive (Mat2 a b c d) \<longleftrightarrow> b = c \<and> 0 < a \<and> b * b < a * d"

definition est_dt :: "freq_est \<Rightarrow> u64 \<Rightarrow> real" where
  \<comment> \<open>the time since the last update, in ticks\<close>
  "est_dt e local_time = real (unat (local_time - est_last_time e)) / 2 ^ 32"

lemma unat_one [simp]: "unat QU32_32_ONE = 2 ^ 32"
  by (simp add: QU32_32_ONE_def)

lemma to_float_exact [simp]: "qu32_32_to_float id v = real (unat v) / 2 ^ 32"
  by (simp add: qu32_32_to_float_def)

lemma advance_covariance:
  "covariance (est_advance id e local_time input) =
     kalman_predict (est_dt e local_time) (est_q_theta e) (est_q_f e) (covariance e)"
  by (simp add: est_advance_def covariance_def kalman_predict_def transition_def process_noise_def
      est_dt_def Let_def algebra_simps)

lemma correct_covariance:
  assumes "est_p00 e + est_r e \<noteq> 0"
  shows "covariance (est_correct id e z) = kalman_correct (est_r e) (covariance e)"
  using assms
  by (simp add: est_correct_def covariance_def kalman_correct_def Let_def field_simps)

lemma predict_positive:
  assumes "positive P" "0 \<le> q_theta" "0 \<le> q_f"
  shows "positive (kalman_predict dt q_theta q_f P)"
proof (cases P)
  case (Mat2 a b c d)
  with assms(1) have P: "c = b" "0 < a" "b * b < a * d" by auto
  have "0 \<le> b * b" by simp
  with P(3) have "0 < a * d" by linarith
  with P(2) have d: "0 < d" by (simp add: zero_less_mult_iff)
  define m where "m = a + 2 * dt * b + dt * dt * d"
  have det: "m * d - (b + dt * d) * (b + dt * d) = a * d - b * b"
    by (simp add: m_def algebra_simps)
  have "0 \<le> (b + dt * d) * (b + dt * d)" by simp
  with det P(3) have "0 < m * d" by linarith
  with d have m: "0 < m" by (simp add: zero_less_mult_iff)
  have q: "0 \<le> dt * dt * q_theta" "0 \<le> dt * dt * q_f" using assms(2,3) by simp_all
  have "(m + dt * dt * q_theta) * (d + dt * dt * q_f) =
      m * d + m * (dt * dt * q_f) + dt * dt * q_theta * (d + dt * dt * q_f)"
    by (simp add: algebra_simps)
  moreover have "0 \<le> m * (dt * dt * q_f)" "0 \<le> dt * dt * q_theta * (d + dt * dt * q_f)"
    using m d q by simp_all
  ultimately have "(b + dt * d) * (b + dt * d) < (m + dt * dt * q_theta) * (d + dt * dt * q_f)"
    using det P(3) by linarith
  moreover have "0 < m + dt * dt * q_theta" using m q by linarith
  ultimately show ?thesis
    using Mat2 P(1)
    by (simp add: kalman_predict_def transition_def process_noise_def m_def algebra_simps)
qed

lemma correct_positive:
  assumes "positive P" "0 < r"
  shows "positive (kalman_correct r P)"
proof (cases P)
  case (Mat2 a b c d)
  with assms(1) have P: "c = b" "0 < a" "b * b < a * d" by auto
  define s where "s = a + r"
  have s: "0 < s" "r = s - a" using P(2) assms(2) by (simp_all add: s_def)
  have new: "kalman_correct r P = Mat2 (r * a / s) (r * b / s) (r * b / s) (d - b * b / s)"
    using Mat2 P(1) s(1) unfolding s(2) by (simp add: kalman_correct_def field_simps)
  have "(r * a / s) * (d - b * b / s) - (r * b / s) * (r * b / s) = r / s * (a * d - b * b)"
    using s(1) unfolding s(2) by (simp add: field_simps)
  moreover have "0 < r / s * (a * d - b * b)" using s(1) assms(2) P(3) by simp
  ultimately show ?thesis using P(2) s(1) assms(2) by (simp add: new)
qed

section \<open>The estimator is a Kalman filter\<close>

definition kalman_step :: "freq_est \<Rightarrow> u64 \<Rightarrow> u64 \<Rightarrow> 16 word \<Rightarrow> bool \<Rightarrow> u64 \<times> real \<times> mat2" where
  \<comment> \<open>phase, frequency and covariance after a step of the textbook filter; \<open>z\<close> is the measured phase and
      \<open>accepted\<close> says whether it is used\<close>
  "kalman_step e local_time z input accepted =
     (let dt = est_dt e local_time;
          u = real_of_int (sint input) * est_k_u e;
          f = est_f e + u;
          theta = phase_add_float (est_theta e) (dt * f);
          P = kalman_predict dt (est_q_theta e) (est_q_f e) (covariance e) in
      if accepted then
        (case kalman_gain (est_r e) P of (k0, k1) \<Rightarrow>
           let err = real_of_int (sint (z - theta)) in
           (phase_add_float theta (k0 * err), f + k1 * err, kalman_correct (est_r e) P))
      else (theta, f, P))"

lemma advance_fields [simp]:
  "est_config (est_advance fl e t i) = est_config e" "est_r (est_advance fl e t i) = est_r e"
  "est_status (est_advance fl e t i) = est_status e" "est_outlier_count (est_advance fl e t i) = est_outlier_count e"
  by (simp_all add: est_advance_def Let_def)

lemma correct_fields [simp]:
  "est_config (est_correct fl e z) = est_config e" "est_status (est_correct fl e z) = est_status e"
  "est_outlier_count (est_correct fl e z) = est_outlier_count e"
  by (simp_all add: est_correct_def Let_def)

text \<open>
  Property C27. In exact arithmetic, an update of the estimator that is running is a step of the textbook Kalman
  filter, with matrices, for phase and frequency: prediction with the control input, gain and correction
  when the measurement is accepted, prediction alone when it is an outlier. The covariance stays symmetric
  and positive definite, so that no division is by zero.
\<close>
theorem freq_est_update_is_kalman:
  assumes "est_status e \<noteq> FREQ_EST_STATUS_RESET" "positive (covariance e)"
    and "0 < est_r e" "0 \<le> est_q_theta e" "0 \<le> est_q_f e"
    and "freq_est_update id e local_time ref_time input = (res, e')"
  shows "(est_theta e', est_f e', covariance e') =
      kalman_step e local_time (local_time - ref_time) input (res = FREQ_EST_RESULT_OK) \<and>
    positive (covariance e')"
proof -
  define e1 where "e1 = est_advance id e local_time input"
  define z where "z = local_time - ref_time"
  define P where "P = kalman_predict (est_dt e local_time) (est_q_theta e) (est_q_f e) (covariance e)"
  have P: "covariance e1 = P" by (simp add: e1_def P_def advance_covariance)
  have pos: "positive P" unfolding P_def by (rule predict_positive [OF assms(2,4,5)])
  have theta1: "est_theta e1 = phase_add_float (est_theta e) (est_dt e local_time * (est_f e + real_of_int (sint input) * est_k_u e))"
    and f1: "est_f e1 = est_f e + real_of_int (sint input) * est_k_u e" and r1: "est_r e1 = est_r e"
    by (simp_all add: e1_def est_advance_def est_dt_def Let_def)
  have "0 < est_p00 e1" using pos P by (auto simp: covariance_def)
  then have den: "est_p00 e1 + est_r e1 \<noteq> 0" using assms(3) r1 by simp
  have gain: "kalman_gain (est_r e) P = (est_p00 e1 / (est_p00 e1 + est_r e1), est_p10 e1 / (est_p00 e1 + est_r e1))"
    by (simp add: P [symmetric] covariance_def r1)
  have same: "covariance (e1\<lparr>est_outlier_count := n\<rparr>) = P" "covariance (e1\<lparr>est_outlier_count := n, est_status := st\<rparr>) = P" for n st
    using P by (simp_all add: covariance_def)
  show ?thesis
  proof (cases "est_outlier id e1 z")
    case True
    then have "res \<noteq> FREQ_EST_RESULT_OK \<and> est_theta e' = est_theta e1 \<and> est_f e' = est_f e1 \<and> covariance e' = P"
      using assms(1,6) same
      by (auto simp: freq_est_update_def Let_def e1_def [symmetric] z_def [symmetric] split: if_splits)
    then show ?thesis using pos by (auto simp: kalman_step_def Let_def theta1 f1 P_def)
  next
    case False
    define e2 where "e2 = (if 0 < cfg_outlier_threshold (est_config e) then e1\<lparr>est_outlier_count := 0\<rparr> else e1)"
    have e2: "covariance e2 = P" "est_theta e2 = est_theta e1" "est_f e2 = est_f e1" "est_r e2 = est_r e1"
        "est_p00 e2 = est_p00 e1" "est_p10 e2 = est_p10 e1"
      using P by (simp_all add: e2_def covariance_def)
    have res: "res = FREQ_EST_RESULT_OK" "e' = est_correct id e2 z"
      using assms(1,6) False
      by (auto simp: freq_est_update_def Let_def e1_def [symmetric] z_def [symmetric] e2_def)
    have cov: "covariance e' = kalman_correct (est_r e) P"
      using correct_covariance [of e2 z] den e2 r1 res(2) by simp
    moreover have "est_theta e' = phase_add_float (est_theta e1) (est_p00 e1 / (est_p00 e1 + est_r e1) * real_of_int (sint (z - est_theta e1)))"
      "est_f e' = est_f e1 + est_p10 e1 / (est_p00 e1 + est_r e1) * real_of_int (sint (z - est_theta e1))"
      using e2 by (simp_all add: res(2) est_correct_def est_error_def phase_diff_signed_def Let_def)
    moreover have "positive (covariance e')" unfolding cov by (rule correct_positive [OF pos assms(3)])
    ultimately show ?thesis
      by (simp add: kalman_step_def Let_def res(1) P_def [symmetric] gain theta1 f1 z_def)
  qed
qed

definition FREQ_EST_CONFIG :: freq_est_config where
  \<comment> \<open>the parameters of the estimator of \<open>sync_timer.c\<close>\<close>
  "FREQ_EST_CONFIG = \<lparr>cfg_nominal_freq = 16000000, cfg_k_u = 0, cfg_q_theta = 0, cfg_q_f = 256, cfg_r = 390625,
     cfg_p0 = 1000000, cfg_outlier_threshold = 20, cfg_outlier_resync_count = 5\<rparr>"

definition started_est :: freq_est where
  \<comment> \<open>an estimator that has had its first measurement, a phase of five ticks at time zero\<close>
  "started_est = est_reset_to (freq_est_init id FREQ_EST_CONFIG) 0 (push_bit 32 5)"

theorem freq_est_update_is_kalman_witness:
  "\<exists>res e'. freq_est_update id started_est (push_bit 32 1000) (push_bit 32 995) 0 = (res, e') \<and>
     (est_theta e', est_f e', covariance e') =
       kalman_step started_est (push_bit 32 1000) (push_bit 32 1000 - push_bit 32 995) 0 (res = FREQ_EST_RESULT_OK) \<and>
     positive (covariance e')"
proof -
  obtain res e' where u: "freq_est_update id started_est (push_bit 32 1000) (push_bit 32 995) 0 = (res, e')"
    by fastforce
  have "est_status started_est \<noteq> FREQ_EST_STATUS_RESET" "positive (covariance started_est)" "0 < est_r started_est"
    "0 \<le> est_q_theta started_est" "0 \<le> est_q_f started_est"
    by (simp_all add: started_est_def est_reset_to_def freq_est_init_def FREQ_EST_CONFIG_def covariance_def Let_def)
  from freq_est_update_is_kalman [OF this u] u show ?thesis by blast
qed

section \<open>Outliers\<close>

primrec freq_est_run ::
  "rounding \<Rightarrow> freq_est \<Rightarrow> (u64 \<times> u64 \<times> 16 word) list \<Rightarrow> (freq_est_result \<times> freq_est) list" where
  \<comment> \<open>the results of a sequence of updates and the states after them\<close>
  "freq_est_run fl e [] = []"
| "freq_est_run fl e (m # ms) =
     (case m of (local_time, ref_time, input) \<Rightarrow>
        case freq_est_update fl e local_time ref_time input of (res, e') \<Rightarrow> (res, e') # freq_est_run fl e' ms)"

definition counts_outliers :: "freq_est \<Rightarrow> bool" where
  "counts_outliers e \<longleftrightarrow> est_outlier_count e < cfg_outlier_resync_count (est_config e)"

lemma update_outlier:
  assumes "freq_est_update fl e t ref i = (res, e')" "counts_outliers e"
  shows "est_config e' = est_config e"
    and "res = FREQ_EST_RESULT_OUTLIER \<Longrightarrow> counts_outliers e' \<and> unat (est_outlier_count e') = unat (est_outlier_count e) + 1"
    and "res \<noteq> FREQ_EST_RESULT_OUTLIER_RESET \<Longrightarrow> counts_outliers e'"
    and "res = FREQ_EST_RESULT_OUTLIER_RESET \<Longrightarrow> est_status e' = FREQ_EST_STATUS_RESET"
    and "est_status e = FREQ_EST_STATUS_RESET \<Longrightarrow> res = FREQ_EST_RESULT_INIT"
proof -
  let ?n = "cfg_outlier_resync_count (est_config e)"
  have pos: "0 < ?n" using assms(2) by (auto simp: counts_outliers_def word_less_nat_alt)
  have "unat (est_outlier_count e) < unat ?n" using assms(2) by (simp add: counts_outliers_def word_less_nat_alt)
  then have inc: "unat (est_outlier_count e + 1) = unat (est_outlier_count e) + 1"
    using unat_u32_less [of ?n] by (simp add: unat_word_ariths)
  show "est_config e' = est_config e"
    using assms(1) by (auto simp: freq_est_update_def est_reset_to_def Let_def split: if_splits)
  show "res = FREQ_EST_RESULT_OUTLIER \<Longrightarrow> counts_outliers e' \<and> unat (est_outlier_count e') = unat (est_outlier_count e) + 1"
    using assms(1) pos inc
    by (auto simp: freq_est_update_def counts_outliers_def not_le Let_def split: if_splits)
  show "res \<noteq> FREQ_EST_RESULT_OUTLIER_RESET \<Longrightarrow> counts_outliers e'"
    using assms pos
    by (auto simp: freq_est_update_def counts_outliers_def est_reset_to_def not_le Let_def split: if_splits)
  show "res = FREQ_EST_RESULT_OUTLIER_RESET \<Longrightarrow> est_status e' = FREQ_EST_STATUS_RESET"
    using assms(1) by (auto simp: freq_est_update_def Let_def split: if_splits)
  show "est_status e = FREQ_EST_STATUS_RESET \<Longrightarrow> res = FREQ_EST_RESULT_INIT"
    using assms(1) by (simp add: freq_est_update_def Let_def)
qed

lemma run_step:
  assumes "freq_est_update fl e t ref i = (res, e')"
  shows "freq_est_run fl e ((t, ref, i) # ms) = (res, e') # freq_est_run fl e' ms"
  using assms by simp

lemma length_run [simp]: "length (freq_est_run fl e ms) = length ms"
  by (induction ms arbitrary: e) (auto split: prod.splits)

definition uses_measurement :: "freq_est_result \<times> freq_est \<Rightarrow> u64 \<times> u64 \<times> 16 word \<Rightarrow> bool" where
  \<comment> \<open>the measurement was incorporated, or the phase was set to it\<close>
  "uses_measurement p m \<longleftrightarrow> fst p = FREQ_EST_RESULT_OK \<or>
     fst p = FREQ_EST_RESULT_INIT \<and> est_theta (snd p) = fst m - fst (snd m)"

lemma update_init_uses:
  "freq_est_update fl e t ref i = (FREQ_EST_RESULT_INIT, e') \<Longrightarrow> est_theta e' = t - ref"
  by (auto simp: freq_est_update_def est_reset_to_def Let_def split: if_splits)

text \<open>
  Property C28. The estimator never ignores measurements forever. Among any \<open>outlier_resync_count + 1\<close> consecutive
  updates, whatever the measurements, the control inputs and the rounding of floats, there is one that
  uses its measurement: it is incorporated, or the phase is set to it after a reset.
\<close>
theorem estimator_recovers:
  assumes "counts_outliers e" "unat (cfg_outlier_resync_count (est_config e)) < length ms"
  shows "list_ex (\<lambda>(p, m). uses_measurement p m) (zip (freq_est_run fl e ms) ms)"
proof -
  have "unat (cfg_outlier_resync_count (est_config e)) - unat (est_outlier_count e) < length ms"
    using assms(2) by linarith
  then show ?thesis
    using assms(1)
  proof (induction ms arbitrary: e)
    case Nil
    then show ?case by simp
  next
    case (Cons m ms)
    obtain t ref i where m: "m = (t, ref, i)" by (cases m)
    obtain res e' where u: "freq_est_update fl e t ref i = (res, e')" by fastforce
    note run = run_step [OF u, of ms]
    note upd = update_outlier [OF u Cons.prems(2)]
    have gap: "unat (est_outlier_count e) < unat (cfg_outlier_resync_count (est_config e))"
      using Cons.prems(2) by (simp add: counts_outliers_def word_less_nat_alt)
    consider "res = FREQ_EST_RESULT_OK" | "res = FREQ_EST_RESULT_INIT" | (ignored) "res = FREQ_EST_RESULT_OUTLIER"
      | (reset) "res = FREQ_EST_RESULT_OUTLIER_RESET" by (cases res) auto
    then show ?case
    proof cases
      case 1
      then show ?thesis unfolding m run by (simp add: uses_measurement_def)
    next
      case 2
      then show ?thesis using update_init_uses u unfolding m run by (simp add: uses_measurement_def)
    next
      case ignored
      then have c: "counts_outliers e'" "unat (est_outlier_count e') = unat (est_outlier_count e) + 1" using upd(2) by auto
      then have "unat (cfg_outlier_resync_count (est_config e')) - unat (est_outlier_count e') < length ms"
        using Cons.prems(1) gap upd(1) by simp
      from Cons.IH [OF this c(1)] show ?thesis unfolding m run by simp
    next
      case reset
      have "ms \<noteq> []" using Cons.prems(1) gap by auto
      then obtain t' ref' i' ms' where ms: "ms = (t', ref', i') # ms'" by (cases ms) auto
      obtain res2 e2 where u2: "freq_est_update fl e' t' ref' i' = (res2, e2)" by fastforce
      have "res2 = FREQ_EST_RESULT_INIT"
        using u2 upd(4) [OF reset] by (simp add: freq_est_update_def Let_def)
      then show ?thesis using update_init_uses u2 unfolding m run unfolding ms run_step [OF u2]
        by (simp add: uses_measurement_def)
    qed
  qed
qed

theorem estimator_recovers_witness:
  "list_ex (\<lambda>(p, m). uses_measurement p m)
     (zip (freq_est_run id started_est (replicate 6 (push_bit 32 1000, 0, 0))) (replicate 6 (push_bit 32 1000, 0, 0)))"
  by (rule estimator_recovers)
    (simp_all add: counts_outliers_def started_est_def est_reset_to_def freq_est_init_def FREQ_EST_CONFIG_def Let_def)

section \<open>Bounds of the controller\<close>

text \<open>What IEEE single precision gives: rounding is monotone, and halves below \<open>2 ^ 22\<close> are floats.\<close>

definition rounds_to_float :: "rounding \<Rightarrow> bool" where
  "rounds_to_float fl \<longleftrightarrow> mono fl \<and> (\<forall>k. \<bar>k\<bar> < 2 ^ 23 \<longrightarrow> fl (real_of_int k / 2) = real_of_int k / 2)"

lemma rounds_to_float_id: "rounds_to_float id"
  by (simp add: rounds_to_float_def mono_def)

lemma round_bound:
  assumes "rounds_to_float fl" "\<bar>u\<bar> \<le> real n" "n < 2 ^ 15"
  shows "\<bar>round_f_to_i16 fl u\<bar> \<le> int n"
proof -
  define v where "v = fl (u + (if 0 < u then 1 / 2 else - (1 / 2)))"
  have half: "fl (real_of_int k / 2) = real_of_int k / 2" if "\<bar>k\<bar> < 2 ^ 23" for k
    using assms(1) that by (simp add: rounds_to_float_def)
  have mono: "fl x \<le> fl y" if "x \<le> y" for x y
    using assms(1) that by (auto simp: rounds_to_float_def mono_def)
  have "v \<le> fl (real_of_int (2 * int n + 1) / 2)"
    unfolding v_def using assms(2) by (intro mono) (auto simp: field_simps)
  also have "\<dots> = real n + 1 / 2" using half [of "2 * int n + 1"] assms(3) by (simp add: field_simps)
  finally have up: "v \<le> real n + 1 / 2" .
  have "fl (real_of_int (- (2 * int n + 1)) / 2) \<le> v"
    unfolding v_def using assms(2) by (intro mono) (auto simp: field_simps)
  moreover have "fl (real_of_int (- (2 * int n + 1)) / 2) = - real n - 1 / 2"
    using half [of "- (2 * int n + 1)"] assms(3) by (simp add: field_simps)
  ultimately have low: "- real n - 1 / 2 \<le> v" by simp
  have "\<lfloor>v\<rfloor> \<le> int n" using up by linarith
  moreover have "\<lfloor>- v\<rfloor> \<le> int n" using low by linarith
  moreover have "0 \<le> v \<Longrightarrow> 0 \<le> \<lfloor>v\<rfloor>" by simp
  moreover have "\<not> 0 \<le> v \<Longrightarrow> 0 \<le> \<lfloor>- v\<rfloor>" by simp
  ultimately show ?thesis by (auto simp: round_f_to_i16_def v_def [symmetric] Let_def)
qed

lemma sint_word_of_int_16: "\<bar>i\<bar> < 2 ^ 15 \<Longrightarrow> sint (word_of_int i :: 16 word) = i"
  by (simp add: signed_of_int signed_take_bit_int_eq_self_iff abs_less_iff)

lemma freq_ctlr_step_bounded:
  assumes "rounds_to_float fl" "unat (max_step c) < 2 ^ 15"
  shows "\<bar>sint (freq_ctlr_update fl c target_theta state)\<bar> \<le> int (unat (max_step c))"
proof -
  let ?n = "unat (max_step c)"
  have "int ?n < int (2 ^ 15)" using assms(2) by (simp only: of_nat_less_iff)
  then have n: "uint (max_step c) = int ?n" "uint (max_step c) < 2 ^ 15" by simp_all
  have "0 \<le> uint (max_step c)" by simp
  with n(2) have small: "\<bar>uint (max_step c)\<bar> < 2 ^ 15" "\<bar>- uint (max_step c)\<bar> < 2 ^ 15" by linarith+
  have s: "sint (max_step c) = int ?n" "sint (- max_step c) = - int ?n"
    using sint_word_of_int_16 [OF small(1)] sint_word_of_int_16 [OF small(2)]
    unfolding of_int_minus word_of_int_uint by (simp_all only: n(1))
  have r: "\<bar>sint (word_of_int (round_f_to_i16 fl u) :: 16 word)\<bar> \<le> int ?n" if u: "\<not> real ?n < u" "\<not> u < - real ?n" for u
  proof -
    from u have "\<bar>u\<bar> \<le> real ?n" by linarith
    from round_bound [OF assms(1) this assms(2)] have b: "\<bar>round_f_to_i16 fl u\<bar> \<le> int ?n" .
    then have "\<bar>round_f_to_i16 fl u\<bar> < 2 ^ 15" using n by linarith
    from sint_word_of_int_16 [OF this] b show ?thesis by linarith
  qed
  show ?thesis
    unfolding freq_ctlr_update_def Let_def
    by (rule if_split [THEN iffD2], intro conjI impI, simp only: s abs_of_nat, rule if_split [THEN iffD2],
        intro conjI impI, simp only: s abs_minus_cancel abs_of_nat, rule r)
qed

end
