(* ===== verification/Sync_Timer.thy ===== *)
theory Sync_Timer
  imports Freq_Est Protocol Zephyr
begin

text \<open>
  The clock of an audio node, \<^verbatim>\<open>firmware/audio/app/src/sync_timer.c\<close>. A hardware timer captures the local time at
  which an advertisement of the central node ends; the next advertisement tells the central time at
  which the previous one was sent, and the pair of times is a measurement for the estimator.
  Captured times are arguments. The calls of the nrfx library are events, with numbers instead of
  names for the registers they set up.
\<close>

abbreviation (input) ENOMEM :: int where "ENOMEM \<equiv> 12"

record sync_timer =
  i2s_dppi :: u8
  usb_dppi :: u8
  timer_est :: freq_est
  timer_init :: bool
  last_adv_valid :: bool
  last_adv_seq :: u8
  last_adv_time :: u32

record timer_system =
  timer_data :: sync_timer
  timer_calls :: trace

definition nrf :: "env \<Rightarrow> string \<Rightarrow> (timer_system, reply) state" where
  "nrf env name = zoom timer_calls (\<lambda>t s. s\<lparr>timer_calls := t\<rparr>) (ext env (Nrf name))"

definition timer_upd :: "(sync_timer \<Rightarrow> sync_timer) \<Rightarrow> (timer_system, unit) state" where
  "timer_upd f = State (\<lambda>s. ((), s\<lparr>timer_data := f (timer_data s)\<rparr>))"

definition sync_timer_init :: "rounding \<Rightarrow> env \<Rightarrow> (timer_system, int) state" where
  \<comment> \<open>the assertion on the result of \<open>nrfx_timer_init\<close> is left out\<close>
  "sync_timer_init fl env =
     do { t \<leftarrow> State (\<lambda>s. (timer_data s, s));
          if timer_init t then return (- EALREADY)
          else do {
            timer_upd (\<lambda>t. t\<lparr>timer_est := freq_est_init fl FREQ_EST_CONFIG\<rparr>);
            _ \<leftarrow> nrf env ''nrfx_timer_init'';
            adv \<leftarrow> nrf env ''nrfx_dppi_channel_alloc'';
            if r_ret adv \<noteq> 0 then return (- ENOMEM)
            else do {
              _ \<leftarrow> nrf env ''nrf_ipc_publish_set adv_dppi'';
              _ \<leftarrow> nrf env ''nrf_timer_subscribe_set CAPTURE_CHANNEL_ADV adv_dppi'';
              _ \<leftarrow> nrf env ''nrfx_dppi_channel_enable adv_dppi'';
              i2s \<leftarrow> nrf env ''nrfx_dppi_channel_alloc'';
              timer_upd (\<lambda>t. t\<lparr>i2s_dppi := word_of_int (r_num i2s)\<rparr>);
              if r_ret i2s \<noteq> 0 then return (- ENOMEM)
              else do {
                _ \<leftarrow> nrf env ''nrf_timer_subscribe_set CAPTURE_CHANNEL_I2S i2s_dppi'';
                usb \<leftarrow> nrf env ''nrfx_dppi_channel_alloc'';
                timer_upd (\<lambda>t. t\<lparr>usb_dppi := word_of_int (r_num usb)\<rparr>);
                if r_ret usb \<noteq> 0 then return (- ENOMEM)
                else do {
                  _ \<leftarrow> nrf env ''nrf_timer_subscribe_set CAPTURE_CHANNEL_USB_SOF usb_dppi'';
                  _ \<leftarrow> nrf env ''onoff_request'';
                  _ \<leftarrow> nrf env ''nrfx_timer_enable'';
                  timer_upd (\<lambda>t. t\<lparr>timer_init := True\<rparr>);
                  return 0 } } } } }"

definition sync_timer_recv_adv :: "rounding \<Rightarrow> zeus_adv_sync \<Rightarrow> u32 \<Rightarrow> sync_timer \<Rightarrow> sync_timer" where
  \<comment> \<open>\<open>time\<close> is what the timer captured at the end of this advertisement\<close>
  "sync_timer_recv_adv fl sync time t =
     (if \<not> timer_init t then t
      else
        let t = (if last_adv_valid t \<and> sync_seq sync = last_adv_seq t
                 then t\<lparr>timer_est := snd (freq_est_update fl (timer_est t) (qu32_32_from_int (last_adv_time t))
                                      (qu32_32_from_int (prev_time sync)) 0)\<rparr>
                 else t) in
        t\<lparr>last_adv_valid := True, last_adv_seq := sync_seq sync + 1, last_adv_time := time\<rparr>)"

definition sync_timer_get_i2s_dppi :: "sync_timer \<Rightarrow> u8" where
  "sync_timer_get_i2s_dppi t = i2s_dppi t"

definition sync_timer_get_usb_sof_dppi :: "sync_timer \<Rightarrow> u8" where
  "sync_timer_get_usb_sof_dppi t = usb_dppi t"

definition sync_timer_local_to_central :: "rounding \<Rightarrow> sync_timer \<Rightarrow> u64 \<Rightarrow> bool \<times> u64" where
  "sync_timer_local_to_central fl t time =
     (if \<not> timer_init t then (False, time)
      else if est_status (timer_est t) \<noteq> FREQ_EST_STATUS_RESET
      then (True, time - freq_est_predict fl (timer_est t) time)
      else (False, time))"

definition sync_timer_get_central_time :: "rounding \<Rightarrow> sync_timer \<Rightarrow> u32 \<Rightarrow> u64" where
  \<comment> \<open>of the time captured now\<close>
  "sync_timer_get_central_time fl t captured =
     snd (sync_timer_local_to_central fl t (qu32_32_from_int captured))"

section \<open>Which times are paired\<close>

text \<open>
  The central node numbers its packets. Packet \<open>k\<close> ends at central time \<open>T k\<close>; its content was prepared
  after packet \<open>k - 1\<close> and names the sequence number and the time of that packet. \<open>L k\<close> is the local
  time captured by a node that receives packet \<open>k\<close>.
\<close>

definition packet_sync :: "(nat \<Rightarrow> u32) \<Rightarrow> nat \<Rightarrow> zeus_adv_sync" where
  "packet_sync T k = \<lparr>sync_seq = of_nat (k - 1), prev_time = T (k - 1)\<rparr>"

definition receive_packets :: "rounding \<Rightarrow> (nat \<Rightarrow> u32) \<Rightarrow> (nat \<Rightarrow> u32) \<Rightarrow> nat list \<Rightarrow> sync_timer \<Rightarrow> sync_timer" where
  "receive_packets fl T L ks t = foldl (\<lambda>t k. sync_timer_recv_adv fl (packet_sync T k) (L k) t) t ks"

definition measure_packets :: "rounding \<Rightarrow> (nat \<Rightarrow> u32) \<Rightarrow> (nat \<Rightarrow> u32) \<Rightarrow> nat list \<Rightarrow> freq_est \<Rightarrow> freq_est" where
  \<comment> \<open>the estimator is given the two times of each of the packets\<close>
  "measure_packets fl T L ks e =
     foldl (\<lambda>e k. snd (freq_est_update fl e (qu32_32_from_int (L k)) (qu32_32_from_int (T k)) 0)) e ks"

lemma same_seq:
  assumes "a < b" "b \<le> a + 256"
  shows "(of_nat (b - 1) :: u8) = of_nat a \<longleftrightarrow> b = Suc a"
proof -
  have "(of_nat (b - 1) :: u8) = of_nat a \<longleftrightarrow> (b - 1) mod 256 = a mod 256"
    by (simp add: word_of_nat_eq_iff take_bit_eq_mod)
  also have "\<dots> \<longleftrightarrow> 256 dvd (b - 1 - a)" using assms by (simp add: mod_eq_dvd_iff_nat)
  also have "\<dots> \<longleftrightarrow> b - 1 - a = 0" using assms by (auto dest: dvd_imp_le)
  finally show ?thesis using assms by auto
qed

lemma receive_last:
  assumes "timer_init t" "ks \<noteq> []" "0 < last ks"
  shows "timer_init (receive_packets fl T L ks t) \<and> last_adv_valid (receive_packets fl T L ks t) \<and>
    last_adv_seq (receive_packets fl T L ks t) = of_nat (last ks) \<and>
    last_adv_time (receive_packets fl T L ks t) = L (last ks)"
proof -
  have init: "timer_init (receive_packets fl T L xs t)" for xs
    using assms(1) by (induction xs rule: rev_induct) (simp_all add: receive_packets_def sync_timer_recv_adv_def Let_def)
  obtain xs k where ks: "ks = xs @ [k]" using assms(2) by (cases ks rule: rev_cases) auto
  obtain j where k: "k = Suc j" using assms(3) ks by (cases k) auto
  have "receive_packets fl T L ks t = sync_timer_recv_adv fl (packet_sync T k) (L k) (receive_packets fl T L xs t)"
    by (simp add: receive_packets_def ks)
  then show ?thesis using init [of xs] init [of ks] k ks
    by (simp add: sync_timer_recv_adv_def packet_sync_def Let_def add.commute)
qed

text \<open>
  Property C29. The estimator of an audio node is only ever given two times of the same packet. Of the packets a
  node receives, in order and with losses, it measures exactly those of which it also receives
  the next one, and for each the local time of its end with its central time, provided
  the node never misses 256 packets in a row.
\<close>
theorem sync_pairs_same_packet:
  assumes "timer_init t" "\<not> last_adv_valid t"
    and "\<forall>k \<in> set ks. 0 < k" "successively (\<lambda>a b. a < b \<and> b \<le> a + 256) ks"
  shows "timer_est (receive_packets fl T L ks t) =
    measure_packets fl T L (filter (\<lambda>k. Suc k \<in> set ks) ks) (timer_est t)"
  using assms(3,4)
proof (induction ks rule: rev_induct)
  case Nil
  then show ?case by (simp add: receive_packets_def measure_packets_def)
next
  case (snoc b ks)
  have step: "receive_packets fl T L (ks @ [b]) t = sync_timer_recv_adv fl (packet_sync T b) (L b) (receive_packets fl T L ks t)"
    by (simp add: receive_packets_def)
  have succ: "successively (\<lambda>a b. a < b \<and> b \<le> a + 256) ks" and IH: "timer_est (receive_packets fl T L ks t) =
      measure_packets fl T L (filter (\<lambda>k. Suc k \<in> set ks) ks) (timer_est t)"
    using snoc by (auto simp: successively_append_iff)
  show ?case
  proof (cases "ks = []")
    case True
    then show ?thesis using assms(1,2) by (simp add: step receive_packets_def measure_packets_def sync_timer_recv_adv_def Let_def)
  next
    case False
    then obtain xs a where ks: "ks = xs @ [a]" by (cases ks rule: rev_cases) auto
    have ab: "a < b" "b \<le> a + 256" "0 < a"
      using snoc.prems ks by (auto simp: successively_append_iff)
    have "sorted_wrt (<) (ks @ [b])"
      using successively_mono [OF snoc.prems(2)] by (subst successively_conv_sorted_wrt [symmetric]) auto
    then have less: "k < a" if "k \<in> set xs" for k using that by (auto simp: ks sorted_wrt_append)
    then have "filter (\<lambda>k. Suc k \<in> set (ks @ [b])) xs = filter (\<lambda>k. Suc k \<in> set ks) xs"
      using ab by (intro filter_cong) (fastforce simp: ks)+
    moreover have "Suc a \<notin> set ks" "Suc b \<notin> set ks" using less ab by (fastforce simp: ks)+
    ultimately have pairs: "filter (\<lambda>k. Suc k \<in> set (ks @ [b])) (ks @ [b]) =
        filter (\<lambda>k. Suc k \<in> set ks) ks @ (if b = Suc a then [a] else [])"
      using ab by (auto simp: ks)
    note last = receive_last [OF assms(1) False, of fl T L, unfolded ks last_snoc, OF ab(3)]
    show ?thesis
      unfolding step pairs using last IH same_seq [OF ab(1,2)]
      by (auto simp: sync_timer_recv_adv_def Let_def measure_packets_def packet_sync_def ks)
  qed
qed

definition idle_timer :: sync_timer where
  \<comment> \<open>after \<open>sync_timer_init\<close>\<close>
  "idle_timer = \<lparr>i2s_dppi = 1, usb_dppi = 2, timer_est = freq_est_init id FREQ_EST_CONFIG, timer_init = True,
     last_adv_valid = False, last_adv_seq = 0, last_adv_time = 0\<rparr>"

theorem sync_pairs_same_packet_witness:
  "timer_est (receive_packets id (\<lambda>k. of_nat (1000 * k)) (\<lambda>k. of_nat (1000 * k + 7)) [3, 4, 6, 7, 8] idle_timer) =
     measure_packets id (\<lambda>k. of_nat (1000 * k)) (\<lambda>k. of_nat (1000 * k + 7)) [3, 6, 7] (timer_est idle_timer)"
  using sync_pairs_same_packet [of idle_timer "[3, 4, 6, 7, 8]" id "\<lambda>k. of_nat (1000 * k)" "\<lambda>k. of_nat (1000 * k + 7)"]
  by (simp add: idle_timer_def)

end
