(* ===== verification/Mgr.thy ===== *)
theory Mgr
  imports Recorder Sync_Timer
begin

text \<open>
  How an audio node handles the advertisements of the central node, \<open>mgr_handle_adv_data\<close> and the loop of
  \<open>mgr_sync\<close> over an advertisement in \<^verbatim>\<open>firmware/audio/app/src/mgr.cpp\<close>: the node has a clock, a recorder and the
  number of the last command. The coroutines that scan, pair and wait for events are in \<^verbatim>\<open>Mgr_Run\<close>.
\<close>

record audio_node =
  node_timer :: sync_timer
  last_cmd_seq :: u16
  node_rec :: record_system

definition run_command :: "record_platform \<Rightarrow> zeus_adv_cmd \<Rightarrow> record_system \<Rightarrow> record_system" where
  \<comment> \<open>the switch at the end of \<open>mgr_handle_adv_data\<close>; results are ignored\<close>
  "run_command pf cmd s =
     (if cmd_id cmd = ZEUS_ADV_CMD_START then snd (run_state (record_start pf (cmd_time cmd)) s)
      else if cmd_id cmd = ZEUS_ADV_CMD_STOP then snd (run_state (record_stop pf) s)
      else s)"

definition mgr_handle_adv_data ::
  "rounding \<Rightarrow> record_platform \<Rightarrow> u32 \<Rightarrow> zeus_adv_data \<Rightarrow> audio_node \<Rightarrow> audio_node" where
  \<comment> \<open>\<open>captured\<close> is the local time of the advertisement\<close>
  "mgr_handle_adv_data fl pf captured data m =
     (let m = m\<lparr>node_timer := sync_timer_recv_adv fl (adv_sync data) captured (node_timer m)\<rparr> in
      if adv_seq data = last_cmd_seq m then m
      else m\<lparr>last_cmd_seq := adv_seq data, node_rec := run_command pf (adv_cmd data) (node_rec m)\<rparr>)"

fun mgr_recv_adv ::
  "rounding \<Rightarrow> record_platform \<Rightarrow> u32 \<Rightarrow> zeus_adv_data \<Rightarrow> (u8 \<times> u8 list) list \<Rightarrow> audio_node \<Rightarrow> audio_node" where
  \<comment> \<open>\<open>bt_data_parse\<close> with the function of \<open>mgr_sync\<close>: the elements of an advertisement, up to the first that is parsed;
      \<open>junk\<close> is what the object has before\<close>
  "mgr_recv_adv fl pf captured junk [] m = m"
| "mgr_recv_adv fl pf captured junk ((adv_type, bs) # ads) m =
     (case mgr_parse_adv_data adv_type bs junk of
        None \<Rightarrow> mgr_recv_adv fl pf captured junk ads m
      | Some data \<Rightarrow> mgr_handle_adv_data fl pf captured data m)"

section \<open>Commands are executed once\<close>

definition announced :: "zeus_adv_data \<Rightarrow> (u8 \<times> u8 list) list" where
  \<comment> \<open>the advertisement of the central node\<close>
  "announced d = [(BT_DATA_MANUFACTURER_DATA, take (adv_len d) (adv_bytes d))]"

definition receive_adverts ::
  "rounding \<Rightarrow> record_platform \<Rightarrow> (u32 \<times> zeus_adv_data \<times> zeus_adv_data) list \<Rightarrow> audio_node \<Rightarrow> audio_node" where
  \<comment> \<open>a sequence of advertisements: local time, advertisement, contents of the object before\<close>
  "receive_adverts fl pf ads m =
     foldl (\<lambda>m (t, d, junk). mgr_recv_adv fl pf t junk (announced d) m) m ads"

lemma run_command_same:
  "cmd_id c = cmd_id c' \<Longrightarrow> (cmd_id c = ZEUS_ADV_CMD_START \<longrightarrow> cmd_time c = cmd_time c') \<Longrightarrow>
    run_command pf c s = run_command pf c' s"
  by (simp add: run_command_def)

lemma recv_announced:
  "node_rec (mgr_recv_adv fl pf t junk (announced d) m) =
     (if adv_seq d = last_cmd_seq m then node_rec m else run_command pf (adv_cmd d) (node_rec m))"
  "last_cmd_seq (mgr_recv_adv fl pf t junk (announced d) m) = adv_seq d"
proof -
  let ?d = "if cmd_id (adv_cmd d) \<in> {ZEUS_ADV_CMD_NONE, ZEUS_ADV_CMD_START, ZEUS_ADV_CMD_STOP} then d
            else d\<lparr>adv_cmd := \<lparr>cmd_id = ZEUS_ADV_CMD_NONE, cmd_time = 0\<rparr>\<rparr>"
  obtain d' where p: "mgr_parse_adv_data BT_DATA_MANUFACTURER_DATA (take (adv_len d) (adv_bytes d)) junk = Some d'"
    and same: "same_advert ?d d'"
    using advert_parsed [of d junk] by blast
  have "run_command pf (adv_cmd d') s = run_command pf (adv_cmd d) s" for s
    using same by (auto simp: same_advert_def run_command_def split: if_splits)
  moreover have "adv_seq d' = adv_seq d" using same by (simp add: same_advert_def split: if_splits)
  ultimately show "node_rec (mgr_recv_adv fl pf t junk (announced d) m) =
     (if adv_seq d = last_cmd_seq m then node_rec m else run_command pf (adv_cmd d) (node_rec m))"
    "last_cmd_seq (mgr_recv_adv fl pf t junk (announced d) m) = adv_seq d"
    by (simp_all add: announced_def p mgr_handle_adv_data_def Let_def)
qed

definition numbered_advert :: "(nat \<Rightarrow> zeus_adv_cmd) \<Rightarrow> zeus_adv_sync \<Rightarrow> nat \<Rightarrow> zeus_adv_data" where
  \<comment> \<open>an advertisement of the \<open>n\<close>th command\<close>
  "numbered_advert cmds sync n = \<lparr>adv_sync = sync, adv_seq = of_nat n, adv_cmd = cmds n\<rparr>"

lemma same_number:
  assumes "a \<le> b" "b < a + 65536"
  shows "(of_nat b :: u16) = of_nat a \<longleftrightarrow> b = a"
proof -
  have "(of_nat b :: u16) = of_nat a \<longleftrightarrow> b mod 65536 = a mod 65536"
    by (simp add: word_of_nat_eq_iff take_bit_eq_mod)
  also have "\<dots> \<longleftrightarrow> 65536 dvd (b - a)" using assms by (simp add: mod_eq_dvd_iff_nat)
  also have "\<dots> \<longleftrightarrow> b - a = 0" using assms by (auto dest: dvd_imp_le)
  finally show ?thesis using assms by auto
qed

lemma remdups_adj_head: "remdups_adj (x # xs) = x # tl (remdups_adj (x # xs))"
  by (metis list.collapse list.distinct(1) remdups_adj_Nil_iff hd_remdups_adj list.sel(1))

text \<open>
  Of the commands whose number reaches the node in some advertisement, each is executed by the recorder
  once, in order, and it is the command that was announced, with its start time; the others are not executed. The
  numbers wrap; the node must not miss all advertisements of 65535 commands in a row.
\<close>

lemma commands_executed_once:
  assumes "last_cmd_seq m = of_nat n0"
    and "successively (\<lambda>a b. a \<le> b \<and> b < a + 65536) (n0 # map (\<lambda>(t, sync, n, junk). n) ads)"
  shows "node_rec (receive_adverts fl pf (map (\<lambda>(t, sync, n, junk). (t, numbered_advert cmds sync n, junk)) ads) m) =
    fold (\<lambda>n. run_command pf (cmds n)) (tl (remdups_adj (n0 # map (\<lambda>(t, sync, n, junk). n) ads))) (node_rec m)"
  using assms
proof (induction ads arbitrary: n0 m)
  case Nil
  then show ?case by (simp add: receive_adverts_def)
next
  case (Cons ad ads)
  obtain t sync n junk where ad: "ad = (t, sync, n, junk)" by (cases ad)
  define m' where "m' = mgr_recv_adv fl pf t junk (announced (numbered_advert cmds sync n)) m"
  let ?ns = "map (\<lambda>(t, sync, n, junk). n) ads"
  have n: "n0 \<le> n" "n < n0 + 65536" and succ: "successively (\<lambda>a b. a \<le> b \<and> b < a + 65536) (n # ?ns)"
    using Cons.prems(2) by (simp_all add: ad)
  have seq: "last_cmd_seq m' = of_nat n" by (simp add: m'_def recv_announced numbered_advert_def)
  have rec: "node_rec m' = (if n = n0 then node_rec m else run_command pf (cmds n) (node_rec m))"
    using Cons.prems(1) same_number [OF n] by (simp add: m'_def recv_announced numbered_advert_def)
  have "tl (remdups_adj (n0 # n # ?ns)) = (if n = n0 then [] else [n]) @ tl (remdups_adj (n # ?ns))"
    using remdups_adj_head [of n ?ns] by auto
  with Cons.IH [OF seq succ] show ?case
    by (simp add: receive_adverts_def ad m'_def [symmetric] rec)
qed

definition booted_node :: audio_node where
  "booted_node = \<lparr>node_timer = idle_timer, last_cmd_seq = 0,
     node_rec = fresh_recorder\<lparr>rec_data := record_data_init\<lparr>initialised := True\<rparr>\<rparr>\<rparr>"

end
