(* ===== verification/Zeus_System.thy ===== *)
theory Zeus_System
  imports Central Mgr
begin

text \<open>
  The central node and an audio node together: what the recorder of an audio node does, for every sequence of
  operations of the central node and every loss of advertisements on the air.
\<close>

section \<open>Runs of the central node\<close>

definition announcements :: "trace \<Rightarrow> u8 list list" where
  \<comment> \<open>the data of the periodic advertisements, in order\<close>
  "announcements tr = concat (map (\<lambda>ev. case fst ev of BtSetData bs \<Rightarrow> [bs] | _ \<Rightarrow> []) tr)"

lemma announcements_append [simp]: "announcements (tr @ evs) = announcements tr @ announcements evs"
  by (simp add: announcements_def)

definition new_commands :: "central_system \<Rightarrow> central_system \<Rightarrow> zeus_adv_cmd list" where
  \<comment> \<open>what an operation has put into the queue\<close>
  "new_commands s s' = drop (length (cmd_queue s)) (cmd_queue s')"

inductive central_run :: "central_platform \<Rightarrow> central_system \<Rightarrow> zeus_adv_cmd list \<Rightarrow> central_system \<Rightarrow> bool"
  for pf s0 where
  booted: "central_run pf s0 [] s0"
| command: "central_run pf s0 acc s \<Longrightarrow> m \<in> {central_start, central_stop, central_toggle, central_pair pf} \<Longrightarrow>
    run_state m s = (r, s') \<Longrightarrow> central_run pf s0 (acc @ new_commands s s') s'"
| button: "central_run pf s0 acc s \<Longrightarrow> run_state button_release_work_handler s = (r, s') \<Longrightarrow>
    central_run pf s0 (acc @ new_commands s s') s'"
| packet: "central_run pf s0 acc s \<Longrightarrow> run_state (sync_ipc_recv pf msg_seq msg_time) s = (r, s') \<Longrightarrow>
    central_run pf s0 acc s'"
| update: "central_run pf s0 acc s \<Longrightarrow> run_state (sync_adv_update_handler pf) s = (r, s') \<Longrightarrow>
    central_run pf s0 acc s'"

definition central_boot :: "central_system \<Rightarrow> bool" where
  \<comment> \<open>the state when the work items and the queue are first used\<close>
  "central_boot s \<longleftrightarrow> cmd_seq (sync_state s) = 0 \<and> adv_seq (adv_data (sync_state s)) = 0 \<and>
     adv_cmd (adv_data (sync_state s)) = cmd_none \<and> cmd_queue s = [] \<and> announcements (central_calls s) = []"

section \<open>The announced commands\<close>

text \<open>
  The history of the announcements: their synchronisation data with the numbers of their commands, and the commands by
  number. The numbers go up by at most one at a time; the commands announced so far and those in the queue
  were accepted in this order.
\<close>

definition is_command :: "zeus_adv_cmd \<Rightarrow> bool" where
  "is_command c \<longleftrightarrow> cmd_id c \<in> {ZEUS_ADV_CMD_START, ZEUS_ADV_CMD_STOP}"

definition announce :: "(nat \<Rightarrow> zeus_adv_cmd) \<Rightarrow> zeus_adv_sync \<times> nat \<Rightarrow> u8 list" where
  "announce cmds h = (case h of (sync, n) \<Rightarrow>
     take (adv_len (numbered_advert cmds sync n)) (adv_bytes (numbered_advert cmds sync n)))"

definition announced_so_far ::
  "(zeus_adv_sync \<times> nat) list \<Rightarrow> (nat \<Rightarrow> zeus_adv_cmd) \<Rightarrow> nat \<Rightarrow> zeus_adv_cmd list \<Rightarrow> central_system \<Rightarrow> bool" where
  "announced_so_far hist cmds n acc s \<longleftrightarrow>
     announcements (central_calls s) = map (announce cmds) hist \<and>
     successively (\<lambda>a b. a \<le> b \<and> b \<le> Suc a) (0 # map snd hist) \<and> last (0 # map snd hist) = n \<and>
     cmd_seq (sync_state s) = of_nat n \<and> adv_seq (adv_data (sync_state s)) = of_nat n \<and>
     adv_cmd (adv_data (sync_state s)) = cmds n \<and>
     cmds 0 = cmd_none \<and> (is_command (cmds n) \<or> cmd_id (cmds n) = ZEUS_ADV_CMD_NONE) \<and>
     subseq (filter is_command (map cmds [1..<Suc n]) @ cmd_queue s) acc"

definition command_expired :: "zeus_adv_cmd \<Rightarrow> sync_data \<Rightarrow> bool" where
  "command_expired c d \<longleftrightarrow> cmd_id c = ZEUS_ADV_CMD_START \<and>
     sync_time_diff (cmd_time c) (prev_time (adv_sync (adv_data d))) < - int (unat SYNC_START_DELAY)"

definition settle :: "zeus_adv_cmd \<Rightarrow> sync_data \<Rightarrow> zeus_adv_cmd" where
  \<comment> \<open>what is announced of a command\<close>
  "settle c d = (if command_expired c d then cmd_none else if is_command c then c else c\<lparr>cmd_id := ZEUS_ADV_CMD_NONE\<rparr>)"

definition announcing :: "bool \<Rightarrow> zeus_adv_cmd \<Rightarrow> sync_data \<Rightarrow> zeus_adv_data" where
  "announcing new_cmd c d =
     \<lparr>adv_sync = adv_sync (adv_data d), adv_seq = (if new_cmd then cmd_seq d + 1 else adv_seq (adv_data d)), adv_cmd = c\<rparr>"

lemma announcing_update:
  "announcing False (adv_cmd (adv_data d)) d = adv_data d"
  "announcing False c d = (adv_data d)\<lparr>adv_cmd := c\<rparr>"
  "announcing True (adv_cmd (adv_data d)) d = (adv_data d)\<lparr>adv_seq := cmd_seq d + 1\<rparr>"
  "announcing True c d = (adv_data d)\<lparr>adv_cmd := c, adv_seq := cmd_seq d + 1\<rparr>"
  by (simp_all add: announcing_def)

lemma adv_update_order: "x\<lparr>adv_seq := n, adv_cmd := c\<rparr> = x\<lparr>adv_cmd := c, adv_seq := n\<rparr>"
  by simp

lemma update_effect:
  assumes "run_state (sync_adv_update_handler pf) s = (r, s')"
    and "c = (case cmd_queue s of [] \<Rightarrow> adv_cmd (adv_data (sync_state s)) | c # cs \<Rightarrow> c)"
    and "new_cmd \<longleftrightarrow> cmd_queue s \<noteq> [] \<or> command_expired c (sync_state s)"
    and "d = announcing new_cmd (settle c (sync_state s)) (sync_state s)"
  shows "cmd_queue s' = tl (cmd_queue s) \<and> adv_data (sync_state s') = d \<and>
    cmd_seq (sync_state s') = (if new_cmd then cmd_seq (sync_state s) + 1 else cmd_seq (sync_state s)) \<and>
    announcements (central_calls s') = announcements (central_calls s) @ [take (adv_len d) (adv_bytes d)]"
  using assms
  by (cases "cmd_queue s")
    (auto simp: sync_adv_update_handler_def sync_adv_update_data_def next_command_def set_cmd_def Let_def
      command_expired_def settle_def is_command_def announcing_update adv_update_order
      announcements_def cmd_none_def)

lemma last_bounds: "successively (\<lambda>a b. a \<le> b \<and> b \<le> Suc a) ns \<Longrightarrow> k \<in> set ns \<Longrightarrow> k \<le> last ns"
  for ns :: "nat list"
proof (induction ns rule: rev_induct)
  case (snoc n ns)
  then show ?case by (cases "ns = []") (fastforce simp: successively_append_iff)+
qed simp

lemma announce_cong: "(\<And>h. h \<in> set hist \<Longrightarrow> cmds (snd h) = cmds' (snd h)) \<Longrightarrow> map (announce cmds) hist = map (announce cmds') hist"
  by (rule map_cong) (auto simp: announce_def numbered_advert_def)

lemma hist_snoc:
  assumes "successively (\<lambda>a b. a \<le> b \<and> b \<le> Suc a) (0 # map snd hist)" "last (0 # map snd hist) = n"
    and "m = n \<or> m = Suc n"
  shows "successively (\<lambda>a b. a \<le> b \<and> b \<le> Suc a) (0 # map snd (hist @ [(sync, m)]))"
    "last (0 # map snd (hist @ [(sync, m)])) = m"
  using assms by (auto simp: successively_append_iff [of _ "0 # map snd hist" "[m]", simplified])

lemma announced_update:
  assumes inv: "announced_so_far hist cmds n acc s" and run: "run_state (sync_adv_update_handler pf) s = (r, s')"
  shows "\<exists>hist' cmds' n'. announced_so_far hist' cmds' n' acc s'"
proof -
  note i = inv [unfolded announced_so_far_def]
  define d where "d = sync_state s"
  define sync where "sync = adv_sync (adv_data d)"
  define c where "c = (case cmd_queue s of [] \<Rightarrow> adv_cmd (adv_data d) | c # cs \<Rightarrow> c)"
  define c' where "c' = settle c d"
  define new where "new \<longleftrightarrow> cmd_queue s \<noteq> [] \<or> command_expired c d"
  note eff = update_effect [OF run refl refl refl, folded d_def, folded c_def, folded c'_def new_def]
  have c': "is_command c' \<or> cmd_id c' = ZEUS_ADV_CMD_NONE" by (auto simp: c'_def settle_def cmd_none_def)
  have hist: "successively (\<lambda>a b. a \<le> b \<and> b \<le> Suc a) (0 # map snd hist)" "last (0 # map snd hist) = n"
    using i by auto
  show ?thesis
  proof (cases new)
    case False
    then have q: "cmd_queue s = []" and live: "\<not> command_expired c d" and c: "c = cmds n" using i by (auto simp: new_def c_def d_def)
    have "c' = cmds n" using live c i by (auto simp: c'_def settle_def)
    moreover have "announcing new c' d = numbered_advert cmds sync n"
      using False i calculation by (simp add: announcing_def numbered_advert_def sync_def d_def)
    ultimately have "announced_so_far (hist @ [(sync, n)]) cmds n acc s'"
      unfolding announced_so_far_def using eff False i q hist_snoc [OF hist, of n sync] c'
      by (simp add: announce_def numbered_advert_def d_def)
    then show ?thesis by blast
  next
    case True
    define cmds' where "cmds' = cmds(Suc n := c')"
    have adv: "announcing new c' d = numbered_advert cmds' sync (Suc n)"
      using True i by (simp add: announcing_def numbered_advert_def sync_def cmds'_def d_def add.commute)
    have old: "map (announce cmds') hist = map (announce cmds) hist"
      using last_bounds [OF hist(1)] hist(2) by (intro announce_cong) (fastforce simp: cmds'_def)
    have "map cmds' [1..<Suc n] = map cmds [1..<Suc n]" by (simp add: cmds'_def)
    then have F: "filter is_command (map cmds' [1..<Suc (Suc n)]) =
        filter is_command (map cmds [1..<Suc n]) @ (if is_command c' then [c'] else [])"
      by (simp add: cmds'_def)
    have "subseq (filter is_command (map cmds' [1..<Suc (Suc n)]) @ cmd_queue s') acc"
    proof (cases "cmd_queue s")
      case Nil
      with True have "\<not> is_command c'" by (simp add: new_def c'_def settle_def cmd_none_def is_command_def)
      then show ?thesis using F eff i Nil by simp
    next
      case (Cons q qs)
      then have "c = q" by (simp add: c_def)
      then have "c' = q \<or> \<not> is_command c'" by (auto simp: c'_def settle_def cmd_none_def is_command_def)
      then have "subseq (filter is_command (map cmds' [1..<Suc (Suc n)]) @ cmd_queue s')
          (filter is_command (map cmds [1..<Suc n]) @ cmd_queue s)"
        unfolding F using eff Cons by (auto intro: list_emb_append_mono)
      then show ?thesis using i subseq_order.trans by blast
    qed
    then have "announced_so_far (hist @ [(sync, Suc n)]) cmds' (Suc n) acc s'"
      unfolding announced_so_far_def using eff True i adv old hist_snoc [OF hist, of "Suc n" sync] c'
      by (simp add: announce_def numbered_advert_def d_def cmds'_def add.commute)
    then show ?thesis by blast
  qed
qed

definition quiet :: "central_system \<Rightarrow> central_system \<Rightarrow> bool" where
  \<comment> \<open>nothing is announced; the queue may get commands\<close>
  "quiet s s' \<longleftrightarrow> announcements (central_calls s') = announcements (central_calls s) \<and>
     cmd_seq (sync_state s') = cmd_seq (sync_state s) \<and>
     adv_seq (adv_data (sync_state s')) = adv_seq (adv_data (sync_state s)) \<and>
     adv_cmd (adv_data (sync_state s')) = adv_cmd (adv_data (sync_state s)) \<and>
     cmd_queue s' = cmd_queue s @ new_commands s s'"

lemma announced_quiet:
  "announced_so_far hist cmds n acc s \<Longrightarrow> quiet s s' \<Longrightarrow> announced_so_far hist cmds n (acc @ new_commands s s') s'"
  unfolding announced_so_far_def quiet_def by (auto intro: list_emb_append_mono simp flip: append_assoc)

lemmas central_ops = central_start_def central_stop_def central_toggle_def central_pair_def connect_adv_set_pairing_def
  sync_cmd_start_def sync_cmd_stop_def put_command_def get_mode_def set_mode_def

lemma quiet_command:
  "m \<in> {central_start, central_stop, central_toggle, central_pair pf} \<Longrightarrow> run_state m s = (r, s') \<Longrightarrow> quiet s s'"
  by (auto simp: quiet_def new_commands_def central_ops announcements_def split: central_mode.splits if_splits)

lemma quiet_button: "run_state button_release_work_handler s = (r, s') \<Longrightarrow> quiet s s'"
  by (auto simp: quiet_def new_commands_def central_ops announcements_def button_release_work_handler_def
    split: central_mode.splits if_splits)

lemma quiet_packet:
  assumes "run_state (sync_ipc_recv pf msg_seq msg_time) s = (r, s')"
  shows "quiet s s'" and "new_commands s s' = []"
  using assms by (auto simp: quiet_def new_commands_def sync_ipc_recv_def announcements_def)

lemma central_announces:
  assumes "central_run pf s0 acc s" and boot: "central_boot s0"
  shows "\<exists>hist cmds n. announced_so_far hist cmds n acc s"
  using assms(1)
proof induction
  case booted
  have "announced_so_far [] (\<lambda>_. cmd_none) 0 [] s0"
    using boot by (simp add: central_boot_def announced_so_far_def cmd_none_def)
  then show ?case by blast
next
  case (command acc s m r s')
  then show ?case using announced_quiet quiet_command by blast
next
  case (button acc s r s')
  then show ?case using announced_quiet quiet_button by blast
next
  case (packet acc s msg_seq msg_time r s')
  then show ?case using announced_quiet quiet_packet by fastforce
next
  case (update acc s r s')
  then show ?case using announced_update by blast
qed

section \<open>What an audio node does\<close>

type_synonym reception = "u32 \<times> nat \<times> zeus_adv_data"
  \<comment> \<open>the local time, the index of the announcement, what the object for the parsed data has before\<close>

definition receive_announcements ::
  "rounding \<Rightarrow> record_platform \<Rightarrow> u8 list list \<Rightarrow> reception list \<Rightarrow> audio_node \<Rightarrow> audio_node" where
  "receive_announcements fl pf ads rx m =
     foldl (\<lambda>m (t, k, junk). mgr_recv_adv fl pf t junk [(BT_DATA_MANUFACTURER_DATA, ads ! k)] m) m rx"

definition in_order :: "nat \<Rightarrow> reception list \<Rightarrow> bool" where
  \<comment> \<open>of \<open>n\<close> announcements; fewer than 65535 are missed in a row\<close>
  "in_order n rx \<longleftrightarrow> (\<forall>(t, k, junk) \<in> set rx. k < n) \<and>
     successively (\<lambda>a b. a \<le> b \<and> b < a + 65536) (0 # map (\<lambda>(t, k, junk). Suc k) rx)"

definition received_command :: "u8 list \<Rightarrow> zeus_adv_data \<Rightarrow> zeus_adv_cmd \<Rightarrow> bool" where
  \<comment> \<open>the announcement is parsed to a command, the same as \<open>c\<close>\<close>
  "received_command bs junk c \<longleftrightarrow>
     (case mgr_parse_adv_data BT_DATA_MANUFACTURER_DATA bs junk of
        None \<Rightarrow> False
      | Some d \<Rightarrow> is_command c \<and> cmd_id (adv_cmd d) = cmd_id c \<and>
                  (cmd_id c = ZEUS_ADV_CMD_START \<longrightarrow> cmd_time (adv_cmd d) = cmd_time c))"

lemma steps_bound:
  assumes "successively (\<lambda>a b. a \<le> b \<and> b \<le> Suc a) ns" "i \<le> j" "j < length ns"
  shows "ns ! i \<le> ns ! j \<and> ns ! j \<le> ns ! i + (j - i)"
  using assms(2,3)
proof (induction j rule: dec_induct)
  case (step j)
  then show ?case using assms(1) by (fastforce simp: successively_conv_nth Suc_diff_le)
qed simp

lemma numbers_in_order:
  assumes ns: "successively (\<lambda>a b. a \<le> b \<and> b \<le> Suc a) ns"
    and "successively (\<lambda>a b. a \<le> b \<and> b < a + 65536) is" "\<forall>i \<in> set is. i < length ns"
  shows "successively (\<lambda>a b. a \<le> b \<and> b < a + 65536) (map ((!) ns) is)"
  using assms(2,3)
proof (induction "is" rule: induct_list012)
  case (3 i j ks)
  then show ?case using steps_bound [OF ns, of i j] by auto
qed auto

lemma fold_run_command: "fold (run_command pf) cs = fold (run_command pf) (filter is_command cs)"
proof -
  have "(\<lambda>c. if is_command c then run_command pf c else id) = run_command pf"
    by (auto simp: run_command_def is_command_def fun_eq_iff)
  then show ?thesis by (simp add: fold_filter)
qed

lemma remdups_adj_strict:
  fixes ns :: "nat list"
  assumes "successively (\<lambda>a b. a \<le> b \<and> b < a + 65536) ns"
  shows "sorted_wrt (<) (remdups_adj ns)"
proof -
  have "successively (\<le>) (remdups_adj ns)" using assms by (auto intro: successively_remdups_adjI successively_mono)
  moreover have "distinct_adj (remdups_adj ns)" by simp
  ultimately have "successively (<) (remdups_adj ns)"
    by (auto simp: distinct_adj_def successively_conv_nth less_le)
  then show ?thesis by (simp add: successively_conv_sorted_wrt)
qed

lemma received_announce:
  assumes "received_command (announce cmds h) junk c"
  shows "is_command (cmds (snd h)) \<and> received_command (announce cmds h) junk (cmds (snd h))"
proof -
  define a where "a = numbered_advert cmds (fst h) (snd h)"
  have ann: "announce cmds h = take (adv_len a) (adv_bytes a)" by (simp add: announce_def a_def split: prod.splits)
  have cmd: "adv_cmd a = cmds (snd h)" by (simp add: a_def numbered_advert_def)
  obtain d where "mgr_parse_adv_data BT_DATA_MANUFACTURER_DATA (announce cmds h) junk = Some d"
    and "same_advert (if cmd_id (adv_cmd a) \<in> {ZEUS_ADV_CMD_NONE, ZEUS_ADV_CMD_START, ZEUS_ADV_CMD_STOP} then a
                      else a\<lparr>adv_cmd := \<lparr>cmd_id = ZEUS_ADV_CMD_NONE, cmd_time = 0\<rparr>\<rparr>) d"
    unfolding ann using advert_parsed by blast
  then show ?thesis using assms cmd
    by (auto simp: received_command_def same_advert_def is_command_def split: if_splits)
qed

lemma received_are_numbered:
  assumes "k < length hist"
  shows "mgr_recv_adv fl pf t junk [(BT_DATA_MANUFACTURER_DATA, map (announce cmds) hist ! k)] m =
    mgr_recv_adv fl pf t junk (announced (numbered_advert cmds (fst (hist ! k)) (snd (hist ! k)))) m"
  using assms by (simp add: announced_def announce_def split: prod.splits)

lemma node_follows_central:
  assumes inv: "announced_so_far hist cmds n acc s" and ads: "ads = announcements (central_calls s)"
    and rx: "in_order (length ads) rx" and node: "last_cmd_seq m = 0"
  shows "\<exists>es. subseq es acc \<and> node_rec (receive_announcements fl pf ads rx m) = fold (run_command pf) es (node_rec m) \<and>
    (\<forall>(t, k, junk) \<in> set rx. (\<exists>c. received_command (ads ! k) junk c) \<longrightarrow> (\<exists>c \<in> set es. received_command (ads ! k) junk c))"
proof -
  note i = inv [unfolded announced_so_far_def]
  define N where "N = 0 # map snd hist"
  define idx where "idx = 0 # map (\<lambda>(t, k, junk). Suc k) rx"
  define ns where "ns = map (\<lambda>(t, k, junk). snd (hist ! k)) rx"
  define es where "es = filter is_command (map cmds (tl (remdups_adj (0 # ns))))"
  have ads_hist: "ads = map (announce cmds) hist" using i ads by simp
  have k: "k < length hist" if "(t, k, junk) \<in> set rx" for t k junk
    using rx that by (auto simp: in_order_def ads_hist)
  have "map ((!) N) idx = 0 # ns" using k by (auto simp: N_def idx_def ns_def split: prod.splits)
  moreover have "successively (\<lambda>a b. a \<le> b \<and> b < a + 65536) (map ((!) N) idx)"
    using i rx k by (intro numbers_in_order) (auto simp: N_def idx_def in_order_def)
  ultimately have succ: "successively (\<lambda>a b. a \<le> b \<and> b < a + 65536) (0 # ns)" by simp
  have "receive_announcements fl pf ads rx m = receive_adverts fl pf (map (\<lambda>(t, sync, n, junk). (t, numbered_advert cmds sync n, junk))
      (map (\<lambda>(t, k, junk). (t, fst (hist ! k), snd (hist ! k), junk)) rx)) m"
    unfolding receive_announcements_def receive_adverts_def foldl_map
    by (rule foldl_cong) (auto simp only: ads_hist received_are_numbered k prod.case comp_apply)
  then have "node_rec (receive_announcements fl pf ads rx m) =
      fold (\<lambda>n. run_command pf (cmds n)) (tl (remdups_adj (0 # ns))) (node_rec m)"
    using commands_executed_once [where ?n0.0 = 0 and m = m and cmds = cmds and fl = fl and pf = pf and
        ads = "map (\<lambda>(t, k, junk). (t, fst (hist ! k), snd (hist ! k), junk)) rx"] node succ
    by (simp add: ns_def case_prod_unfold comp_def)
  also have "\<dots> = fold (run_command pf) es (node_rec m)"
    unfolding es_def fold_run_command [symmetric] by (simp add: fold_map comp_def)
  finally have rec: "node_rec (receive_announcements fl pf ads rx m) = fold (run_command pf) es (node_rec m)" .
  obtain T where T: "tl (remdups_adj (0 # ns)) = T" by simp
  have split: "remdups_adj (0 # ns) = 0 # T" using remdups_adj_head [of 0 ns] T by simp
  have strict: "sorted_wrt (<) (0 # T)" using remdups_adj_strict [OF succ] split by simp
  have nums: "set (0 # T) = insert 0 (set ns)" using remdups_adj_set [of "0 # ns"] unfolding split by simp
  have pos: "0 < x \<and> x \<in> set ns" if "x \<in> set T" for x
  proof -
    have "0 < x" using strict that unfolding sorted_wrt.simps by blast
    moreover have "x \<in> insert 0 (set ns)" using that unfolding nums [symmetric] by simp
    ultimately show ?thesis by simp
  qed
  have "set ns \<subseteq> {..n}"
  proof -
    have "a \<le> n" if "a \<in> set N" for a using last_bounds [of N a] i that by (simp add: N_def)
    then show ?thesis using k by (force simp: ns_def N_def)
  qed
  then have "set T \<subseteq> set [1..<Suc n]" by (fastforce dest: pos simp del: upt_Suc)
  then have "subseq T [1..<Suc n]" by (rule sorted_subset_imp_subseq) (use strict in simp, simp del: upt_Suc)
  then have "subseq es (filter is_command (map cmds [1..<Suc n]))" unfolding es_def T by (intro subseq_filter subseq_map)
  then have "subseq es (filter is_command (map cmds [1..<Suc n]) @ cmd_queue s)" by (rule subseq_rev_drop_many)
  then have sub: "subseq es acc" using i by (blast intro: subseq_order.order_trans)
  have "\<exists>c \<in> set es. received_command (ads ! k) junk c"
    if "(t, k, junk) \<in> set rx" "received_command (ads ! k) junk c" for t k junk c
  proof -
    let ?c = "cmds (snd (hist ! k))"
    have c: "is_command ?c" "received_command (ads ! k) junk ?c"
      using received_announce [of cmds "hist ! k" junk c] that k by (simp_all add: ads_hist)
    have "\<not> is_command (cmds 0)" using i by (simp only: is_command_def cmd_none_def) simp
    then have "snd (hist ! k) \<noteq> 0" using c(1) by metis
    moreover have "snd (hist ! k) \<in> set ns" using that(1) by (force simp: ns_def)
    ultimately have "snd (hist ! k) \<in> set T" using nums by (metis insertE insertI2 list.simps(15) neq0_conv)
    then show ?thesis using c by (auto simp: es_def T)
  qed
  then show ?thesis using rec sub by blast
qed

text \<open>
  Property C26. The recorder of an audio node does what the central node was told. Take any run of the central node,
  with any start, stop and pairing requests, timer messages and announcements, and a node that receives some of the announced
  advertisements in order, not missing 65535 in a row, each possibly several times, with any state of its clock. The calls of
  its recorder are starts and stops that the central node accepted, in the order it accepted them, none twice; and every command
  in a received advertisement is among them, a start with its start time.
\<close>
theorem recordings_follow_central:
  assumes "central_run cpf s0 acc s" and "central_boot s0" and "ads = announcements (central_calls s)"
    and "in_order (length ads) rx" and "last_cmd_seq m = 0"
  shows "\<exists>es. subseq es acc \<and> node_rec (receive_announcements fl pf ads rx m) = fold (run_command pf) es (node_rec m) \<and>
    (\<forall>(t, k, junk) \<in> set rx. (\<exists>c. received_command (ads ! k) junk c) \<longrightarrow> (\<exists>c \<in> set es. received_command (ads ! k) junk c))"
proof -
  obtain hist cmds n where "announced_so_far hist cmds n acc s" using central_announces [OF assms(1,2)] by blast
  then show ?thesis using assms(3-5) by (rule node_follows_central)
qed

definition central_idle :: central_system where
  "central_idle =
     \<lparr>sync_state = \<lparr>adv_data = \<lparr>adv_sync = \<lparr>sync_seq = 0, prev_time = 0\<rparr>, adv_seq = 0, adv_cmd = cmd_none\<rparr>,
        first_seq = True, prev_seq = 0, last_pkt_time = 0, cmd_seq = 0\<rparr>,
      cmd_queue = [], central_calls = [], central_led = led_start, central_mode = CENTRAL_STATE_IDLE, adv_filter = True,
      button_boot_released = True\<rparr>"

definition board_central :: central_platform where
  "board_central = \<lparr>ce_env = quiet_env, ce_led_env = quiet_env, ce_led = board_lp58xx\<rparr>"

lemma recordings_follow_central_witness:
  "\<exists>s es. central_run board_central central_idle
      [\<lparr>cmd_id = ZEUS_ADV_CMD_START, cmd_time = SYNC_START_DELAY\<rparr>, \<lparr>cmd_id = ZEUS_ADV_CMD_STOP, cmd_time = 0\<rparr>] s \<and>
    subseq es [\<lparr>cmd_id = ZEUS_ADV_CMD_START, cmd_time = SYNC_START_DELAY\<rparr>, \<lparr>cmd_id = ZEUS_ADV_CMD_STOP, cmd_time = 0\<rparr>] \<and>
    node_rec (receive_announcements (\<lambda>x. x) no_space_platform (announcements (central_calls s))
      [(100, 0, numbered_advert (\<lambda>_. cmd_none) \<lparr>sync_seq = 0, prev_time = 0\<rparr> 0),
       (200, 1, numbered_advert (\<lambda>_. cmd_none) \<lparr>sync_seq = 0, prev_time = 0\<rparr> 0)] booted_node) =
    fold (run_command no_space_platform) es (node_rec booted_node)"
proof -
  let ?u = "\<lambda>s. snd (run_state (sync_adv_update_handler board_central) s)"
  define s1 where "s1 = snd (run_state central_start central_idle)"
  define s2 where "s2 = snd (run_state central_stop s1)"
  let ?c = "\<lparr>cmd_id = ZEUS_ADV_CMD_START, cmd_time = SYNC_START_DELAY\<rparr>" and ?d = "\<lparr>cmd_id = ZEUS_ADV_CMD_STOP, cmd_time = 0\<rparr>"
  have run1: "central_run board_central central_idle ([] @ new_commands central_idle s1) s1"
    unfolding s1_def by (rule central_run.command [OF central_run.booted _ prod.collapse [symmetric]]) simp
  have run2: "central_run board_central central_idle (([] @ new_commands central_idle s1) @ new_commands s1 s2) s2"
    unfolding s2_def by (rule central_run.command [OF run1 _ prod.collapse [symmetric]]) simp
  have q1: "new_commands central_idle s1 = [?c]" and "cmd_queue s1 = [?c]" "central_mode s1 = CENTRAL_STATE_RECORDING"
    by (simp_all add: new_commands_def s1_def central_idle_def central_ops CMD_QUEUE_SIZE_def)
  then have "new_commands s1 s2 = [?d]"
    by (simp add: new_commands_def s2_def central_ops CMD_QUEUE_SIZE_def)
  with run2 q1 have "central_run board_central central_idle [?c, ?d] s2" by simp
  note run = central_run.update [OF central_run.update [OF this prod.collapse [symmetric]] prod.collapse [symmetric]]
  have count: "length (announcements (central_calls (?u s))) = Suc (length (announcements (central_calls s)))" for s
    using update_effect [OF prod.collapse [symmetric] refl refl refl, of board_central s] by simp
  have "announcements (central_calls s2) = []"
    by (simp add: s1_def s2_def central_idle_def central_ops announcements_def CMD_QUEUE_SIZE_def)
  then have n: "length (announcements (central_calls (?u (?u s2)))) = 2" by (simp add: count)
  let ?j = "numbered_advert (\<lambda>_. cmd_none) \<lparr>sync_seq = 0, prev_time = 0\<rparr> 0"
  have "central_boot central_idle" by (simp add: central_boot_def central_idle_def cmd_none_def announcements_def)
  moreover have "in_order (length (announcements (central_calls (?u (?u s2))))) [(100, 0, ?j), (200, 1, ?j)]"
    unfolding n by (simp add: in_order_def)
  moreover have "last_cmd_seq booted_node = 0" by (simp add: booted_node_def)
  ultimately show ?thesis
    using recordings_follow_central [OF run _ refl, where fl = "\<lambda>x. x" and pf = no_space_platform and m = booted_node and
        rx = "[(100, 0, ?j), (200, 1, ?j)]"] run by blast
qed

end
