(* ===== verification/Codec.thy ===== *)
theory Codec
  imports Regulators
begin

text \<open>
  The driver of the audio converter, \<^verbatim>\<open>firmware/audio/app/src/drivers/tlv320adcx120.c\<close>, and the properties of
  \<^verbatim>\<open>input_codec.h\<close>. The I2C bus, the GPIOs and the runtime power management are events; the functions of
  \<^verbatim>\<open>linear_range.h\<close> are parameters. The flags of the I2S format are given decoded.
\<close>

section \<open>Properties\<close>

type_synonym audio_channel = nat

abbreviation (input) AUDIO_CHANNEL_FRONT_LEFT :: audio_channel where "AUDIO_CHANNEL_FRONT_LEFT \<equiv> 0"
abbreviation (input) AUDIO_CHANNEL_FRONT_RIGHT :: audio_channel where "AUDIO_CHANNEL_FRONT_RIGHT \<equiv> 1"

datatype input_codec_property = INPUT_CODEC_PROPERTY_SOURCE | INPUT_CODEC_PROPERTY_ANALOG_GAIN
  | INPUT_CODEC_PROPERTY_DIGITAL_GAIN | INPUT_CODEC_PROPERTY_MUTE | INPUT_CODEC_PROPERTY_IMPEDANCE

section \<open>Registers\<close>

datatype reg_addr = RegAddr u8 u8    \<comment> \<open>page and address\<close>

definition PAGE_CFG_ADDR :: u8 where "PAGE_CFG_ADDR = 0"
definition SW_RESET_ADDR :: reg_addr where "SW_RESET_ADDR = RegAddr 0 0x01"
definition SW_RESET_ASSERT :: u8 where "SW_RESET_ASSERT = BIT 1"
definition SLEEP_CFG_ADDR :: reg_addr where "SLEEP_CFG_ADDR = RegAddr 0 0x02"
definition SLEEP_CFG_AREG_SELECT :: u8 where "SLEEP_CFG_AREG_SELECT = BIT 7"
definition SLEEP_CFG_VREF_QCHG :: u8 where "SLEEP_CFG_VREF_QCHG = GENMASK 4 3"
definition SLEEP_CFG_VREF_QCHG_3_5_MS :: u8 where "SLEEP_CFG_VREF_QCHG_3_5_MS = 0"
definition SLEEP_CFG_SLEEP_ENZ :: u8 where "SLEEP_CFG_SLEEP_ENZ = BIT 0"
definition SHDN_CFG_ADDR :: reg_addr where "SHDN_CFG_ADDR = RegAddr 0 0x05"
definition ASI_CFG0_ADDR :: reg_addr where "ASI_CFG0_ADDR = RegAddr 0 0x07"
definition ASI_CFG0_ASI_FORMAT :: u8 where "ASI_CFG0_ASI_FORMAT = GENMASK 7 6"
definition ASI_CFG0_ASI_FORMAT_TDM :: u8 where "ASI_CFG0_ASI_FORMAT_TDM = 0"
definition ASI_CFG0_ASI_FORMAT_I2S :: u8 where "ASI_CFG0_ASI_FORMAT_I2S = 1"
definition ASI_CFG0_ASI_FORMAT_LJ :: u8 where "ASI_CFG0_ASI_FORMAT_LJ = 2"
definition ASI_CFG0_ASI_WLEN :: u8 where "ASI_CFG0_ASI_WLEN = GENMASK 5 4"
definition ASI_CFG0_ASI_WLEN_16 :: u8 where "ASI_CFG0_ASI_WLEN_16 = 0"
definition ASI_CFG0_ASI_WLEN_20 :: u8 where "ASI_CFG0_ASI_WLEN_20 = 1"
definition ASI_CFG0_ASI_WLEN_24 :: u8 where "ASI_CFG0_ASI_WLEN_24 = 2"
definition ASI_CFG0_ASI_WLEN_32 :: u8 where "ASI_CFG0_ASI_WLEN_32 = 3"
definition ASI_CFG0_FSYNC_POL :: u8 where "ASI_CFG0_FSYNC_POL = BIT 3"
definition ASI_CFG0_BCLK_POL :: u8 where "ASI_CFG0_BCLK_POL = BIT 2"
definition ASI_CFG1_ADDR :: reg_addr where "ASI_CFG1_ADDR = RegAddr 0 0x08"
definition ASI_CFG2_ADDR :: reg_addr where "ASI_CFG2_ADDR = RegAddr 0 0x09"
definition ASI_MIX_CFG_ADDR :: reg_addr where "ASI_MIX_CFG_ADDR = RegAddr 0 0x0a"
definition ASI_CH_ADDR :: "nat \<Rightarrow> reg_addr" where "ASI_CH_ADDR ch = RegAddr 0 (of_nat (0x0b + ch - 1))"
definition ASI_CH_SLOT :: u8 where "ASI_CH_SLOT = GENMASK 5 0"
definition MST_CFG0_ADDR :: reg_addr where "MST_CFG0_ADDR = RegAddr 0 0x13"
definition MST_CFG0_MST_SLV_CFG :: u8 where "MST_CFG0_MST_SLV_CFG = BIT 7"
definition MST_CFG0_BCLK_FSYNC_GATE :: u8 where "MST_CFG0_BCLK_FSYNC_GATE = BIT 4"
definition MST_CFG0_MCLK_FREQ_SEL :: u8 where "MST_CFG0_MCLK_FREQ_SEL = GENMASK 2 0"
definition MST_CFG0_MCLK_FREQ_SEL_13_MHZ :: u8 where "MST_CFG0_MCLK_FREQ_SEL_13_MHZ = 2"
definition MST_CFG1_ADDR :: reg_addr where "MST_CFG1_ADDR = RegAddr 0 0x14"
definition CH_CFG0_ADDR :: "nat \<Rightarrow> reg_addr" where "CH_CFG0_ADDR ch = RegAddr 0 (of_nat (0x3c + (ch - 1) * 5))"
definition CH_CFG0_INTYP :: u8 where "CH_CFG0_INTYP = BIT 7"
definition CH_CFG0_DC :: u8 where "CH_CFG0_DC = BIT 4"
definition CH_CFG0_IMP :: u8 where "CH_CFG0_IMP = GENMASK 3 2"
definition CH_CFG0_IMP_2_5_KOHM :: u8 where "CH_CFG0_IMP_2_5_KOHM = 0"
definition CH_CFG0_IMP_10_KOHM :: u8 where "CH_CFG0_IMP_10_KOHM = 1"
definition CH_CFG0_IMP_20_KOHM :: u8 where "CH_CFG0_IMP_20_KOHM = 2"
definition CH_CFG0_DREEN :: u8 where "CH_CFG0_DREEN = BIT 0"
definition CH_CFG1_ADDR :: "nat \<Rightarrow> reg_addr" where "CH_CFG1_ADDR ch = RegAddr 0 (of_nat (0x3d + (ch - 1) * 5))"
definition CH_CFG1_GAIN :: u8 where "CH_CFG1_GAIN = GENMASK 7 1"
definition CH_CFG2_ADDR :: "nat \<Rightarrow> reg_addr" where "CH_CFG2_ADDR ch = RegAddr 0 (of_nat (0x3e + (ch - 1) * 5))"
definition CH_CFG2_DVOL :: u8 where "CH_CFG2_DVOL = GENMASK 7 0"
definition CH_CFG3_ADDR :: "nat \<Rightarrow> reg_addr" where "CH_CFG3_ADDR ch = RegAddr 0 (of_nat (0x3f + (ch - 1) * 5))"
definition CH_CFG4_ADDR :: "nat \<Rightarrow> reg_addr" where "CH_CFG4_ADDR ch = RegAddr 0 (of_nat (0x40 + (ch - 1) * 5))"
definition IN_CH_EN_ADDR :: reg_addr where "IN_CH_EN_ADDR = RegAddr 0 0x73"
definition IN_CH_EN :: "nat \<Rightarrow> u8" where "IN_CH_EN ch = BIT (7 - (ch - 1))"
definition ASI_OUT_CH_EN_ADDR :: reg_addr where "ASI_OUT_CH_EN_ADDR = RegAddr 0 0x74"
definition ASI_OUT_CH_EN :: "nat \<Rightarrow> u8" where "ASI_OUT_CH_EN ch = BIT (7 - (ch - 1))"
definition PWR_CFG_ADDR :: reg_addr where "PWR_CFG_ADDR = RegAddr 0 0x75"
definition PWR_CFG_ADC_PDZ :: u8 where "PWR_CFG_ADC_PDZ = BIT 6"
definition PWR_CFG_PLL_PDZ :: u8 where "PWR_CFG_PLL_PDZ = BIT 5"

lemmas codec_addrs = SW_RESET_ADDR_def SLEEP_CFG_ADDR_def SHDN_CFG_ADDR_def ASI_CFG0_ADDR_def ASI_CFG1_ADDR_def
  ASI_CFG2_ADDR_def ASI_MIX_CFG_ADDR_def ASI_CH_ADDR_def MST_CFG0_ADDR_def MST_CFG1_ADDR_def CH_CFG0_ADDR_def
  CH_CFG1_ADDR_def CH_CFG2_ADDR_def CH_CFG3_ADDR_def CH_CFG4_ADDR_def IN_CH_EN_ADDR_def ASI_OUT_CH_EN_ADDR_def
  PWR_CFG_ADDR_def

section \<open>State\<close>

definition CODEC_MIN_SUSPEND_MSEC :: nat where "CODEC_MIN_SUSPEND_MSEC = 10"
definition CODEC_NUM_CHANNELS :: nat where "CODEC_NUM_CHANNELS = 4"
definition CODEC_NUM_ANALOG_CHANNELS :: nat where "CODEC_NUM_ANALOG_CHANNELS = 2"
definition CODEC_DEFAULT_DVOL :: u8 where "CODEC_DEFAULT_DVOL = 201"

record codec_channel_config =
  cc_channel :: nat
  cc_line_in :: bool
  cc_dc_coupled :: bool
  cc_impedance_ohms :: nat
  cc_slot :: nat

record codec_channel_data =
  cd_mute :: bool
  cd_dvol :: u8

record codec_driver_config =
  co_addr :: u8
  co_avdd :: bool                    \<comment> \<open>there is a supply\<close>
  co_int_gpio :: bool
  co_internal_areg :: bool
  co_channels :: "codec_channel_config list"

record codec_driver_data =
  reg_page_cache :: u8
  codec_channels :: "codec_channel_data list"
  suspend_time_msec :: int
  codec_started :: bool
  codec_calls :: trace

text \<open>The platform: the calls and the two functions on linear ranges.\<close>

record codec_platform =
  co_env :: env
  co_config :: codec_driver_config
  co_lr :: lr_ops
  co_get_index :: "linear_range \<Rightarrow> int \<Rightarrow> int \<times> u16"

type_synonym 'a codec = "(codec_driver_data, 'a) state"

definition analog_gain_range :: linear_range where
  "analog_gain_range = \<lparr>lr_min = 0, lr_step = 1, lr_min_idx = 0, lr_max_idx = 84\<rparr>"

definition digital_gain_range :: linear_range where
  "digital_gain_range = \<lparr>lr_min = - 100 * 2, lr_step = 1, lr_min_idx = 1, lr_max_idx = 255\<rparr>"

definition co_call :: "codec_platform \<Rightarrow> ext_call \<Rightarrow> reply codec" where
  "co_call pf c = zoom codec_calls (\<lambda>t s. s\<lparr>codec_calls := t\<rparr>) (ext (co_env pf) c)"

definition co_ret :: "codec_platform \<Rightarrow> ext_call \<Rightarrow> int codec" where
  "co_ret pf c = do { r \<leftarrow> co_call pf c; return (r_ret r) }"

definition co_get :: "codec_driver_data codec" where
  "co_get = State (\<lambda>s. (s, s))"

definition co_upd :: "(codec_driver_data \<Rightarrow> codec_driver_data) \<Rightarrow> unit codec" where
  "co_upd f = State (\<lambda>s. ((), f s))"

lemma run_codec [simp]:
  "run_state (co_call pf c) s =
     (co_env pf (codec_calls s) c, s\<lparr>codec_calls := codec_calls s @ [(c, co_env pf (codec_calls s) c)]\<rparr>)"
  "run_state (co_ret pf c) s =
     (r_ret (co_env pf (codec_calls s) c), s\<lparr>codec_calls := codec_calls s @ [(c, co_env pf (codec_calls s) c)]\<rparr>)"
  "run_state co_get s = (s, s)"
  "run_state (co_upd f) s = ((), f s)"
  by (simp_all add: co_call_def co_ret_def co_get_def co_upd_def)

definition pm_get :: ext_call where "pm_get = SysCall ''pm_device_runtime_get'' []"
definition pm_put :: ext_call where "pm_put = SysCall ''pm_device_runtime_put_async'' [CODEC_MIN_SUSPEND_MSEC]"

section \<open>Access to the registers\<close>

definition codec_channel_to_index :: "audio_channel \<Rightarrow> nat option" where
  \<comment> \<open>\<open>None\<close> for \<open>-ENOTSUP\<close>\<close>
  "codec_channel_to_index ch =
     (if ch = AUDIO_CHANNEL_FRONT_LEFT then Some 1 else if ch = AUDIO_CHANNEL_FRONT_RIGHT then Some 2 else None)"

definition codec_get_channel_config :: "codec_platform \<Rightarrow> nat \<Rightarrow> codec_channel_config option" where
  "codec_get_channel_config pf ch =
     (if ch < 1 \<or> CODEC_NUM_CHANNELS < ch then None
      else find (\<lambda>c. cc_channel c = ch) (co_channels (co_config pf)))"

definition codec_get_channel_data :: "nat \<Rightarrow> codec_channel_data option codec" where
  "codec_get_channel_data ch =
     do { data \<leftarrow> co_get;
          return (if ch < 1 \<or> CODEC_NUM_CHANNELS < ch then None else Some (codec_channels data ! (ch - 1))) }"

definition set_channel_data :: "nat \<Rightarrow> (codec_channel_data \<Rightarrow> codec_channel_data) \<Rightarrow> unit codec" where
  \<comment> \<open>an assignment through the pointer \<open>codec_get_channel_data\<close> returns\<close>
  "set_channel_data ch f =
     co_upd (\<lambda>d. d\<lparr>codec_channels := (codec_channels d)[ch - 1 := f (codec_channels d ! (ch - 1))]\<rparr>)"

definition codec_set_page :: "codec_platform \<Rightarrow> u8 \<Rightarrow> int codec" where
  \<comment> \<open>set page if different\<close>
  "codec_set_page pf page =
     do { data \<leftarrow> co_get;
          if reg_page_cache data \<noteq> page then do {
            ret \<leftarrow> co_ret pf (I2cRegWrite (co_addr (co_config pf)) PAGE_CFG_ADDR page);
            if ret < 0 then return ret
            else do { co_upd (\<lambda>d. d\<lparr>reg_page_cache := page\<rparr>); return 0 } }
          else return 0 }"

definition codec_write_reg_no_pm :: "codec_platform \<Rightarrow> reg_addr \<Rightarrow> u8 \<Rightarrow> int codec" where
  "codec_write_reg_no_pm pf reg val =
     (case reg of RegAddr page addr \<Rightarrow>
       do { ret \<leftarrow> codec_set_page pf page;
            if ret < 0 then return ret
            else do {
              ret \<leftarrow> co_ret pf (I2cRegWrite (co_addr (co_config pf)) addr val);
              return (if ret < 0 then ret else 0) } })"

definition codec_write_reg :: "codec_platform \<Rightarrow> reg_addr \<Rightarrow> u8 \<Rightarrow> int codec" where
  "codec_write_reg pf reg val =
     do { ret \<leftarrow> co_ret pf pm_get;
          if ret \<noteq> 0 then return ret
          else do {
            ret \<leftarrow> codec_write_reg_no_pm pf reg val;
            _ \<leftarrow> co_call pf pm_put;
            return ret } }"

definition codec_read_reg :: "codec_platform \<Rightarrow> reg_addr \<Rightarrow> (int \<times> u8) codec" where
  \<comment> \<open>the result of the read itself is not assigned to \<open>ret\<close>\<close>
  "codec_read_reg pf reg =
     (case reg of RegAddr page addr \<Rightarrow>
       do { ret \<leftarrow> co_ret pf pm_get;
            if ret \<noteq> 0 then return (ret, 0)
            else do {
              ret \<leftarrow> codec_set_page pf page;
              if ret < 0 then do { _ \<leftarrow> co_call pf pm_put; return (ret, 0) }
              else do {
                r \<leftarrow> co_call pf (I2cRegRead (co_addr (co_config pf)) addr);
                _ \<leftarrow> co_call pf pm_put;
                return (0, r_byte r 0) } } })"

definition codec_soft_reset :: "codec_platform \<Rightarrow> int codec" where
  "codec_soft_reset pf =
     do { ret \<leftarrow> codec_write_reg pf SW_RESET_ADDR SW_RESET_ASSERT;
          if ret \<noteq> 0 then return ret
          else do {
            co_upd (\<lambda>d. d\<lparr>reg_page_cache := 0,
              codec_channels := map (\<lambda>c. c\<lparr>cd_dvol := CODEC_DEFAULT_DVOL, cd_mute := False\<rparr>) (codec_channels d)\<rparr>);
            return 0 } }"

section \<open>Configuration\<close>

definition codec_configure_power :: "codec_platform \<Rightarrow> bool \<Rightarrow> int codec" where
  "codec_configure_power pf sleep =
     codec_write_reg_no_pm pf SLEEP_CFG_ADDR
       (FIELD_PREP SLEEP_CFG_VREF_QCHG SLEEP_CFG_VREF_QCHG_3_5_MS OR
        (if co_internal_areg (co_config pf) then SLEEP_CFG_AREG_SELECT else 0) OR
        (if sleep then 0 else SLEEP_CFG_SLEEP_ENZ))"

datatype i2s_format = I2S_FMT_DATA_FORMAT_I2S | I2S_FMT_DATA_FORMAT_PCM_LONG | I2S_FMT_DATA_FORMAT_LEFT_JUSTIFIED
  | I2S_FMT_DATA_FORMAT_RIGHT_JUSTIFIED | I2S_FMT_DATA_FORMAT_OTHER

record i2s_config =
  word_size :: nat
  data_format :: i2s_format
  order_lsb :: bool
  bit_clk_inv :: bool
  frame_clk_inv :: bool
  bit_clk_slave :: bool
  frame_clk_slave :: bool
  bit_clk_gated :: bool

definition dai_word_length :: "nat \<Rightarrow> u8 option" where
  "dai_word_length width =
     (if width = 16 then Some ASI_CFG0_ASI_WLEN_16 else if width = 20 then Some ASI_CFG0_ASI_WLEN_20
      else if width = 24 then Some ASI_CFG0_ASI_WLEN_24 else if width = 32 then Some ASI_CFG0_ASI_WLEN_32 else None)"

definition dai_format :: "i2s_format \<Rightarrow> u8 option" where
  "dai_format fmt =
     (case fmt of I2S_FMT_DATA_FORMAT_I2S \<Rightarrow> Some ASI_CFG0_ASI_FORMAT_I2S
      | I2S_FMT_DATA_FORMAT_PCM_LONG \<Rightarrow> Some ASI_CFG0_ASI_FORMAT_TDM
      | I2S_FMT_DATA_FORMAT_LEFT_JUSTIFIED \<Rightarrow> Some ASI_CFG0_ASI_FORMAT_LJ
      | _ \<Rightarrow> None)"

definition codec_configure_dai :: "codec_platform \<Rightarrow> i2s_config \<Rightarrow> int codec" where
  "codec_configure_dai pf cfg =
     (case dai_word_length (word_size cfg) of
        None \<Rightarrow> return (- EINVAL)
      | Some wlen \<Rightarrow>
          (case dai_format (data_format cfg) of
             None \<Rightarrow> return (- EINVAL)
           | Some fmt \<Rightarrow>
               if order_lsb cfg then return (- EINVAL)
               else do {
                 ret \<leftarrow> codec_write_reg pf ASI_CFG0_ADDR
                   (FIELD_PREP ASI_CFG0_ASI_WLEN wlen OR FIELD_PREP ASI_CFG0_ASI_FORMAT fmt OR
                    (if bit_clk_inv cfg then ASI_CFG0_BCLK_POL else 0) OR
                    (if frame_clk_inv cfg then ASI_CFG0_FSYNC_POL else 0));
                 if ret < 0 then return ret
                 else if bit_clk_slave cfg \<noteq> frame_clk_slave cfg then return (- EINVAL)
                 else codec_write_reg pf MST_CFG0_ADDR
                   (FIELD_PREP MST_CFG0_MCLK_FREQ_SEL MST_CFG0_MCLK_FREQ_SEL_13_MHZ OR
                    (if bit_clk_slave cfg then MST_CFG0_MST_SLV_CFG else 0) OR
                    (if bit_clk_gated cfg then MST_CFG0_BCLK_FSYNC_GATE else 0)) }))"

definition impedance_code :: "nat \<Rightarrow> u8 option" where
  "impedance_code ohms =
     (if ohms = 2500 then Some CH_CFG0_IMP_2_5_KOHM else if ohms = 10000 then Some CH_CFG0_IMP_10_KOHM
      else if ohms = 20000 then Some CH_CFG0_IMP_20_KOHM else None)"

definition cfg0_value :: "bool \<Rightarrow> bool \<Rightarrow> u8 \<Rightarrow> bool \<Rightarrow> u8" where
  "cfg0_value line_in dc_coupled imp dre =
     (if line_in then CH_CFG0_INTYP else 0) OR (if dc_coupled then CH_CFG0_DC else 0) OR
     FIELD_PREP CH_CFG0_IMP imp OR (if dre then CH_CFG0_DREEN else 0)"

definition codec_set_cfg0_analog :: "codec_platform \<Rightarrow> nat \<Rightarrow> bool \<Rightarrow> bool \<Rightarrow> nat \<Rightarrow> bool \<Rightarrow> int codec" where
  "codec_set_cfg0_analog pf ch line_in dc_coupled impedance dre =
     (if ch < 1 \<or> CODEC_NUM_ANALOG_CHANNELS < ch then return (- ENOTSUP)
      else case impedance_code impedance of
        None \<Rightarrow> return (- EINVAL)
      | Some imp \<Rightarrow> codec_write_reg pf (CH_CFG0_ADDR ch) (cfg0_value line_in dc_coupled imp dre))"

fun configure_channels :: "codec_platform \<Rightarrow> codec_channel_config list \<Rightarrow> u8 \<Rightarrow> u8 \<Rightarrow> (int + u8 \<times> u8) codec" where
  \<comment> \<open>the loop of \<open>codec_configure_input\<close>, with the two masks\<close>
  "configure_channels pf [] in_en out_en = return (Inr (in_en, out_en))"
| "configure_channels pf (c # cs) in_en out_en =
     (if cc_channel c < 1 \<or> CODEC_NUM_CHANNELS < cc_channel c then return (Inl (- EINVAL))
      else do {
        ret \<leftarrow> (if cc_channel c \<le> CODEC_NUM_ANALOG_CHANNELS
                 then codec_set_cfg0_analog pf (cc_channel c) (cc_line_in c) (cc_dc_coupled c) (cc_impedance_ohms c) False
                 else return 0);
        if ret < 0 then return (Inl ret)
        else if 63 < cc_slot c then return (Inl (- EINVAL))
        else do {
          ret \<leftarrow> codec_write_reg pf (ASI_CH_ADDR (cc_channel c)) (FIELD_PREP ASI_CH_SLOT (of_nat (cc_slot c)));
          if ret < 0 then return (Inl ret)
          else configure_channels pf cs (in_en OR IN_CH_EN (cc_channel c)) (out_en OR ASI_OUT_CH_EN (cc_channel c)) } })"

definition codec_configure_input :: "codec_platform \<Rightarrow> int codec" where
  "codec_configure_input pf =
     (if CODEC_NUM_CHANNELS < length (co_channels (co_config pf)) then return (- EINVAL)
      else do {
        r \<leftarrow> configure_channels pf (co_channels (co_config pf)) 0 0;
        case r of
          Inl ret \<Rightarrow> return ret
        | Inr (in_ch_en, asi_out_ch_en) \<Rightarrow> do {
            ret \<leftarrow> codec_write_reg pf IN_CH_EN_ADDR in_ch_en;
            if ret < 0 then return ret else codec_write_reg pf ASI_OUT_CH_EN_ADDR asi_out_ch_en } })"

section \<open>Gains, mute and impedance\<close>

definition codec_get_analog_gain :: "codec_platform \<Rightarrow> nat \<Rightarrow> (int \<times> int) codec" where
  \<comment> \<open>the result and the gain\<close>
  "codec_get_analog_gain pf ch =
     (if ch < 1 \<or> CODEC_NUM_ANALOG_CHANNELS < ch then return (- ENOTSUP, 0)
      else do {
        (ret, val) \<leftarrow> codec_read_reg pf (CH_CFG1_ADDR ch);
        if ret \<noteq> 0 then return (ret, 0)
        else return (lr_get_value (co_lr pf) analog_gain_range (ucast (FIELD_GET CH_CFG1_GAIN val))) })"

definition codec_set_analog_gain :: "codec_platform \<Rightarrow> nat \<Rightarrow> int \<Rightarrow> int codec" where
  "codec_set_analog_gain pf ch gain =
     (if ch < 1 \<or> CODEC_NUM_ANALOG_CHANNELS < ch then return (- ENOTSUP)
      else case co_get_index pf analog_gain_range gain of (ret, idx) \<Rightarrow>
        if ret \<noteq> 0 then return ret
        else codec_write_reg pf (CH_CFG1_ADDR ch) (FIELD_PREP CH_CFG1_GAIN (ucast idx)))"

definition codec_get_digital_gain :: "codec_platform \<Rightarrow> nat \<Rightarrow> (int \<times> int) codec" where
  "codec_get_digital_gain pf ch =
     do { cd \<leftarrow> codec_get_channel_data ch;
          return (case cd of None \<Rightarrow> (- EINVAL, 0)
                  | Some c \<Rightarrow> lr_get_value (co_lr pf) digital_gain_range (ucast (cd_dvol c))) }"

definition codec_set_digital_gain :: "codec_platform \<Rightarrow> nat \<Rightarrow> int \<Rightarrow> int codec" where
  "codec_set_digital_gain pf ch gain =
     do { cd \<leftarrow> codec_get_channel_data ch;
          case cd of
            None \<Rightarrow> return (- EINVAL)
          | Some c \<Rightarrow>
              (case co_get_index pf digital_gain_range gain of (ret, dvol) \<Rightarrow>
                 if ret \<noteq> 0 then return ret
                 else if dvol = ucast (cd_dvol c) then return 0
                 else do {
                   ret \<leftarrow> (if \<not> cd_mute c then codec_write_reg pf (CH_CFG2_ADDR ch) (FIELD_PREP CH_CFG2_DVOL (ucast dvol))
                            else return 0);
                   if ret \<noteq> 0 then return ret
                   else do { set_channel_data ch (\<lambda>c. c\<lparr>cd_dvol := ucast dvol\<rparr>); return 0 } }) }"

definition codec_get_mute :: "nat \<Rightarrow> (int + bool) codec" where
  "codec_get_mute ch =
     do { cd \<leftarrow> codec_get_channel_data ch;
          return (case cd of None \<Rightarrow> Inl (- EINVAL) | Some c \<Rightarrow> Inr (cd_mute c)) }"

definition codec_set_mute :: "codec_platform \<Rightarrow> nat \<Rightarrow> bool \<Rightarrow> int codec" where
  "codec_set_mute pf ch mute =
     do { cd \<leftarrow> codec_get_channel_data ch;
          case cd of
            None \<Rightarrow> return (- EINVAL)
          | Some c \<Rightarrow>
              if mute = cd_mute c then return 0
              else do {
                ret \<leftarrow> codec_write_reg pf (CH_CFG2_ADDR ch) (FIELD_PREP CH_CFG2_DVOL (if mute then 0 else cd_dvol c));
                if ret \<noteq> 0 then return ret
                else do { set_channel_data ch (\<lambda>c. c\<lparr>cd_mute := mute\<rparr>); return 0 } } }"

definition impedance_of_code :: "u8 \<Rightarrow> nat option" where
  "impedance_of_code imp =
     (if imp = CH_CFG0_IMP_2_5_KOHM then Some 2500 else if imp = CH_CFG0_IMP_10_KOHM then Some 10000
      else if imp = CH_CFG0_IMP_20_KOHM then Some 20000 else None)"

definition codec_get_impedance :: "codec_platform \<Rightarrow> nat \<Rightarrow> (int + nat) codec" where
  "codec_get_impedance pf ch =
     (if ch < 1 \<or> CODEC_NUM_CHANNELS < ch then return (Inl (- EINVAL))
      else if CODEC_NUM_ANALOG_CHANNELS < ch then return (Inl (- ENOTSUP))
      else do {
        (ret, val) \<leftarrow> codec_read_reg pf (CH_CFG0_ADDR ch);
        if ret \<noteq> 0 then return (Inl ret)
        else return (case impedance_of_code (FIELD_GET CH_CFG0_IMP val) of None \<Rightarrow> Inl (- EINVAL) | Some ohms \<Rightarrow> Inr ohms) })"

definition codec_set_impedance :: "codec_platform \<Rightarrow> nat \<Rightarrow> nat \<Rightarrow> int codec" where
  "codec_set_impedance pf ch impedance =
     (if ch < 1 \<or> CODEC_NUM_CHANNELS < ch then return (- EINVAL)
      else if CODEC_NUM_ANALOG_CHANNELS < ch then return (- ENOTSUP)
      else case codec_get_channel_config pf ch of
        Some c \<Rightarrow> codec_set_cfg0_analog pf ch (cc_line_in c) (cc_dc_coupled c) impedance False
      | None \<Rightarrow> codec_set_cfg0_analog pf ch False False impedance False)"

section \<open>The driver's functions\<close>

definition codec_initialize :: "codec_platform \<Rightarrow> int codec" where
  "codec_initialize pf =
     do { i2c \<leftarrow> co_ret pf (I2cReady (co_addr (co_config pf)));
          if i2c = 0 then return (- ENODEV)
          else do {
            ret \<leftarrow> (if co_avdd (co_config pf) then do {
                      ready \<leftarrow> co_ret pf (DeviceReady ''avdd'');
                      if ready = 0 then return (- ENODEV) else co_ret pf (SysCall ''regulator_enable'' []) }
                    else return 0);
            if ret \<noteq> 0 then return ret
            else do {
              ret \<leftarrow> seq_neg [codec_soft_reset pf, codec_configure_power pf False, codec_configure_input pf,
                (if co_int_gpio (co_config pf) then do {
                   ready \<leftarrow> co_ret pf (GpioReady ''int'');
                   if ready = 0 then return (- ENODEV) else co_ret pf (GpioConfigure ''int'' ''input'') }
                 else return 0)];
              if ret < 0 then return ret else co_ret pf (SysCall ''pm_device_runtime_enable'' []) } } }"

definition codec_configure :: "codec_platform \<Rightarrow> i2s_config option \<Rightarrow> int codec" where
  \<comment> \<open>\<open>None\<close> for another type of interface\<close>
  "codec_configure pf cfg = (case cfg of None \<Rightarrow> return (- EINVAL) | Some c \<Rightarrow> codec_configure_dai pf c)"

definition codec_start_input :: "codec_platform \<Rightarrow> int codec" where
  "codec_start_input pf =
     do { data \<leftarrow> co_get;
          if codec_started data then return (- EALREADY)
          else do {
            ret \<leftarrow> co_ret pf pm_get;
            if ret \<noteq> 0 then return ret
            else do {
              ret \<leftarrow> codec_write_reg pf PWR_CFG_ADDR (PWR_CFG_ADC_PDZ OR PWR_CFG_PLL_PDZ);
              if ret \<noteq> 0 then do { _ \<leftarrow> co_call pf pm_put; return ret }
              else do { co_upd (\<lambda>d. d\<lparr>codec_started := True\<rparr>); return 0 } } } }"

definition codec_stop_input :: "codec_platform \<Rightarrow> int codec" where
  "codec_stop_input pf =
     do { data \<leftarrow> co_get;
          if \<not> codec_started data then return (- EALREADY)
          else do {
            ret \<leftarrow> codec_write_reg pf PWR_CFG_ADDR 0;
            if ret \<noteq> 0 then return ret
            else do {
              ret \<leftarrow> co_ret pf pm_put;
              if ret \<noteq> 0 then return ret
              else do { co_upd (\<lambda>d. d\<lparr>codec_started := False\<rparr>); return 0 } } } }"

datatype codec_value = Gain int | Mute bool | Impedance nat

definition codec_get_property :: "codec_platform \<Rightarrow> input_codec_property \<Rightarrow> audio_channel \<Rightarrow> (int + codec_value) codec" where
  \<comment> \<open>\<open>Inl\<close> an error, else what is stored in the union\<close>
  "codec_get_property pf prop ch =
     (case codec_channel_to_index ch of
        None \<Rightarrow> return (Inl (- ENOTSUP))
      | Some n \<Rightarrow>
          (case prop of
             INPUT_CODEC_PROPERTY_ANALOG_GAIN \<Rightarrow>
               do { (ret, g) \<leftarrow> codec_get_analog_gain pf n; return (if ret \<noteq> 0 then Inl ret else Inr (Gain g)) }
           | INPUT_CODEC_PROPERTY_DIGITAL_GAIN \<Rightarrow>
               do { (ret, g) \<leftarrow> codec_get_digital_gain pf n; return (if ret \<noteq> 0 then Inl ret else Inr (Gain g)) }
           | INPUT_CODEC_PROPERTY_MUTE \<Rightarrow> do { r \<leftarrow> codec_get_mute n; return (map_sum id Mute r) }
           | INPUT_CODEC_PROPERTY_IMPEDANCE \<Rightarrow> do { r \<leftarrow> codec_get_impedance pf n; return (map_sum id Impedance r) }
           | INPUT_CODEC_PROPERTY_SOURCE \<Rightarrow> return (Inl (- ENOTSUP))))"

definition codec_set_property :: "codec_platform \<Rightarrow> input_codec_property \<Rightarrow> audio_channel \<Rightarrow> u32 \<Rightarrow> int codec" where
  \<comment> \<open>the bits of the union; a gain is signed, a boolean is the lowest byte\<close>
  "codec_set_property pf prop ch v =
     (case codec_channel_to_index ch of
        None \<Rightarrow> return (- ENOTSUP)
      | Some n \<Rightarrow>
          (case prop of
             INPUT_CODEC_PROPERTY_ANALOG_GAIN \<Rightarrow> codec_set_analog_gain pf n (sint v)
           | INPUT_CODEC_PROPERTY_DIGITAL_GAIN \<Rightarrow> codec_set_digital_gain pf n (sint v)
           | INPUT_CODEC_PROPERTY_MUTE \<Rightarrow> codec_set_mute pf n ((ucast v :: u8) \<noteq> 0)
           | INPUT_CODEC_PROPERTY_IMPEDANCE \<Rightarrow> codec_set_impedance pf n (unat v)
           | INPUT_CODEC_PROPERTY_SOURCE \<Rightarrow> return (- ENOTSUP)))"

definition codec_apply_properties :: "int codec" where
  "codec_apply_properties = return 0"

definition codec_pm_action :: "codec_platform \<Rightarrow> bool option \<Rightarrow> int codec" where
  \<comment> \<open>suspend, resume or, for \<open>None\<close>, another action\<close>
  "codec_pm_action pf action =
     (case action of
        None \<Rightarrow> return (- ENOTSUP)
      | Some sleep \<Rightarrow> do {
          _ \<leftarrow> (if \<not> sleep then do {
                  now \<leftarrow> co_call pf UptimeGet;
                  data \<leftarrow> co_get;
                  let suspend_duration_msec = r_num now - suspend_time_msec data;
                  (if suspend_duration_msec < int CODEC_MIN_SUSPEND_MSEC
                   then do { _ \<leftarrow> co_call pf (MSleep (nat (int CODEC_MIN_SUSPEND_MSEC - suspend_duration_msec))); return () }
                   else return ()) }
                else return ());
          ret \<leftarrow> codec_configure_power pf sleep;
          if ret \<noteq> 0 then return ret
          else if sleep then do {
            now \<leftarrow> co_call pf UptimeGet;
            co_upd (\<lambda>d. d\<lparr>suspend_time_msec := r_num now\<rparr>);
            return 0 }
          else do { _ \<leftarrow> co_call pf (MSleep 1); return 0 } })"

fun read_regs :: "codec_platform \<Rightarrow> reg_addr list \<Rightarrow> unit codec" where
  "read_regs pf [] = return ()"
| "read_regs pf (r # rs) = do { _ \<leftarrow> codec_read_reg pf r; read_regs pf rs }"

definition codec_read_all_regs :: "codec_platform \<Rightarrow> unit codec" where
  \<comment> \<open>called by \<open>codec_start_input\<close> in builds that log at the debug level only\<close>
  "codec_read_all_regs pf = read_regs pf
     ([SW_RESET_ADDR, SLEEP_CFG_ADDR, SHDN_CFG_ADDR, ASI_CFG0_ADDR, ASI_CFG1_ADDR, ASI_CFG2_ADDR, ASI_MIX_CFG_ADDR,
       ASI_CH_ADDR 1, ASI_CH_ADDR 2, ASI_CH_ADDR 3, ASI_CH_ADDR 4, MST_CFG0_ADDR, MST_CFG1_ADDR] @
      concat (map (\<lambda>ch. (if ch \<le> CODEC_NUM_ANALOG_CHANNELS then [CH_CFG0_ADDR ch, CH_CFG1_ADDR ch] else []) @
                 [CH_CFG2_ADDR ch, CH_CFG3_ADDR ch, CH_CFG4_ADDR ch]) [1..<Suc CODEC_NUM_CHANNELS]) @
      [IN_CH_EN_ADDR, ASI_OUT_CH_EN_ADDR, PWR_CFG_ADDR])"

section \<open>The volume registers\<close>

text \<open>
  The registers of the chip after a trace of calls: a write that succeeds changes the addressed register of the
  current page, a write to the page register the page, and the software reset restores the defaults \<open>d\<close>.
\<close>

record adc_chip =
  chip_page :: u8
  chip_reg :: "u8 \<Rightarrow> u8 \<Rightarrow> u8"

definition adc_step :: "u8 \<Rightarrow> (u8 \<Rightarrow> u8 \<Rightarrow> u8) \<Rightarrow> adc_chip \<Rightarrow> ext_call \<times> reply \<Rightarrow> adc_chip" where
  "adc_step addr d chip ev =
     (case fst ev of
        I2cRegWrite a r v \<Rightarrow>
          if a \<noteq> addr \<or> r_ret (snd ev) < 0 then chip
          else if r = PAGE_CFG_ADDR then chip\<lparr>chip_page := v\<rparr>
          else if RegAddr (chip_page chip) r = SW_RESET_ADDR \<and> v = SW_RESET_ASSERT then \<lparr>chip_page = 0, chip_reg = d\<rparr>
          else chip\<lparr>chip_reg := (chip_reg chip)(chip_page chip := (chip_reg chip (chip_page chip))(r := v))\<rparr>
      | _ \<Rightarrow> chip)"

definition chip_of :: "codec_platform \<Rightarrow> (u8 \<Rightarrow> u8 \<Rightarrow> u8) \<Rightarrow> codec_driver_data \<Rightarrow> adc_chip" where
  "chip_of pf d s = foldl (adc_step (co_addr (co_config pf)) d) \<lparr>chip_page = 0, chip_reg = d\<rparr> (codec_calls s)"

definition volume_reg :: "nat \<Rightarrow> u8" where
  "volume_reg ch = of_nat (0x3e + (ch - 1) * 5)"

definition adc_defaults :: "(u8 \<Rightarrow> u8 \<Rightarrow> u8) \<Rightarrow> bool" where
  "adc_defaults d \<longleftrightarrow> (\<forall>ch \<in> {1..4}. d 0 (volume_reg ch) = CODEC_DEFAULT_DVOL)"

definition paged :: "codec_platform \<Rightarrow> (u8 \<Rightarrow> u8 \<Rightarrow> u8) \<Rightarrow> codec_driver_data \<Rightarrow> bool" where
  "paged pf d s \<longleftrightarrow> reg_page_cache s = 0 \<and> chip_page (chip_of pf d s) = 0 \<and> length (codec_channels s) = 4"

definition volumes_agree :: "codec_platform \<Rightarrow> (u8 \<Rightarrow> u8 \<Rightarrow> u8) \<Rightarrow> codec_driver_data \<Rightarrow> bool" where
  "volumes_agree pf d s \<longleftrightarrow> paged pf d s \<and>
     (\<forall>ch \<in> {1..4}. chip_reg (chip_of pf d s) 0 (volume_reg ch) =
        (let c = codec_channels s ! (ch - 1) in if cd_mute c then 0 else cd_dvol c))"

lemma volume_reg_values: "ch \<in> {1..4} \<Longrightarrow> volume_reg ch \<in> {0x3e, 0x43, 0x48, 0x4d}"
  by (auto simp: volume_reg_def atLeastAtMost_iff le_Suc_eq numeral_eq_Suc)

lemma chip_of_call:
  "chip_of pf d (s\<lparr>codec_calls := codec_calls s @ evs\<rparr>) = foldl (adc_step (co_addr (co_config pf)) d) (chip_of pf d s) evs"
  by (simp add: chip_of_def)

lemma chip_of_same [simp]:
  "chip_of pf d (s\<lparr>reg_page_cache := x\<rparr>) = chip_of pf d s" "chip_of pf d (s\<lparr>codec_channels := cs\<rparr>) = chip_of pf d s"
  "chip_of pf d (s\<lparr>suspend_time_msec := t\<rparr>) = chip_of pf d s" "chip_of pf d (s\<lparr>codec_started := b\<rparr>) = chip_of pf d s"
  by (simp_all add: chip_of_def)

definition adc_written :: "(u8 \<Rightarrow> u8 \<Rightarrow> u8) \<Rightarrow> u8 \<Rightarrow> u8 \<Rightarrow> adc_chip \<Rightarrow> adc_chip" where
  "adc_written d a v chip =
     (if RegAddr 0 a = SW_RESET_ADDR \<and> v = SW_RESET_ASSERT then \<lparr>chip_page = 0, chip_reg = d\<rparr>
      else chip\<lparr>chip_reg := (chip_reg chip)(0 := (chip_reg chip 0)(a := v))\<rparr>)"

lemma page_set: "paged pf d s \<Longrightarrow> run_state (codec_set_page pf 0) s = (0, s)"
  by (simp add: codec_set_page_def paged_def)

lemma adc_write:
  "chip_page chip = 0 \<Longrightarrow> a \<noteq> 0 \<Longrightarrow> adc_step addr d chip (I2cRegWrite addr a v, rep) =
    (if r_ret rep < 0 then chip else adc_written d a v chip)"
  by (simp add: adc_step_def adc_written_def PAGE_CFG_ADDR_def)

lemma write_reg_no_pm_effect:
  assumes "paged pf d s" "a \<noteq> 0" "run_state (codec_write_reg_no_pm pf (RegAddr 0 a) v) s = (r, s')"
  shows "\<exists>evs. s' = s\<lparr>codec_calls := codec_calls s @ evs\<rparr> \<and>
    chip_of pf d s' = (if r = 0 then adc_written d a v (chip_of pf d s) else chip_of pf d s)"
proof -
  let ?c = "I2cRegWrite (co_addr (co_config pf)) a v"
  have "s' = s\<lparr>codec_calls := codec_calls s @ [(?c, co_env pf (codec_calls s) ?c)]\<rparr>"
    and "r = (if r_ret (co_env pf (codec_calls s) ?c) < 0 then r_ret (co_env pf (codec_calls s) ?c) else 0)"
    using assms(3) page_set [OF assms(1)] by (auto simp: codec_write_reg_no_pm_def)
  moreover have "chip_page (chip_of pf d s) = 0" using assms(1) by (simp add: paged_def)
  ultimately show ?thesis using assms(2)
    by (intro exI [of _ "[(?c, co_env pf (codec_calls s) ?c)]"]) (simp add: chip_of_call adc_write)
qed

lemma no_write [simp]: "adc_step addr d chip (pm_get, rep) = chip" "adc_step addr d chip (pm_put, rep) = chip"
  by (simp_all add: adc_step_def pm_get_def pm_put_def)

lemma write_reg_effect:
  assumes "paged pf d s" "a \<noteq> 0" "run_state (codec_write_reg pf (RegAddr 0 a) v) s = (r, s')"
  shows "\<exists>evs. s' = s\<lparr>codec_calls := codec_calls s @ evs\<rparr> \<and>
    chip_of pf d s' = (if r = 0 then adc_written d a v (chip_of pf d s) else chip_of pf d s)"
proof -
  define t where "t = s\<lparr>codec_calls := codec_calls s @ [(pm_get, co_env pf (codec_calls s) pm_get)]\<rparr>"
  have chip: "chip_of pf d t = chip_of pf d s" by (simp add: t_def chip_of_call)
  show ?thesis
  proof (cases "r_ret (co_env pf (codec_calls s) pm_get) = 0")
    case False
    then have "r \<noteq> 0" "s' = t" using assms(3) by (auto simp: codec_write_reg_def t_def)
    then show ?thesis using chip by (auto simp: t_def)
  next
    case True
    obtain r1 u where u: "run_state (codec_write_reg_no_pm pf (RegAddr 0 a) v) t = (r1, u)" by fastforce
    have "paged pf d t" using assms(1) chip by (simp add: paged_def t_def)
    from write_reg_no_pm_effect [OF this assms(2) u] obtain evs where e: "u = t\<lparr>codec_calls := codec_calls t @ evs\<rparr>"
      "chip_of pf d u = (if r1 = 0 then adc_written d a v (chip_of pf d t) else chip_of pf d t)" by blast
    have "r = r1" "s' = u\<lparr>codec_calls := codec_calls u @ [(pm_put, co_env pf (codec_calls u) pm_put)]\<rparr>"
      using assms(3) True u by (auto simp: codec_write_reg_def t_def [symmetric])
    moreover from this have "chip_of pf d s' = chip_of pf d u" by (simp add: chip_of_call)
    moreover have "s' = s\<lparr>codec_calls := codec_calls s @ ((pm_get, co_env pf (codec_calls s) pm_get) # evs @
        [(pm_put, co_env pf (codec_calls u) pm_put)])\<rparr>"
      using calculation e(1) by (simp add: t_def)
    ultimately show ?thesis using e(2) chip by metis
  qed
qed

definition codec_keeps :: "codec_platform \<Rightarrow> (u8 \<Rightarrow> u8 \<Rightarrow> u8) \<Rightarrow> 'a codec \<Rightarrow> bool" where
  "codec_keeps pf d m \<longleftrightarrow> (\<forall>s. volumes_agree pf d s \<longrightarrow> volumes_agree pf d (snd (run_state m s)))"

named_theorems codec_keeps_intros \<open>code that keeps the volumes in agreement\<close>

lemma keeps_return [codec_keeps_intros]: "codec_keeps pf d (return x)" "codec_keeps pf d co_get"
  by (simp_all add: codec_keeps_def)

lemma keeps_bind [codec_keeps_intros]:
  "codec_keeps pf d m \<Longrightarrow> (\<And>x. codec_keeps pf d (f x)) \<Longrightarrow> codec_keeps pf d (State_Monad.bind m f)"
  unfolding codec_keeps_def by (auto split: prod.splits)

lemma keeps_if [codec_keeps_intros]: "(b \<Longrightarrow> codec_keeps pf d m) \<Longrightarrow> (\<not> b \<Longrightarrow> codec_keeps pf d n) \<Longrightarrow>
    codec_keeps pf d (if b then m else n)"
  by simp

lemma keeps_option [codec_keeps_intros]: "codec_keeps pf d m \<Longrightarrow> (\<And>x. codec_keeps pf d (f x)) \<Longrightarrow>
    codec_keeps pf d (case opt of None \<Rightarrow> m | Some x \<Rightarrow> f x)"
  by (cases opt) simp_all

lemma keeps_prod [codec_keeps_intros]: "(\<And>a b. codec_keeps pf d (f a b)) \<Longrightarrow> codec_keeps pf d (case p of (a, b) \<Rightarrow> f a b)"
  by (cases p) simp

lemma keeps_sum [codec_keeps_intros]: "(\<And>a. codec_keeps pf d (f a)) \<Longrightarrow> (\<And>b. codec_keeps pf d (g b)) \<Longrightarrow>
    codec_keeps pf d (case x of Inl a \<Rightarrow> f a | Inr b \<Rightarrow> g b)"
  by (cases x) simp_all

lemma keeps_call [codec_keeps_intros]:
  assumes "\<And>a r v. c \<noteq> I2cRegWrite a r v"
  shows "codec_keeps pf d (co_call pf c)" "codec_keeps pf d (co_ret pf c)"
proof -
  have "adc_step addr d chip (c, rep) = chip" for addr chip rep
    using assms by (cases c) (auto simp: adc_step_def)
  then show "codec_keeps pf d (co_call pf c)" "codec_keeps pf d (co_ret pf c)"
    by (simp_all add: codec_keeps_def volumes_agree_def paged_def chip_of_call)
qed

fun other_register :: "reg_addr \<Rightarrow> bool" where
  \<comment> \<open>neither the page, the reset nor a volume register\<close>
  "other_register (RegAddr page a) \<longleftrightarrow> page = 0 \<and> a \<notin> {0, 0x01, 0x3e, 0x43, 0x48, 0x4d}"

lemma volumes_other_write:
  assumes "volumes_agree pf d s" "other_register (RegAddr 0 a)" "s' = s\<lparr>codec_calls := codec_calls s @ evs\<rparr>"
    and "chip_of pf d s' = (if r = 0 then adc_written d a v (chip_of pf d s) else chip_of pf d s)"
  shows "volumes_agree pf d s'"
proof -
  have "volume_reg ch \<noteq> a" if "ch \<in> {1..4}" for ch using assms(2) volume_reg_values [OF that] by auto
  moreover have "chip_of pf d s' = chip_of pf d s \<or>
      chip_of pf d s' = (chip_of pf d s)\<lparr>chip_reg := (chip_reg (chip_of pf d s))(0 := (chip_reg (chip_of pf d s) 0)(a := v))\<rparr>"
    using assms(2,4) by (auto simp: adc_written_def SW_RESET_ADDR_def)
  ultimately have "chip_page (chip_of pf d s') = chip_page (chip_of pf d s)"
    and "ch \<in> {1..4} \<Longrightarrow> chip_reg (chip_of pf d s') 0 (volume_reg ch) = chip_reg (chip_of pf d s) 0 (volume_reg ch)" for ch
    by auto
  then show ?thesis using assms(1) by (simp add: assms(3) volumes_agree_def paged_def)
qed

lemma keeps_write [codec_keeps_intros]:
  assumes "other_register reg"
  shows "codec_keeps pf d (codec_write_reg pf reg v)" "codec_keeps pf d (codec_write_reg_no_pm pf reg v)"
proof -
  obtain a where reg: "reg = RegAddr 0 a" and a: "a \<noteq> 0" using assms by (cases reg) auto
  show "codec_keeps pf d (codec_write_reg pf reg v)"
    unfolding codec_keeps_def
  proof (intro allI impI)
    fix s assume s: "volumes_agree pf d s"
    then have "paged pf d s" by (simp add: volumes_agree_def)
    from write_reg_effect [OF this a prod.collapse [symmetric]] obtain evs where
      "snd (run_state (codec_write_reg pf reg v) s) = s\<lparr>codec_calls := codec_calls s @ evs\<rparr>"
      "chip_of pf d (snd (run_state (codec_write_reg pf reg v) s)) =
        (if fst (run_state (codec_write_reg pf reg v) s) = 0 then adc_written d a v (chip_of pf d s) else chip_of pf d s)"
      unfolding reg by blast
    then show "volumes_agree pf d (snd (run_state (codec_write_reg pf reg v) s))"
      using volumes_other_write [OF s] assms unfolding reg by blast
  qed
  show "codec_keeps pf d (codec_write_reg_no_pm pf reg v)"
    unfolding codec_keeps_def
  proof (intro allI impI)
    fix s assume s: "volumes_agree pf d s"
    then have "paged pf d s" by (simp add: volumes_agree_def)
    from write_reg_no_pm_effect [OF this a prod.collapse [symmetric]] obtain evs where
      "snd (run_state (codec_write_reg_no_pm pf reg v) s) = s\<lparr>codec_calls := codec_calls s @ evs\<rparr>"
      "chip_of pf d (snd (run_state (codec_write_reg_no_pm pf reg v) s)) =
        (if fst (run_state (codec_write_reg_no_pm pf reg v) s) = 0 then adc_written d a v (chip_of pf d s) else chip_of pf d s)"
      unfolding reg by blast
    then show "volumes_agree pf d (snd (run_state (codec_write_reg_no_pm pf reg v) s))"
      using volumes_other_write [OF s] assms unfolding reg by blast
  qed
qed

lemma keeps_set_page [codec_keeps_intros]: "codec_keeps pf d (codec_set_page pf 0)"
  by (auto simp: codec_keeps_def volumes_agree_def page_set)

lemma keeps_read [codec_keeps_intros]: "codec_keeps pf d (codec_read_reg pf (RegAddr 0 a))"
  unfolding codec_read_reg_def reg_addr.case
  by (intro codec_keeps_intros) (simp_all add: pm_get_def pm_put_def)

lemma keeps_upd [codec_keeps_intros]:
  "codec_keeps pf d (co_upd (\<lambda>s. s\<lparr>codec_started := b\<rparr>))" "codec_keeps pf d (co_upd (\<lambda>s. s\<lparr>suspend_time_msec := t\<rparr>))"
  by (simp_all add: codec_keeps_def volumes_agree_def paged_def)

lemma prep_dvol [simp]: "FIELD_PREP CH_CFG2_DVOL v = v"
proof -
  have "(mask 8 :: u8) = - 1" by (simp add: mask_eq_exp_minus_1)
  then show ?thesis by (simp add: FIELD_PREP_def CH_CFG2_DVOL_def GENMASK_def LSB_GET_def)
qed

lemma unat_volume_reg:
  assumes "ch \<in> {1..4}"
  shows "unat (volume_reg ch) = 0x3e + (ch - 1) * 5"
proof -
  have "ch - 1 \<le> 3" using assms by auto
  then have "0x3e + (ch - 1) * 5 < 2 ^ 8" by simp
  then have "take_bit 8 (0x3e + (ch - 1) * 5) = 0x3e + (ch - 1) * 5" by (rule take_bit_nat_eq_self)
  then show ?thesis unfolding volume_reg_def unsigned_of_nat by simp
qed

lemma channel_at:
  assumes "length cs = 4" "ch \<in> {1..4}" "k \<in> {1..4}"
  shows "cs[ch - 1 := c] ! (k - 1) = (if k = ch then c else cs ! (k - 1))"
proof -
  have "ch - 1 = k - 1 \<longleftrightarrow> k = ch" "k - 1 < length cs" using assms by auto
  then show ?thesis by (simp add: nth_list_update)
qed

lemma volume_write:
  assumes agree: "volumes_agree pf d s" and ch: "ch \<in> {1..4}"
    and run: "run_state (codec_write_reg pf (CH_CFG2_ADDR ch) v) s = (r, s')"
  shows "if r \<noteq> 0 then volumes_agree pf d s'
    else v = (if cd_mute c then 0 else cd_dvol c) \<longrightarrow> volumes_agree pf d (s'\<lparr>codec_channels := (codec_channels s')[ch - 1 := c]\<rparr>)"
proof -
  have paged: "paged pf d s" and reg: "CH_CFG2_ADDR ch = RegAddr 0 (volume_reg ch)"
    using agree by (simp_all add: volumes_agree_def CH_CFG2_ADDR_def volume_reg_def)
  have a: "volume_reg ch \<noteq> 0" "volume_reg ch \<noteq> 1" using volume_reg_values [OF ch] by auto
  from write_reg_effect [OF paged a(1) run [unfolded reg]] obtain evs where s': "s' = s\<lparr>codec_calls := codec_calls s @ evs\<rparr>"
    and chip: "chip_of pf d s' = (if r = 0 then adc_written d (volume_reg ch) v (chip_of pf d s) else chip_of pf d s)" by blast
  show ?thesis
  proof (cases "r = 0")
    case False
    then show ?thesis using chip agree by (simp add: s' volumes_agree_def paged_def)
  next
    case True
    have inj: "volume_reg ch' = volume_reg ch \<longleftrightarrow> ch' = ch" if "ch' \<in> {1..4}" for ch'
    proof
      assume "volume_reg ch' = volume_reg ch"
      then have "0x3e + (ch' - 1) * 5 = 0x3e + (ch - 1) * 5" using unat_volume_reg [OF that] unat_volume_reg [OF ch] by simp
      then show "ch' = ch" using that ch by auto
    qed simp
    have "adc_written d (volume_reg ch) v (chip_of pf d s) = (chip_of pf d s)\<lparr>chip_reg := (chip_reg (chip_of pf d s))(0 :=
        (chip_reg (chip_of pf d s) 0)(volume_reg ch := v))\<rparr>"
      using a(2) by (simp add: adc_written_def SW_RESET_ADDR_def)
    with chip True have c': "chip_of pf d s' = (chip_of pf d s)\<lparr>chip_reg := (chip_reg (chip_of pf d s))(0 :=
        (chip_reg (chip_of pf d s) 0)(volume_reg ch := v))\<rparr>" by simp
    have len: "length (codec_channels s) = 4" using paged by (simp add: paged_def)
    have "volumes_agree pf d (s'\<lparr>codec_channels := (codec_channels s')[ch - 1 := c]\<rparr>)"
      if v: "v = (if cd_mute c then 0 else cd_dvol c)"
    proof -
      note at = channel_at [OF len ch]
      have "chip_reg (chip_of pf d s') 0 (volume_reg k) =
          (let x = (codec_channels s)[ch - 1 := c] ! (k - 1) in if cd_mute x then 0 else cd_dvol x)" if k: "k \<in> {1..4}" for k
        using agree k unfolding volumes_agree_def at [OF k] by (simp add: c' inj [OF k] v)
      moreover have "codec_channels s' = codec_channels s" "paged pf d (s'\<lparr>codec_channels := (codec_channels s)[ch - 1 := c]\<rparr>)"
        using paged c' by (simp_all add: s' paged_def)
      ultimately show ?thesis by (simp add: volumes_agree_def)
    qed
    then show ?thesis using True by (intro if_not_P [THEN iffD2]) blast+
  qed
qed

lemma volume_write_frame:
  assumes "volumes_agree pf d s" "ch \<in> {1..4}" "run_state (codec_write_reg pf (CH_CFG2_ADDR ch) v) s = (r, s')"
  shows "codec_channels s' = codec_channels s"
proof -
  have "paged pf d s" "volume_reg ch \<noteq> 0" using assms(1) volume_reg_values [OF assms(2)] by (auto simp: volumes_agree_def)
  moreover have "CH_CFG2_ADDR ch = RegAddr 0 (volume_reg ch)" by (simp add: CH_CFG2_ADDR_def volume_reg_def)
  ultimately show ?thesis using write_reg_effect [of pf d s "volume_reg ch" v r s'] assms(3) by auto
qed

lemma keeps_digital_gain [codec_keeps_intros]:
  "codec_keeps pf d (codec_set_digital_gain pf ch gain)"
  unfolding codec_keeps_def
proof (intro allI impI)
  fix s assume agree: "volumes_agree pf d s"
  let ?m = "codec_set_digital_gain pf ch gain"
  obtain ret idx where idx: "co_get_index pf digital_gain_range gain = (ret, idx)" by fastforce
  let ?c = "codec_channels s ! (ch - 1)"
  show "volumes_agree pf d (snd (run_state ?m s))"
  proof (cases "1 \<le> ch \<and> ch \<le> 4 \<and> ret = 0 \<and> idx \<noteq> ucast (cd_dvol ?c)")
    case False
    then have "snd (run_state ?m s) = s"
      by (auto simp: codec_set_digital_gain_def codec_get_channel_data_def CODEC_NUM_CHANNELS_def idx)
    then show ?thesis using agree by simp
  next
    case True
    then have ch: "ch \<in> {1..4}" by simp
    obtain r s' where run: "run_state (codec_write_reg pf (CH_CFG2_ADDR ch) (ucast idx)) s = (r, s')" by fastforce
    note w = volume_write [OF agree ch run]
    have len: "length (codec_channels s) = 4" using agree by (simp add: volumes_agree_def paged_def)
    show ?thesis
    proof (cases "cd_mute ?c")
      case muted: True
      define s1 where "s1 = s\<lparr>codec_channels := (codec_channels s)[ch - 1 := ?c\<lparr>cd_dvol := ucast idx\<rparr>]\<rparr>"
      have "snd (run_state ?m s) = s1"
        using True muted by (simp add: codec_set_digital_gain_def codec_get_channel_data_def CODEC_NUM_CHANNELS_def idx
            set_channel_data_def s1_def not_less)
      moreover have "volumes_agree pf d s1"
      proof -
        have "(let x = codec_channels s1 ! (k - 1) in if cd_mute x then 0 else cd_dvol x) =
            (let x = codec_channels s ! (k - 1) in if cd_mute x then 0 else cd_dvol x)" if "k \<in> {1..4}" for k
          using muted by (simp add: s1_def channel_at [OF len ch that, simplified] Let_def)
        then show ?thesis using agree by (simp add: volumes_agree_def paged_def s1_def)
      qed
      ultimately show ?thesis by simp
    next
      case False
      then have "snd (run_state ?m s) = (if r \<noteq> 0 then s' else s'\<lparr>codec_channels :=
          (codec_channels s')[ch - 1 := (codec_channels s' ! (ch - 1))\<lparr>cd_dvol := ucast idx\<rparr>]\<rparr>)"
        using True run by (simp add: codec_set_digital_gain_def codec_get_channel_data_def CODEC_NUM_CHANNELS_def idx
            set_channel_data_def not_less)
      moreover have "codec_channels s' = codec_channels s" by (rule volume_write_frame [OF agree ch run])
      ultimately show ?thesis using volume_write [OF agree ch run, of "?c\<lparr>cd_dvol := ucast idx\<rparr>"] False by auto
    qed
  qed
qed

lemma keeps_mute [codec_keeps_intros]: "codec_keeps pf d (codec_set_mute pf ch mute)"
  unfolding codec_keeps_def
proof (intro allI impI)
  fix s assume agree: "volumes_agree pf d s"
  let ?m = "codec_set_mute pf ch mute" and ?c = "codec_channels s ! (ch - 1)"
  show "volumes_agree pf d (snd (run_state ?m s))"
  proof (cases "1 \<le> ch \<and> ch \<le> 4 \<and> mute \<noteq> cd_mute ?c")
    case False
    then have "snd (run_state ?m s) = s"
      by (auto simp: codec_set_mute_def codec_get_channel_data_def CODEC_NUM_CHANNELS_def)
    then show ?thesis using agree by simp
  next
    case True
    then have ch: "ch \<in> {1..4}" by simp
    let ?v = "if mute then 0 else cd_dvol ?c"
    obtain r s' where run: "run_state (codec_write_reg pf (CH_CFG2_ADDR ch) ?v) s = (r, s')" by fastforce
    then have "snd (run_state ?m s) = (if r \<noteq> 0 then s' else s'\<lparr>codec_channels :=
        (codec_channels s')[ch - 1 := (codec_channels s' ! (ch - 1))\<lparr>cd_mute := mute\<rparr>]\<rparr>)"
      using True by (cases mute) (simp_all add: codec_set_mute_def codec_get_channel_data_def CODEC_NUM_CHANNELS_def
          set_channel_data_def not_less)
    then show ?thesis
      using volume_write [OF agree ch run, of "?c\<lparr>cd_mute := mute\<rparr>"] volume_write_frame [OF agree ch run] by auto
  qed
qed

lemma volumes_after_reset:
  assumes "paged pf d s" "adc_defaults d" "run_state (codec_soft_reset pf) s = (0, s')"
  shows "volumes_agree pf d s'"
proof -
  obtain r t where run: "run_state (codec_write_reg pf (RegAddr 0 1) SW_RESET_ASSERT) s = (r, t)" by fastforce
  with assms(3) have "r = 0" and s': "s' = t\<lparr>reg_page_cache := 0,
      codec_channels := map (\<lambda>c. c\<lparr>cd_dvol := CODEC_DEFAULT_DVOL, cd_mute := False\<rparr>) (codec_channels t)\<rparr>"
    by (auto simp: codec_soft_reset_def SW_RESET_ADDR_def split: if_splits)
  with write_reg_effect [OF assms(1) _ run] obtain evs where "t = s\<lparr>codec_calls := codec_calls s @ evs\<rparr>"
    "chip_of pf d t = \<lparr>chip_page = 0, chip_reg = d\<rparr>"
    by (auto simp: adc_written_def SW_RESET_ADDR_def)
  then show ?thesis using assms(1,2)
    by (auto simp: s' volumes_agree_def paged_def adc_defaults_def Let_def)
qed

lemma keeps_reset [codec_keeps_intros]: "adc_defaults d \<Longrightarrow> codec_keeps pf d (codec_soft_reset pf)"
  unfolding codec_keeps_def
proof (intro allI impI)
  fix s assume d: "adc_defaults d" and agree: "volumes_agree pf d s"
  then have paged: "paged pf d s" by (simp add: volumes_agree_def)
  obtain r s' where run: "run_state (codec_soft_reset pf) s = (r, s')" by fastforce
  show "volumes_agree pf d (snd (run_state (codec_soft_reset pf) s))"
  proof (cases "r = 0")
    case True
    then show ?thesis using volumes_after_reset [OF paged d] run by simp
  next
    case False
    obtain r' t where w: "run_state (codec_write_reg pf (RegAddr 0 1) SW_RESET_ASSERT) s = (r', t)" by fastforce
    with run False have "r' \<noteq> 0" "s' = t" by (auto simp: codec_soft_reset_def SW_RESET_ADDR_def split: if_splits)
    with write_reg_effect [OF paged _ w] agree show ?thesis
      by (auto simp: run volumes_agree_def paged_def)
  qed
qed

lemma analog_registers:
  assumes "\<not> (ch < 1 \<or> CODEC_NUM_ANALOG_CHANNELS < ch)"
  shows "other_register (CH_CFG0_ADDR ch)" "other_register (CH_CFG1_ADDR ch)"
proof -
  have "ch = 1 \<or> ch = 2" using assms by (auto simp: CODEC_NUM_ANALOG_CHANNELS_def)
  then show "other_register (CH_CFG0_ADDR ch)" "other_register (CH_CFG1_ADDR ch)"
    by (auto simp: CH_CFG0_ADDR_def CH_CFG1_ADDR_def)
qed

lemma slot_register: "\<not> (ch < 1 \<or> CODEC_NUM_CHANNELS < ch) \<Longrightarrow> other_register (ASI_CH_ADDR ch)"
proof -
  assume "\<not> (ch < 1 \<or> CODEC_NUM_CHANNELS < ch)"
  then have "ch = 1 \<or> ch = 2 \<or> ch = 3 \<or> ch = 4" by (auto simp: CODEC_NUM_CHANNELS_def)
  then show ?thesis by (auto simp: ASI_CH_ADDR_def)
qed

lemma plain_registers:
  "other_register SLEEP_CFG_ADDR" "other_register ASI_CFG0_ADDR" "other_register MST_CFG0_ADDR"
  "other_register IN_CH_EN_ADDR" "other_register ASI_OUT_CH_EN_ADDR" "other_register PWR_CFG_ADDR"
  by (simp_all add: codec_addrs)

lemma keeps_pm [codec_keeps_intros]:
  "codec_keeps pf d (co_call pf pm_get)" "codec_keeps pf d (co_ret pf pm_get)"
  "codec_keeps pf d (co_call pf pm_put)" "codec_keeps pf d (co_ret pf pm_put)"
  by (rule keeps_call; simp add: pm_get_def pm_put_def)+

lemma keeps_cfg0 [codec_keeps_intros]: "codec_keeps pf d (codec_set_cfg0_analog pf ch li dc imp dre)"
  unfolding codec_set_cfg0_analog_def by (intro codec_keeps_intros analog_registers)

lemma keeps_channels [codec_keeps_intros]: "codec_keeps pf d (configure_channels pf cs a b)"
proof (induction pf cs a b rule: configure_channels.induct)
  case (2 pf c cs a b)
  show ?case unfolding configure_channels.simps
    by (intro codec_keeps_intros slot_register 2) assumption+
qed (simp add: codec_keeps_intros)

lemma keeps_read_reg [codec_keeps_intros]: "(\<And>page a. reg = RegAddr page a \<Longrightarrow> page = 0) \<Longrightarrow> codec_keeps pf d (codec_read_reg pf reg)"
  by (cases reg) (auto intro: keeps_read)

lemma keeps_operations:
  shows keeps_set: "codec_keeps pf d (codec_set_property pf prop ch v)"
    and keeps_get: "codec_keeps pf d (codec_get_property pf prop ch)"
    and keeps_configure: "codec_keeps pf d (codec_configure pf cfg)"
    and keeps_input: "codec_keeps pf d (codec_configure_input pf)"
    and keeps_start: "codec_keeps pf d (codec_start_input pf)"
    and keeps_stop: "codec_keeps pf d (codec_stop_input pf)"
    and keeps_action: "codec_keeps pf d (codec_pm_action pf action)"
proof -
  note defs = codec_set_property_def codec_set_analog_gain_def codec_set_impedance_def
  show "codec_keeps pf d (codec_set_property pf prop ch v)"
    unfolding defs
    by (cases "prop") (simp_all only: input_codec_property.case, (intro codec_keeps_intros analog_registers; assumption)+)
  show "codec_keeps pf d (codec_get_property pf prop ch)"
    unfolding codec_get_property_def codec_get_analog_gain_def codec_get_digital_gain_def codec_get_mute_def
      codec_get_impedance_def codec_get_channel_data_def
    by (cases "prop")
      (simp_all only: input_codec_property.case, (intro codec_keeps_intros; simp add: codec_addrs)+)
  show "codec_keeps pf d (codec_configure pf cfg)"
    unfolding codec_configure_def codec_configure_dai_def by (intro codec_keeps_intros plain_registers)
  show "codec_keeps pf d (codec_configure_input pf)"
    unfolding codec_configure_input_def by (intro codec_keeps_intros plain_registers)
  show "codec_keeps pf d (codec_start_input pf)"
    unfolding codec_start_input_def by (intro codec_keeps_intros plain_registers)
  show "codec_keeps pf d (codec_stop_input pf)"
    unfolding codec_stop_input_def by (intro codec_keeps_intros plain_registers)
  show "codec_keeps pf d (codec_pm_action pf action)"
    unfolding codec_pm_action_def codec_configure_power_def Let_def
    by (intro codec_keeps_intros plain_registers) simp_all
qed

inductive codec_run :: "codec_platform \<Rightarrow> codec_driver_data \<Rightarrow> codec_driver_data \<Rightarrow> bool"
  \<comment> \<open>operations after a reset, in any order and with any results\<close>
  for pf s0 where
  reset: "run_state (codec_soft_reset pf) s0 = (0, s) \<Longrightarrow> codec_run pf s0 s"
| reset_again: "codec_run pf s0 s \<Longrightarrow> codec_run pf s0 (snd (run_state (codec_soft_reset pf) s))"
| set_property: "codec_run pf s0 s \<Longrightarrow> codec_run pf s0 (snd (run_state (codec_set_property pf prop ch v) s))"
| get_property: "codec_run pf s0 s \<Longrightarrow> codec_run pf s0 (snd (run_state (codec_get_property pf prop ch) s))"
| configure: "codec_run pf s0 s \<Longrightarrow> codec_run pf s0 (snd (run_state (codec_configure pf cfg) s))"
| configure_input: "codec_run pf s0 s \<Longrightarrow> codec_run pf s0 (snd (run_state (codec_configure_input pf) s))"
| start: "codec_run pf s0 s \<Longrightarrow> codec_run pf s0 (snd (run_state (codec_start_input pf) s))"
| stop: "codec_run pf s0 s \<Longrightarrow> codec_run pf s0 (snd (run_state (codec_stop_input pf) s))"
| action: "codec_run pf s0 s \<Longrightarrow> codec_run pf s0 (snd (run_state (codec_pm_action pf action) s))"

definition codec_power_on :: codec_driver_data where
  "codec_power_on = \<lparr>reg_page_cache = 0, codec_channels = replicate 4 \<lparr>cd_mute = False, cd_dvol = 0\<rparr>, suspend_time_msec = 0,
     codec_started = False, codec_calls = []\<rparr>"

text \<open>
  Property C34. The converter works at the volume the driver believes in. After a software reset that succeeded, and
  any sequence of the driver's operations, successful or not, the volume register of each of the
  four channels holds the volume the driver remembers for it, or zero when it is muted. So a volume
  set on a muted channel takes effect when the channel is unmuted, and a failed transfer changes neither side.
\<close>
theorem codec_volumes_agree:
  assumes "adc_defaults d" and "codec_run pf codec_power_on s" and "ch \<in> {1..4}"
  shows "chip_reg (chip_of pf d s) 0 (volume_reg ch) =
    (let c = codec_channels s ! (ch - 1) in if cd_mute c then 0 else cd_dvol c)"
proof -
  have on: "paged pf d codec_power_on" by (simp add: paged_def codec_power_on_def chip_of_def)
  have "volumes_agree pf d s" using assms(2)
  proof induction
    case (reset s)
    then show ?case by (rule volumes_after_reset [OF on assms(1)])
  qed (use keeps_operations keeps_reset [OF assms(1)] in \<open>auto simp: codec_keeps_def\<close>)
  then show ?thesis using assms(3) by (simp add: volumes_agree_def)
qed

definition quiet_codec :: codec_platform where
  "quiet_codec = \<lparr>co_env = quiet_env, co_config = \<lparr>co_addr = 0x4e, co_avdd = True, co_int_gpio = False, co_internal_areg = True,
     co_channels = []\<rparr>, co_lr = lr_scan, co_get_index = (\<lambda>lrg v. (0, of_int (v - lr_min lrg) + lr_min_idx lrg))\<rparr>"

lemma codec_volumes_agree_witness:
  "\<exists>s. codec_run quiet_codec codec_power_on s \<and>
    (let c = codec_channels s ! 0 in cd_mute c) \<and>
    chip_reg (chip_of quiet_codec (\<lambda>_ _. CODEC_DEFAULT_DVOL) s) 0 (volume_reg 1) = 0"
proof -
  define s1 where "s1 = snd (run_state (codec_soft_reset quiet_codec) codec_power_on)"
  define s2 where "s2 = snd (run_state (codec_set_property quiet_codec INPUT_CODEC_PROPERTY_MUTE 0 1) s1)"
  have "fst (run_state (codec_soft_reset quiet_codec) codec_power_on) = 0"
    by (simp add: codec_soft_reset_def codec_write_reg_def codec_write_reg_no_pm_def codec_set_page_def SW_RESET_ADDR_def
        codec_power_on_def quiet_codec_def)
  then have "codec_run quiet_codec codec_power_on s1"
    unfolding s1_def by (intro codec_run.reset) (metis prod.collapse)
  then have run: "codec_run quiet_codec codec_power_on s2" unfolding s2_def by (rule codec_run.set_property)
  have "cd_mute (codec_channels s2 ! 0)"
    by (simp add: s2_def s1_def codec_set_property_def codec_channel_to_index_def codec_set_mute_def codec_get_channel_data_def
        codec_soft_reset_def codec_write_reg_def codec_write_reg_no_pm_def codec_set_page_def codec_addrs
        codec_power_on_def quiet_codec_def CODEC_NUM_CHANNELS_def set_channel_data_def)
  moreover have "adc_defaults (\<lambda>_ _. CODEC_DEFAULT_DVOL)" by (simp add: adc_defaults_def)
  ultimately show ?thesis using codec_volumes_agree [OF _ run, of "\<lambda>_ _. CODEC_DEFAULT_DVOL" 1] run by auto
qed

end
