(* ===== verification/Audio.thy ===== *)
theory Audio
  imports Mgr Codec
begin

text \<open>
  The audio input of an audio node, \<^verbatim>\<open>firmware/audio/app/src/audio.c\<close>: the thread that reads blocks from the I2S
  driver and hands them to the recorder, the interrupt that takes their times, the loop that tunes
  the audio clock to the clock of the central node, and the settings of the codec's channels. The I2S driver, the codec
  driver and the settings are events; the frequency register of the audio clock is a part of the state.
  The mutex is left out: an operation of another thread is one step.
\<close>

section \<open>State\<close>

record audio_block_time =
  bt_i2s_time :: u64
  bt_ref_time :: u32

record audio_data =
  audio_ready :: bool                \<comment> \<open>\<open>init\<close>\<close>
  sample_period :: u64
  block_duration :: u64
  audio_est :: freq_est
  i2s_time :: u64
  target_theta :: u64
  hfclkaudio_increment :: "16 word"

record audio_system =
  audio_data :: audio_data
  hfclk_reg :: u16                   \<comment> \<open>the frequency register of the audio clock\<close>
  block_times :: "audio_block_time list"
  audio_node :: audio_node           \<comment> \<open>the clock and the recorder\<close>
  audio_calls :: trace

text \<open>
  The platform: the calls, the recorder's platform, the rounding of floats, whether the build has the nRF I2S
  peripheral (\<open>AUDIO_SYNC_ENABLED\<close>), and the two functions with which Zephyr's settings split a key.
\<close>

record audio_platform =
  au_env :: env
  au_rec :: record_platform
  au_fl :: rounding
  au_sync :: bool
  au_name_steq :: "string \<Rightarrow> string \<Rightarrow> string option option"
    \<comment> \<open>\<open>settings_name_steq\<close>: \<open>None\<close> when the key does not match, else what \<open>next\<close> points to\<close>
  au_name_next :: "string \<Rightarrow> nat \<times> string option"
    \<comment> \<open>\<open>settings_name_next\<close>: the length of the first component and what \<open>next\<close> points to\<close>

type_synonym 'a audio = "(audio_system, 'a) state"

definition au_call :: "audio_platform \<Rightarrow> ext_call \<Rightarrow> reply audio" where
  "au_call pf c = zoom audio_calls (\<lambda>t s. s\<lparr>audio_calls := t\<rparr>) (ext (au_env pf) c)"

definition au_ret :: "audio_platform \<Rightarrow> ext_call \<Rightarrow> int audio" where
  "au_ret pf c = do { r \<leftarrow> au_call pf c; return (r_ret r) }"

definition au_get :: "audio_data audio" where
  "au_get = State (\<lambda>s. (audio_data s, s))"

definition au_upd :: "(audio_data \<Rightarrow> audio_data) \<Rightarrow> unit audio" where
  "au_upd f = State (\<lambda>s. ((), s\<lparr>audio_data := f (audio_data s)\<rparr>))"

lemma run_audio [simp]:
  "run_state (au_call pf c) s =
     (au_env pf (audio_calls s) c, s\<lparr>audio_calls := audio_calls s @ [(c, au_env pf (audio_calls s) c)]\<rparr>)"
  "run_state (au_ret pf c) s =
     (r_ret (au_env pf (audio_calls s) c), s\<lparr>audio_calls := audio_calls s @ [(c, au_env pf (audio_calls s) c)]\<rparr>)"
  "run_state au_get s = (audio_data s, s)"
  "run_state (au_upd f) s = ((), s\<lparr>audio_data := f (audio_data s)\<rparr>)"
  by (simp_all add: au_call_def au_ret_def au_get_def au_upd_def)

section \<open>The audio clock\<close>

definition AUDIO_BLOCK_COUNT :: nat where "AUDIO_BLOCK_COUNT = 25 + 1"
definition AUDIO_HFCLKAUDIO_FREQ_NOMINAL :: nat where "AUDIO_HFCLKAUDIO_FREQ_NOMINAL = 12288000"
definition AUDIO_HFCLKAUDIO_FREQ_REG_MIN :: int where "AUDIO_HFCLKAUDIO_FREQ_REG_MIN = 36834"
definition AUDIO_HFCLKAUDIO_FREQ_REG_MAX :: int where "AUDIO_HFCLKAUDIO_FREQ_REG_MAX = 42874"

definition AUDIO_EST_CONFIG :: "rounding \<Rightarrow> freq_est_config" where
  "AUDIO_EST_CONFIG fl = \<lparr>cfg_nominal_freq = ZEUS_TIME_NOMINAL_FREQ,
     cfg_k_u = fl (32000000 / (12 * 2 ^ 16 * real AUDIO_HFCLKAUDIO_FREQ_NOMINAL)), cfg_q_theta = 0, cfg_q_f = 256,
     cfg_r = 390625, cfg_p0 = 1000000, cfg_outlier_threshold = 20, cfg_outlier_resync_count = 5\<rparr>"

definition AUDIO_FREQ_CTLR :: "rounding \<Rightarrow> freq_ctlr" where
  "AUDIO_FREQ_CTLR fl =
     \<lparr>k_theta = fl (403747559 / 10 ^ 19), k_f = fl (645996094 / 10 ^ 13), max_step = 1000\<rparr>"

definition clamp_increment :: "u16 \<Rightarrow> 16 word \<Rightarrow> 16 word" where
  "clamp_increment freq inc =
     (let max_inc = word_of_int (AUDIO_HFCLKAUDIO_FREQ_REG_MAX - uint freq);
          min_inc = word_of_int (AUDIO_HFCLKAUDIO_FREQ_REG_MIN - uint freq) in
      if sint max_inc < sint inc then max_inc else if sint inc < sint min_inc then min_inc else inc)"

definition nearest_sample :: "u64 \<Rightarrow> u64 \<Rightarrow> u64" where
  \<comment> \<open>\<open>DIV_ROUND_CLOSEST(theta, period) * period\<close>\<close>
  "nearest_sample theta period = (theta + period div 2) div period * period"

definition audio_sync_update :: "audio_platform \<Rightarrow> audio_block_time \<Rightarrow> u32 audio" where
  \<comment> \<open>the start time of the block, which is always valid\<close>
  "audio_sync_update pf bt = State (\<lambda>s.
     let data = audio_data s;
         (_, ref_time) = sync_timer_local_to_central (au_fl pf) (node_timer (audio_node s)) (qu32_32_from_int (bt_ref_time bt));
         (result, est) = freq_est_update (au_fl pf) (audio_est data) (bt_i2s_time bt) ref_time (hfclkaudio_increment data);
         state = freq_est_get_state est;
         target = (if result = FREQ_EST_RESULT_INIT then nearest_sample (state_theta state) (sample_period data)
                   else target_theta data);
         block_start_time = qu32_32_whole (bt_i2s_time bt - target);
         inc = clamp_increment (hfclk_reg s)
                 (freq_ctlr_update (au_fl pf) (AUDIO_FREQ_CTLR (au_fl pf)) target state) in
       (block_start_time,
        s\<lparr>audio_data := data\<lparr>audio_est := est, target_theta := target, hfclkaudio_increment := inc\<rparr>,
          hfclk_reg := hfclk_reg s + inc\<rparr>))"

section \<open>The thread\<close>

primrec to_24_loop :: "nat \<Rightarrow> nat \<Rightarrow> nat \<Rightarrow> nat \<Rightarrow> u8 list \<Rightarrow> u8 list" where
  \<comment> \<open>the loop from \<open>i\<close> and \<open>j\<close>; at most as many turns as the first argument\<close>
  "to_24_loop 0 i j len bs = bs"
| "to_24_loop (Suc n) i j len bs =
     (if i < len then to_24_loop n (i + 4) (j + 3) len (blit j (slice i 3 bs) bs) else bs)"

definition audio_buffer_32_to_24 :: "u8 list \<Rightarrow> nat \<Rightarrow> nat \<times> u8 list" where
  \<comment> \<open>the new length and the buffer; the assertion that 4 divides \<open>len\<close> is left out\<close>
  "audio_buffer_32_to_24 bs len = (len div 4 * 3, to_24_loop (length bs) 1 0 len bs)"

definition audio_egu_handler :: "u32 \<Rightarrow> unit audio" where
  \<comment> \<open>the argument is the time captured by the I2S channel of the timer\<close>
  "audio_egu_handler captured = State (\<lambda>s.
     let data = audio_data s;
         bt = \<lparr>bt_i2s_time = i2s_time data, bt_ref_time = captured\<rparr> in
       ((), s\<lparr>audio_data := data\<lparr>i2s_time := i2s_time data + block_duration data\<rparr>,
              block_times := (if length (block_times s) < AUDIO_BLOCK_COUNT then block_times s @ [bt] else block_times s)\<rparr>))"

definition next_block_time :: "audio_block_time option audio" where
  \<comment> \<open>\<open>k_msgq_get\<close>, without waiting\<close>
  "next_block_time = State (\<lambda>s.
     (case block_times s of [] \<Rightarrow> (None, s) | bt # bts \<Rightarrow> (Some bt, s\<lparr>block_times := bts\<rparr>)))"

definition central_time_now :: "audio_platform \<Rightarrow> u32 audio" where
  \<comment> \<open>\<open>sync_timer_get_central_time\<close>, its captured time from the timer\<close>
  "central_time_now pf =
     do { r \<leftarrow> au_call pf (Nrf ''nrfx_timer_capture'');
          State (\<lambda>s. (qu32_32_whole (sync_timer_get_central_time (au_fl pf) (node_timer (audio_node s)) (word_of_int (r_num r))), s)) }"

definition give_block :: "audio_platform \<Rightarrow> audio_block \<Rightarrow> unit audio" where
  \<comment> \<open>\<open>record_buffer\<close>; its result is ignored\<close>
  "give_block pf block = State (\<lambda>s. ((), s\<lparr>audio_node := (audio_node s)\<lparr>node_rec :=
     snd (run_state (record_buffer (au_rec pf) block) (node_rec (audio_node s)))\<rparr>\<rparr>))"

definition audio_thread_step :: "audio_platform \<Rightarrow> bool audio" where
  \<comment> \<open>a turn of the loop: false to leave it\<close>
  "audio_thread_step pf =
     do { r \<leftarrow> au_call pf (I2sCall ''read'');
          if r_ret r \<noteq> 0 then do {
            err \<leftarrow> au_ret pf (I2sCall ''prepare'');
            if err \<noteq> 0 then return False
            else do {
              err \<leftarrow> au_ret pf (I2sCall ''start'');
              return (err = 0) } }
          else do {
            start \<leftarrow> (if au_sync pf then do {
                        bt \<leftarrow> next_block_time;
                        case bt of
                          None \<Rightarrow> return None
                        | Some bt \<Rightarrow> do { t \<leftarrow> audio_sync_update pf bt; return (Some t) } }
                      else do { t \<leftarrow> central_time_now pf; return (Some t) });
            case start of
              None \<Rightarrow> return False
            | Some block_start_time \<Rightarrow> do {
                _ \<leftarrow> au_call pf (SemGive ''audio_started'');
                data \<leftarrow> au_get;
                give_block pf \<lparr>buf = map of_char (r_text r), block_start = block_start_time,
                  block_ticks = qu32_32_whole (block_duration data), block_frame = 6\<rparr>;
                _ \<leftarrow> au_call pf (SysCall ''k_mem_slab_free'' []);
                return True } } }"

primrec audio_thread_loop :: "nat \<Rightarrow> audio_platform \<Rightarrow> bool audio" where
  \<comment> \<open>some turns of the loop: true if the thread is still in it\<close>
  "audio_thread_loop 0 pf = return True"
| "audio_thread_loop (Suc n) pf =
     do { go \<leftarrow> audio_thread_step pf; if go then audio_thread_loop n pf else return False }"

definition audio_thread_run :: "nat \<Rightarrow> audio_platform \<Rightarrow> bool audio" where
  "audio_thread_run n pf =
     do { err \<leftarrow> au_ret pf (I2sCall ''start'');
          if err \<noteq> 0 then return False else audio_thread_loop n pf }"

section \<open>Channels and their settings\<close>

definition property_number :: "input_codec_property \<Rightarrow> int" where
  "property_number prop =
     (case prop of INPUT_CODEC_PROPERTY_SOURCE \<Rightarrow> 0 | INPUT_CODEC_PROPERTY_ANALOG_GAIN \<Rightarrow> 1
      | INPUT_CODEC_PROPERTY_DIGITAL_GAIN \<Rightarrow> 2 | INPUT_CODEC_PROPERTY_MUTE \<Rightarrow> 3 | INPUT_CODEC_PROPERTY_IMPEDANCE \<Rightarrow> 4)"

definition codec_set :: "input_codec_property \<Rightarrow> audio_channel \<Rightarrow> int \<Rightarrow> ext_call" where
  \<comment> \<open>\<open>input_codec_set_property\<close> with the number in the union\<close>
  "codec_set prop ch v = CodecCall ''set_property'' [property_number prop, int ch, v]"

definition codec_get :: "input_codec_property \<Rightarrow> audio_channel \<Rightarrow> ext_call" where
  \<comment> \<open>\<open>input_codec_get_property\<close>, the value in \<open>r_num\<close>\<close>
  "codec_get prop ch = CodecCall ''get_property'' [property_number prop, int ch]"

definition audio_channel_to_string :: "audio_channel \<Rightarrow> string option" where
  "audio_channel_to_string ch =
     (if ch = AUDIO_CHANNEL_FRONT_LEFT then Some ''left''
      else if ch = AUDIO_CHANNEL_FRONT_RIGHT then Some ''right''
      else None)"

definition string_partial_match :: "string \<Rightarrow> nat \<Rightarrow> string \<Rightarrow> bool" where
  "string_partial_match str str_len match \<longleftrightarrow> length match = str_len \<and> take str_len str = match"

definition audio_channel_from_string_prefix :: "string \<Rightarrow> nat \<Rightarrow> audio_channel option" where
  \<comment> \<open>\<open>None\<close> for the result -1\<close>
  "audio_channel_from_string_prefix str str_len =
     (if string_partial_match str str_len ''left'' then Some AUDIO_CHANNEL_FRONT_LEFT
      else if string_partial_match str str_len ''right'' then Some AUDIO_CHANNEL_FRONT_RIGHT
      else None)"

definition audio_channel_from_string :: "string \<Rightarrow> audio_channel option" where
  "audio_channel_from_string str = audio_channel_from_string_prefix str (length str)"

definition KEY_SIZE :: nat where "KEY_SIZE = 32"

definition channel_key :: "string \<Rightarrow> string \<Rightarrow> string" where
  "channel_key channel_str setting = ''audio/ch/'' @ channel_str @ ''/'' @ setting"

definition audio_settings_channel_save :: "audio_platform \<Rightarrow> audio_channel \<Rightarrow> string \<Rightarrow> u32 \<Rightarrow> int audio" where
  "audio_settings_channel_save pf ch setting v =
     (case audio_channel_to_string ch of
        None \<Rightarrow> return (- EINVAL)
      | Some channel_str \<Rightarrow>
          if KEY_SIZE \<le> length (channel_key channel_str setting) then return (- EINVAL)
          else au_ret pf (SettingsSave (channel_key channel_str setting) (map (\<lambda>b. char_of (unat b)) (put_le32 v))))"

definition channel_property :: "string \<Rightarrow> (input_codec_property \<times> (u32 \<Rightarrow> int)) option" where
  \<comment> \<open>the property of a setting and how its four bytes are read: a gain is signed\<close>
  "channel_property name =
     (if name = ''a_gain'' then Some (INPUT_CODEC_PROPERTY_ANALOG_GAIN, sint)
      else if name = ''d_gain'' then Some (INPUT_CODEC_PROPERTY_DIGITAL_GAIN, sint)
      else if name = ''imp'' then Some (INPUT_CODEC_PROPERTY_IMPEDANCE, uint)
      else None)"

definition audio_settings_load_cb :: "audio_platform \<Rightarrow> string \<times> int \<times> u32 \<Rightarrow> unit option audio" where
  \<comment> \<open>the key, what the read callback returns and the value it reads; \<open>None\<close> when \<open>strcmp\<close> gets a null pointer.
      The result is always zero\<close>
  "audio_settings_load_cb pf = (\<lambda>(key, len, v).
     case au_name_steq pf key ''ch'' of
       None \<Rightarrow> return (Some ())
     | Some None \<Rightarrow> return (Some ())
     | Some (Some channel_str) \<Rightarrow>
         (case au_name_next pf channel_str of (channel_len, rest) \<Rightarrow>
            case audio_channel_from_string_prefix channel_str channel_len of
              None \<Rightarrow> return (Some ())
            | Some ch \<Rightarrow>
                (case rest of
                   None \<Rightarrow> return None
                 | Some setting \<Rightarrow>
                     (case channel_property setting of
                        None \<Rightarrow> return (Some ())
                      | Some (prop, num) \<Rightarrow>
                          if len \<noteq> 4 then return (Some ())
                          else do { _ \<leftarrow> au_call pf (codec_set prop ch (num v)); return (Some ()) }))))"

definition audio_get_property :: "audio_platform \<Rightarrow> input_codec_property \<Rightarrow> audio_channel \<Rightarrow> (int + int) audio" where
  \<comment> \<open>the body of the three getters; \<open>Inl\<close> an error, \<open>Inr\<close> the value stored through the pointer\<close>
  "audio_get_property pf prop ch =
     do { data \<leftarrow> au_get;
          if \<not> audio_ready data then return (Inl (- EINVAL))
          else do {
            r \<leftarrow> au_call pf (codec_get prop ch);
            return (if r_ret r \<noteq> 0 then Inl (r_ret r) else Inr (r_num r)) } }"

definition audio_set_property ::
  "audio_platform \<Rightarrow> input_codec_property \<Rightarrow> (u32 \<Rightarrow> int) \<Rightarrow> string \<Rightarrow> audio_channel \<Rightarrow> u32 \<Rightarrow> int audio" where
  \<comment> \<open>the body of the three setters\<close>
  "audio_set_property pf prop num setting ch v =
     do { data \<leftarrow> au_get;
          if \<not> audio_ready data then return (- EINVAL)
          else do {
            ret \<leftarrow> au_ret pf (codec_set prop ch (num v));
            if ret \<noteq> 0 then return ret
            else do {
              ret \<leftarrow> au_ret pf (CodecCall ''apply_properties'' []);
              if ret \<noteq> 0 then return ret
              else audio_settings_channel_save pf ch setting v } } }"

definition audio_get_analog_gain :: "audio_platform \<Rightarrow> audio_channel \<Rightarrow> (int + int) audio" where
  "audio_get_analog_gain pf ch = audio_get_property pf INPUT_CODEC_PROPERTY_ANALOG_GAIN ch"

definition audio_set_analog_gain :: "audio_platform \<Rightarrow> audio_channel \<Rightarrow> u32 \<Rightarrow> int audio" where
  \<comment> \<open>the bits of the gain, an \<open>int32_t\<close>\<close>
  "audio_set_analog_gain pf ch gain = audio_set_property pf INPUT_CODEC_PROPERTY_ANALOG_GAIN sint ''a_gain'' ch gain"

definition audio_get_digital_gain :: "audio_platform \<Rightarrow> audio_channel \<Rightarrow> (int + int) audio" where
  "audio_get_digital_gain pf ch = audio_get_property pf INPUT_CODEC_PROPERTY_DIGITAL_GAIN ch"

definition audio_set_digital_gain :: "audio_platform \<Rightarrow> audio_channel \<Rightarrow> u32 \<Rightarrow> int audio" where
  "audio_set_digital_gain pf ch gain = audio_set_property pf INPUT_CODEC_PROPERTY_DIGITAL_GAIN sint ''d_gain'' ch gain"

definition audio_get_impedance :: "audio_platform \<Rightarrow> audio_channel \<Rightarrow> (int + int) audio" where
  "audio_get_impedance pf ch = audio_get_property pf INPUT_CODEC_PROPERTY_IMPEDANCE ch"

definition audio_set_impedance :: "audio_platform \<Rightarrow> audio_channel \<Rightarrow> u32 \<Rightarrow> int audio" where
  "audio_set_impedance pf ch ohms = audio_set_property pf INPUT_CODEC_PROPERTY_IMPEDANCE uint ''imp'' ch ohms"

section \<open>Start-up\<close>

primrec audio_settings_load :: "audio_platform \<Rightarrow> (string \<times> int \<times> u32) list \<Rightarrow> unit option audio" where
  "audio_settings_load pf [] = return (Some ())"
| "audio_settings_load pf (x # xs) =
     do { r \<leftarrow> audio_settings_load_cb pf x;
          case r of None \<Rightarrow> return None | Some _ \<Rightarrow> audio_settings_load pf xs }"

definition audio_init :: "audio_platform \<Rightarrow> (string \<times> int \<times> u32) list \<Rightarrow> int option audio" where
  \<comment> \<open>the stored settings are an argument; the assertions, that the block is a whole number of frames and its duration
      a whole number of ticks, are left out; the result of an nrfx call is 0 for \<open>NRFX_SUCCESS\<close>. \<open>None\<close> as in \<open>audio_settings_load_cb\<close>\<close>
  "audio_init pf settings =
     do { data \<leftarrow> au_get;
          if audio_ready data then return (Some (- EALREADY))
          else do {
            codec \<leftarrow> au_ret pf (DeviceReady ''codec'');
            if codec = 0 then return (Some (- ENODEV))
            else do {
              i2s \<leftarrow> au_ret pf (DeviceReady ''i2s'');
              if i2s = 0 then return (Some (- ENODEV))
              else do {
                au_upd (\<lambda>d. d\<lparr>sample_period := qu32_32_from_int ZEUS_TIME_NOMINAL_FREQ div 48000,
                  block_duration := qu32_32_from_int audio_block_ticks,
                  audio_est := freq_est_init (au_fl pf) (AUDIO_EST_CONFIG (au_fl pf))\<rparr>);
                nerr \<leftarrow> au_ret pf (Nrf ''nrfx_egu_init'');
                if nerr \<noteq> 0 then return (Some (- EALREADY))
                else do {
                  _ \<leftarrow> (if au_sync pf then do {
                          _ \<leftarrow> au_call pf (Nrf ''nrf_i2s_publish_set i2s_dppi'');
                          _ \<leftarrow> au_call pf (Nrf ''nrf_egu_subscribe_set i2s_dppi'');
                          _ \<leftarrow> au_call pf (Nrf ''nrfx_egu_int_enable'');
                          _ \<leftarrow> au_call pf (Nrf ''nrfx_dppi_channel_enable i2s_dppi'');
                          return () }
                        else return ());
                  _ \<leftarrow> au_call pf (SettingsLoad ''audio'');
                  loaded \<leftarrow> audio_settings_load pf settings;
                  case loaded of
                    None \<Rightarrow> return None
                  | Some _ \<Rightarrow> do {
                      ret \<leftarrow> seq_nz [au_ret pf (I2sCall ''configure''), au_ret pf (CodecCall ''configure'' []),
                               do { _ \<leftarrow> au_call pf (ThreadCreate ''audio''); au_ret pf (SemTake ''audio_started'' 2000) }];
                      if ret \<noteq> 0 then return (Some ret)
                      else do { au_upd (\<lambda>d. d\<lparr>audio_ready := True\<rparr>); return (Some 0) } } } } } } }"

section \<open>The frequency register\<close>

definition hfclk_in_range :: "u16 \<Rightarrow> bool" where
  "hfclk_in_range freq \<longleftrightarrow> AUDIO_HFCLKAUDIO_FREQ_REG_MIN \<le> uint freq \<and> uint freq \<le> AUDIO_HFCLKAUDIO_FREQ_REG_MAX"

lemma uint_word_of_int_16: "0 \<le> i \<Longrightarrow> i < 2 ^ 16 \<Longrightarrow> uint (word_of_int i :: 16 word) = i"
  by (simp add: uint_word_of_int_eq take_bit_int_eq_self)

lemma clamp_increment_in_range:
  assumes "hfclk_in_range freq"
  shows "hfclk_in_range (freq + clamp_increment freq inc)"
    and "uint (freq + clamp_increment freq inc) = uint freq + sint (clamp_increment freq inc)"
    and "\<bar>sint (clamp_increment freq inc)\<bar> \<le> \<bar>sint inc\<bar>"
proof -
  let ?max = "AUDIO_HFCLKAUDIO_FREQ_REG_MAX - uint freq" and ?min = "AUDIO_HFCLKAUDIO_FREQ_REG_MIN - uint freq"
  let ?c = "clamp_increment freq inc"
  note defs = AUDIO_HFCLKAUDIO_FREQ_REG_MAX_def AUDIO_HFCLKAUDIO_FREQ_REG_MIN_def
  have r: "0 \<le> ?max" "?max \<le> 6040" "?min \<le> 0" "- 6040 \<le> ?min"
    using assms by (simp_all add: hfclk_in_range_def defs)
  have "(6040 :: int) < 2 ^ 15" by simp
  with r have "\<bar>?max\<bar> < 2 ^ 15" "\<bar>?min\<bar> < 2 ^ 15" by linarith+
  note lims = this [THEN sint_word_of_int_16]
  have c: "sint ?c = (if ?max < sint inc then ?max else if sint inc < ?min then ?min else sint inc)"
    unfolding clamp_increment_def Let_def by (simp only: lims if_distrib [of sint])
  then show "\<bar>sint ?c\<bar> \<le> \<bar>sint inc\<bar>" using r by auto
  have "?min \<le> sint ?c" "sint ?c \<le> ?max" using c r by auto
  then have sum: "AUDIO_HFCLKAUDIO_FREQ_REG_MIN \<le> uint freq + sint ?c" "uint freq + sint ?c \<le> AUDIO_HFCLKAUDIO_FREQ_REG_MAX"
    by simp_all
  have "freq + ?c = word_of_int (uint freq + sint ?c)" by simp
  moreover have "uint (word_of_int (uint freq + sint ?c) :: 16 word) = uint freq + sint ?c"
    using sum by (intro uint_word_of_int_16) (simp_all add: defs)
  ultimately show "uint (freq + ?c) = uint freq + sint ?c" by simp
  then show "hfclk_in_range (freq + ?c)" using sum by (simp add: hfclk_in_range_def)
qed

text \<open>
  Property C31. The audio clock stays within the limits of the chip: whatever the estimator has come to and whatever
  times are measured, an update leaves the frequency register in its range if it was there, changes it by
  at most 1000, and remembers for the estimator exactly the change that was made, also when it was clamped.
\<close>
theorem audio_clock_in_range:
  assumes "rounds_to_float (au_fl pf)" and "hfclk_in_range (hfclk_reg s)"
    and "run_state (audio_sync_update pf bt) s = (start, s')"
  shows "hfclk_in_range (hfclk_reg s') \<and>
    uint (hfclk_reg s') = uint (hfclk_reg s) + sint (hfclkaudio_increment (audio_data s')) \<and>
    \<bar>sint (hfclkaudio_increment (audio_data s'))\<bar> \<le> 1000"
proof -
  obtain target state where inc: "hfclkaudio_increment (audio_data s') = clamp_increment (hfclk_reg s)
      (freq_ctlr_update (au_fl pf) (AUDIO_FREQ_CTLR (au_fl pf)) target state)" (is "_ = clamp_increment _ ?u")
    and reg: "hfclk_reg s' = hfclk_reg s + hfclkaudio_increment (audio_data s')"
    using assms(3) by (auto simp: audio_sync_update_def Let_def split: prod.splits)
  have "\<bar>sint ?u\<bar> \<le> int (unat (max_step (AUDIO_FREQ_CTLR (au_fl pf))))"
    by (rule freq_ctlr_step_bounded [OF assms(1)]) (simp add: AUDIO_FREQ_CTLR_def)
  then have "\<bar>sint ?u\<bar> \<le> 1000" by (simp add: AUDIO_FREQ_CTLR_def)
  then show ?thesis
    using clamp_increment_in_range [OF assms(2), of ?u] inc reg by simp
qed

definition quiet_name_steq :: "string \<Rightarrow> string \<Rightarrow> string option option" where
  "quiet_name_steq name key =
     (if take (length key) name \<noteq> key then None
      else case drop (length key) name of
             [] \<Rightarrow> Some None
           | c # rest \<Rightarrow> if c = CHR ''='' then Some None else if c = CHR ''/'' then Some (Some rest) else None)"

definition quiet_name_next :: "string \<Rightarrow> nat \<times> string option" where
  "quiet_name_next name =
     (let w = takeWhile (\<lambda>c. c \<noteq> CHR ''/'' \<and> c \<noteq> CHR ''='') name in
      (length w, case drop (length w) name of c # rest \<Rightarrow> if c = CHR ''/'' then Some rest else None | [] \<Rightarrow> None))"

definition board_audio :: audio_platform where
  "board_audio = \<lparr>au_env = quiet_env, au_rec = no_space_platform, au_fl = id, au_sync = True,
     au_name_steq = quiet_name_steq, au_name_next = quiet_name_next\<rparr>"

definition audio_idle :: audio_system where
  \<comment> \<open>after \<open>audio_init\<close>, with the nominal frequency\<close>
  "audio_idle =
     \<lparr>audio_data = \<lparr>audio_ready = True, sample_period = qu32_32_from_int ZEUS_TIME_NOMINAL_FREQ div 48000,
        block_duration = qu32_32_from_int audio_block_ticks, audio_est = freq_est_init id (AUDIO_EST_CONFIG id),
        i2s_time = 0, target_theta = 0, hfclkaudio_increment = 0\<rparr>,
      hfclk_reg = 39845, block_times = [], audio_node = booted_node, audio_calls = []\<rparr>"

lemma audio_clock_in_range_witness:
  "\<exists>start s'. run_state (audio_sync_update board_audio \<lparr>bt_i2s_time = 0, bt_ref_time = 1000\<rparr>) audio_idle = (start, s') \<and>
     hfclk_in_range (hfclk_reg s') \<and>
     uint (hfclk_reg s') = 39845 + sint (hfclkaudio_increment (audio_data s')) \<and>
     \<bar>sint (hfclkaudio_increment (audio_data s'))\<bar> \<le> 1000"
proof -
  obtain start s' where run: "run_state (audio_sync_update board_audio \<lparr>bt_i2s_time = 0, bt_ref_time = 1000\<rparr>) audio_idle = (start, s')"
    by fastforce
  have "rounds_to_float (au_fl board_audio)" by (simp add: board_audio_def rounds_to_float_id)
  moreover have "hfclk_in_range (hfclk_reg audio_idle)"
    by (simp add: audio_idle_def hfclk_in_range_def AUDIO_HFCLKAUDIO_FREQ_REG_MAX_def AUDIO_HFCLKAUDIO_FREQ_REG_MIN_def)
  moreover have "uint (hfclk_reg audio_idle) = 39845" by (simp add: audio_idle_def)
  ultimately show ?thesis using audio_clock_in_range [OF _ _ run] run by simp
qed

section \<open>The times of the blocks\<close>

inductive audio_run :: "audio_platform \<Rightarrow> audio_system \<Rightarrow> (u32 \<times> bool) list \<Rightarrow> audio_system \<Rightarrow> bool"
  \<comment> \<open>interrupts, with room in the queue, and updates of the thread, with the start time of each block and
      whether the estimator was reset before it\<close>
  for pf s0 where
  ready: "audio_run pf s0 [] s0"
| interrupt: "audio_run pf s0 ts s \<Longrightarrow> length (block_times s) < AUDIO_BLOCK_COUNT \<Longrightarrow>
    run_state (audio_egu_handler captured) s = (u, s') \<Longrightarrow> audio_run pf s0 ts s'"
| block: "audio_run pf s0 ts s \<Longrightarrow> run_state next_block_time s = (Some bt, s') \<Longrightarrow>
    run_state (audio_sync_update pf bt) s' = (t, s'') \<Longrightarrow>
    audio_run pf s0 (ts @ [(t, est_status (audio_est (audio_data s)) = FREQ_EST_STATUS_RESET)]) s''"

definition abut :: "u32 \<Rightarrow> u32 \<times> bool \<Rightarrow> u32 \<times> bool \<Rightarrow> bool" where
  \<comment> \<open>the second block starts where the first, of \<open>d\<close> ticks, ends, unless the estimator was reset\<close>
  "abut d a b \<longleftrightarrow> snd b \<or> fst b = fst a + d"

lemma whole_word_of_int: "qu32_32_whole v = word_of_int (uint v div 2 ^ 32)"
  by (simp add: qu32_32_whole_def drop_bit_eq_div flip: word_of_int_uint)
    (simp add: uint_div word_of_int_uint ucast_eq)

lemma whole_add: "qu32_32_whole (v + qu32_32_from_int w) = qu32_32_whole v + w"
proof -
  have "uint (ucast w :: u64) = uint w" by (simp add: is_up uint_up_ucast)
  then have "uint (v + qu32_32_from_int w) = (uint v + uint w * 2 ^ 32) mod (2 ^ 32 * 2 ^ 32)"
    by (simp add: qu32_32_from_int_def uint_word_ariths push_bit_eq_mult uint_word_of_int mod_mult_left_eq mod_add_right_eq
        flip: power_add)
  then have "uint (v + qu32_32_from_int w) div 2 ^ 32 = (uint v div 2 ^ 32 + uint w) mod 2 ^ 32"
    using zmod_zmult2_eq [of "2 ^ 32" "uint v + uint w * 2 ^ 32" "2 ^ 32"]
    by (simp add: add.commute)
  then have "qu32_32_whole (v + qu32_32_from_int w) = word_of_int ((uint v div 2 ^ 32 + uint w) mod 2 ^ 32)"
    by (simp only: whole_word_of_int)
  also have "\<dots> = word_of_int (uint v div 2 ^ 32) + w"
  proof -
    have "word_of_int (x mod 2 ^ 32) = (word_of_int x :: u32)" for x
      by (simp add: word_of_int_eq_iff take_bit_eq_mod)
    then show ?thesis by (simp only: of_int_add word_of_int_uint)
  qed
  finally show ?thesis by (simp add: whole_word_of_int)
qed

definition times_in_step :: "u32 \<Rightarrow> (u32 \<times> bool) list \<Rightarrow> audio_system \<Rightarrow> bool" where
  "times_in_step d ts s \<longleftrightarrow>
     (let data = audio_data s; step = qu32_32_from_int d; n = length (block_times s) in
      block_duration data = step \<and>
      (\<forall>i < n. bt_i2s_time (block_times s ! i) = i2s_time data - of_nat (n - i) * step) \<and>
      (ts \<noteq> [] \<longrightarrow> fst (last ts) + d = qu32_32_whole (i2s_time data - of_nat n * step - target_theta data)) \<and>
      successively (abut d) ts)"

lemma interrupt_in_step:
  assumes "times_in_step d ts s" "length (block_times s) < AUDIO_BLOCK_COUNT"
    "run_state (audio_egu_handler captured) s = (u, s')"
  shows "times_in_step d ts s'"
proof -
  have s': "s' = s\<lparr>audio_data := (audio_data s)\<lparr>i2s_time := i2s_time (audio_data s) + block_duration (audio_data s)\<rparr>,
      block_times := block_times s @ [\<lparr>bt_i2s_time = i2s_time (audio_data s), bt_ref_time = captured\<rparr>]\<rparr>"
    using assms(2,3) by (simp add: audio_egu_handler_def Let_def)
  have old: "i < length (block_times s) \<Longrightarrow> of_nat (Suc (length (block_times s)) - i) = (1 :: u64) + of_nat (length (block_times s) - i)" for i
    by (simp add: Suc_diff_le)
  show ?thesis using assms(1)
    by (auto simp: s' times_in_step_def Let_def nth_append less_Suc_eq old algebra_simps)
qed

lemma block_in_step:
  assumes inv: "times_in_step d ts s" and bt: "run_state next_block_time s = (Some bt, s')"
    and run: "run_state (audio_sync_update pf bt) s' = (t, s'')"
  shows "times_in_step d (ts @ [(t, est_status (audio_est (audio_data s)) = FREQ_EST_STATUS_RESET)]) s''"
proof -
  obtain bts where q: "block_times s = bt # bts" and s': "s' = s\<lparr>block_times := bts\<rparr>"
    using bt by (auto simp: next_block_time_def split: list.splits)
  let ?data = "audio_data s" and ?step = "qu32_32_from_int d" and ?reset = "est_status (audio_est (audio_data s)) = FREQ_EST_STATUS_RESET"
  note i = inv [unfolded times_in_step_def Let_def q]
  have now: "bt_i2s_time bt = i2s_time ?data - of_nat (Suc (length bts)) * ?step" using i by (metis diff_zero length_Cons nth_Cons_0 zero_less_Suc)
  have rest: "i < length bts \<Longrightarrow> bt_i2s_time (bts ! i) = i2s_time ?data - of_nat (length bts - i) * ?step" for i
    using i by (metis Suc_less_eq diff_Suc_Suc length_Cons nth_Cons_Suc)
  have t: "t = qu32_32_whole (bt_i2s_time bt - target_theta (audio_data s''))"
    and fields: "block_duration (audio_data s'') = block_duration ?data" "i2s_time (audio_data s'') = i2s_time ?data"
      "block_times s'' = bts"
    and keep: "\<not> ?reset \<Longrightarrow> target_theta (audio_data s'') = target_theta ?data"
    using run by (auto simp: s' audio_sync_update_def freq_est_update_def Let_def split: prod.splits if_splits)
  have "t + d = qu32_32_whole (i2s_time ?data - of_nat (length bts) * ?step - target_theta (audio_data s''))"
  proof -
    have "i2s_time ?data - of_nat (length bts) * ?step - target_theta (audio_data s'') =
        (bt_i2s_time bt - target_theta (audio_data s'')) + ?step" by (simp add: now algebra_simps)
    then show ?thesis by (simp only: t whole_add)
  qed
  moreover have "abut d (last ts) (t, ?reset)" if "ts \<noteq> []"
  proof (cases ?reset)
    case False
    then have "t = fst (last ts) + d" using i that keep unfolding t now by simp
    then show ?thesis by (simp add: abut_def)
  qed (simp add: abut_def)
  ultimately show ?thesis
    using i rest fields by (auto simp: times_in_step_def Let_def successively_append_iff)
qed



section \<open>Settings\<close>

definition name_functions :: "audio_platform \<Rightarrow> bool" where
  \<comment> \<open>what the documentation of the settings says of the two functions, for keys with another component\<close>
  "name_functions pf \<longleftrightarrow>
     (\<forall>w rest. CHR ''/'' \<notin> set w \<and> CHR ''='' \<notin> set w \<longrightarrow>
        au_name_steq pf (w @ CHR ''/'' # rest) w = Some (Some rest) \<and>
        au_name_next pf (w @ CHR ''/'' # rest) = (length w, Some rest))"

lemma load_saved_key:
  assumes "name_functions pf" "audio_channel_to_string ch = Some w" "channel_property setting = Some (prop, num)"
  shows "run_state (audio_settings_load_cb pf (''ch/'' @ w @ ''/'' @ setting, 4, v)) s =
    (Some (), s\<lparr>audio_calls := audio_calls s @ [(codec_set prop ch (num v), au_env pf (audio_calls s) (codec_set prop ch (num v)))]\<rparr>)"
proof -
  have w: "w = ''left'' \<and> ch = AUDIO_CHANNEL_FRONT_LEFT \<or> w = ''right'' \<and> ch = AUDIO_CHANNEL_FRONT_RIGHT"
    using assms(2) by (auto simp: audio_channel_to_string_def split: if_splits)
  have "au_name_steq pf (''ch'' @ CHR ''/'' # w @ ''/'' @ setting) ''ch'' = Some (Some (w @ ''/'' @ setting))"
    using assms(1) [unfolded name_functions_def, rule_format, of "''ch''"] by simp
  moreover have "au_name_next pf (w @ CHR ''/'' # setting) = (length w, Some setting)"
  proof -
    have "CHR ''/'' \<notin> set w" "CHR ''='' \<notin> set w" using w by auto
    then show ?thesis using assms(1) unfolding name_functions_def by blast
  qed
  moreover have "audio_channel_from_string_prefix (w @ CHR ''/'' # setting) (length w) = Some ch"
    using w by (elim disjE conjE) (simp_all add: audio_channel_from_string_prefix_def string_partial_match_def)
  ultimately show ?thesis using assms(3) by (simp add: audio_settings_load_cb_def)
qed

definition saved_bytes :: "u32 \<Rightarrow> string" where
  "saved_bytes v = map (\<lambda>b. char_of (unat b)) (put_le32 v)"

lemma set_property_saves:
  assumes "run_state (audio_set_property pf prop num setting ch v) s = (0, s')"
  shows "\<exists>w. audio_channel_to_string ch = Some w \<and>
    calls (audio_calls s') = calls (audio_calls s) @
      [codec_set prop ch (num v), CodecCall ''apply_properties'' [], SettingsSave (''audio/ch/'' @ w @ ''/'' @ setting) (saved_bytes v)]"
  using assms
  by (auto simp: audio_set_property_def audio_settings_channel_save_def channel_key_def saved_bytes_def split: option.splits if_splits)

text \<open>
  Property C33. A gain or an impedance that was set is set again at the next start. When a setter reports
  success it has set the property in the codec, applied it and saved it under a key; the callback of the settings, given this
  key and value, sets the same property of the same channel to the same value, negative gains included, and nothing else.
\<close>
theorem saved_property_restored:
  assumes "name_functions pf"
    and "(setter, prop, num) \<in> {(audio_set_analog_gain, INPUT_CODEC_PROPERTY_ANALOG_GAIN, sint),
      (audio_set_digital_gain, INPUT_CODEC_PROPERTY_DIGITAL_GAIN, sint), (audio_set_impedance, INPUT_CODEC_PROPERTY_IMPEDANCE, uint)}"
    and "run_state (setter pf ch v) s = (0, s')"
  shows "\<exists>key.
    calls (audio_calls s') = calls (audio_calls s) @
      [codec_set prop ch (num v), CodecCall ''apply_properties'' [], SettingsSave (''audio/'' @ key) (saved_bytes v)] \<and>
    fst (run_state (audio_settings_load_cb pf (key, 4, v)) t) = Some () \<and>
    calls (audio_calls (snd (run_state (audio_settings_load_cb pf (key, 4, v)) t))) =
      calls (audio_calls t) @ [codec_set prop ch (num v)]"
proof -
  have "\<exists>setting. channel_property setting = Some (prop, num) \<and> setter pf ch v = audio_set_property pf prop num setting ch v"
    using assms(2) unfolding audio_set_analog_gain_def audio_set_digital_gain_def audio_set_impedance_def
    by (elim insertE emptyE)
      (rule exI [of _ "''a_gain''"] exI [of _ "''d_gain''"] exI [of _ "''imp''"], simp add: channel_property_def)+
  then obtain setting where name: "channel_property setting = Some (prop, num)"
    and "run_state (audio_set_property pf prop num setting ch v) s = (0, s')" using assms(3) by auto
  from set_property_saves [OF this(2)] obtain w where w: "audio_channel_to_string ch = Some w"
    and saved: "calls (audio_calls s') = calls (audio_calls s) @ [codec_set prop ch (num v), CodecCall ''apply_properties'' [],
      SettingsSave (''audio/ch/'' @ w @ ''/'' @ setting) (saved_bytes v)]" by blast
  show ?thesis
    using saved load_saved_key [OF assms(1) w name, of v t]
    by (intro exI [of _ "''ch/'' @ w @ ''/'' @ setting"]) simp
qed

lemma quiet_name_functions: "name_functions (board_audio)"
proof -
  have "takeWhile (\<lambda>c. c \<noteq> CHR ''/'' \<and> c \<noteq> CHR ''='') (w @ CHR ''/'' # rest) = w"
    if "CHR ''/'' \<notin> set w" "CHR ''='' \<notin> set w" for w rest :: string
  proof -
    have "takeWhile (\<lambda>c. c \<noteq> CHR ''/'' \<and> c \<noteq> CHR ''='') (w @ CHR ''/'' # rest) =
        w @ takeWhile (\<lambda>c. c \<noteq> CHR ''/'' \<and> c \<noteq> CHR ''='') (CHR ''/'' # rest)"
      using that by (intro takeWhile_append2) blast
    then show ?thesis by simp
  qed
  then show ?thesis by (simp add: name_functions_def board_audio_def quiet_name_steq_def quiet_name_next_def Let_def)
qed

lemma saved_property_restored_witness:
  "\<exists>key. calls (audio_calls (snd (run_state (audio_set_analog_gain board_audio 1 (- 6)) audio_idle))) =
      [codec_set INPUT_CODEC_PROPERTY_ANALOG_GAIN 1 (- 6), CodecCall ''apply_properties'' [],
       SettingsSave (''audio/'' @ key) (saved_bytes (- 6))] \<and>
    calls (audio_calls (snd (run_state (audio_settings_load_cb board_audio (key, 4, - 6)) audio_idle))) =
      [codec_set INPUT_CODEC_PROPERTY_ANALOG_GAIN 1 (- 6)]"
proof -
  obtain s' where run: "run_state (audio_set_analog_gain board_audio 1 (- 6)) audio_idle = (0, s')"
    by (simp add: audio_set_analog_gain_def audio_set_property_def audio_settings_channel_save_def channel_key_def
        audio_channel_to_string_def KEY_SIZE_def audio_idle_def board_audio_def)
  from saved_property_restored [OF quiet_name_functions, of audio_set_analog_gain INPUT_CODEC_PROPERTY_ANALOG_GAIN sint,
      OF _ run, of audio_idle]
  obtain key where "calls (audio_calls s') = calls (audio_calls audio_idle) @ [codec_set INPUT_CODEC_PROPERTY_ANALOG_GAIN 1 (sint (- 6 :: u32)),
      CodecCall ''apply_properties'' [], SettingsSave (''audio/'' @ key) (saved_bytes (- 6))]"
    "calls (audio_calls (snd (run_state (audio_settings_load_cb board_audio (key, 4, - 6)) audio_idle))) =
      calls (audio_calls audio_idle) @ [codec_set INPUT_CODEC_PROPERTY_ANALOG_GAIN 1 (sint (- 6 :: u32))]" by auto
  moreover have "audio_calls audio_idle = []" by (simp add: audio_idle_def)
  moreover have "snd (run_state (audio_set_analog_gain board_audio 1 (- 6)) audio_idle) = s'" unfolding run by simp
  ultimately show ?thesis by (intro exI [of _ key]) simp
qed

section \<open>Packing of samples\<close>

text \<open>Converting in place gives the upper three bytes of every sample, in order.\<close>

definition upper_bytes :: "u8 list \<Rightarrow> nat \<Rightarrow> u8 list" where
  "upper_bytes bs n = concat (map (\<lambda>k. slice (4 * k + 1) 3 bs) [0..<n])"

lemma length_upper_bytes: "4 * n \<le> length bs \<Longrightarrow> length (upper_bytes bs n) = 3 * n"
  by (induction n) (simp_all add: upper_bytes_def)

lemma to_24_loop_upper:
  assumes "n - k \<le> fuel" "k \<le> n" "4 * n \<le> length bs"
  shows "to_24_loop fuel (4 * k + 1) (3 * k) (4 * n) (upper_bytes bs k @ drop (3 * k) bs) = upper_bytes bs n @ drop (3 * n) bs"
  using assms
proof (induction fuel arbitrary: k)
  case (Suc fuel)
  show ?case
  proof (cases "k < n")
    case True
    have len: "length (upper_bytes bs k) = 3 * k" using Suc.prems by (intro length_upper_bytes) simp
    have "slice (4 * k + 1) 3 (upper_bytes bs k @ drop (3 * k) bs) = slice (4 * k + 1) 3 bs"
      by (simp add: slice_def len)
    moreover have "upper_bytes bs (Suc k) = upper_bytes bs k @ slice (4 * k + 1) 3 bs" by (simp add: upper_bytes_def)
    moreover have "length (slice (4 * k + 1) 3 bs) = 3" using True Suc.prems by simp
    ultimately have "blit (3 * k) (slice (4 * k + 1) 3 (upper_bytes bs k @ drop (3 * k) bs)) (upper_bytes bs k @ drop (3 * k) bs) =
        upper_bytes bs (Suc k) @ drop (3 * Suc k) bs"
      by (simp add: blit_def len add.commute)
    then show ?thesis using True Suc.IH [of "Suc k"] Suc.prems by (simp add: add.commute)
  qed (use Suc.prems in simp)
qed simp

lemma audio_buffer_packed:
  assumes "len = 4 * n" "len \<le> length bs"
  shows "audio_buffer_32_to_24 bs len = (3 * n, upper_bytes bs n @ drop (3 * n) bs)"
proof -
  have "n - 0 \<le> length bs" "4 * n \<le> length bs" using assms by simp_all
  from to_24_loop_upper [OF this(1) _ this(2)] show ?thesis
    by (simp add: audio_buffer_32_to_24_def assms(1) upper_bytes_def)
qed

end
