(* ===== verification/Power_Switch.thy ===== *)
theory Power_Switch
  imports Charger Regulators Recorder
begin

text \<open>
  Switching a node on and off, \<^verbatim>\<open>firmware/common/src/power.c\<close>: why the node was woken, whether it stays on, the button
  that switches it off and the LED that shows the battery. It runs on the models of the charger, of its ship
  mode, of the LED module and, through the shutdown hook of \<^verbatim>\<open>audio/app/src/power.c\<close>, of the recorder.
  After \<open>sys_poweroff\<close> nothing is executed; such a result is \<open>None\<close>.
\<close>

section \<open>State\<close>

definition BQ2515X_EVENT_CHARGE_DONE :: nat where "BQ2515X_EVENT_CHARGE_DONE = BQ2515X_EVENT_INDEX 0 5"
definition BQ2515X_EVENT_VIN_PGOOD :: nat where "BQ2515X_EVENT_VIN_PGOOD = BQ2515X_EVENT_INDEX 0 0"
definition BQ2515X_EVENT_MRWAKE2_TIMEOUT :: nat where "BQ2515X_EVENT_MRWAKE2_TIMEOUT = BQ2515X_EVENT_INDEX 3 1"

definition POWER_EVENT_BOOTED :: u32 where "POWER_EVENT_BOOTED = BIT 0"
definition POWER_EVENT_MR_WAKE2 :: u32 where "POWER_EVENT_MR_WAKE2 = BIT 1"
definition POWER_EVENT_CHARGE :: u32 where "POWER_EVENT_CHARGE = BIT 2"

text \<open>The reset causes of Zephyr's \<^verbatim>\<open>hwinfo\<close>.\<close>

definition RESET_SOFTWARE :: u32 where "RESET_SOFTWARE = BIT 1"
definition RESET_LOW_POWER_WAKE :: u32 where "RESET_LOW_POWER_WAKE = BIT 7"

record power_system =
  pw_charger :: charger_bq2515x_data
  pw_led :: led_system
  pw_rec :: record_system
  pw_events :: u32
  pw_calls :: trace

record power_platform =
  pw_env :: env
  pw_node :: led_node
  pw_led_config :: lp58xx_config
  pw_charger_config :: charger_bq2515x_config
  pw_hooks :: "int recorder list"    \<comment> \<open>in the order of their priority\<close>
  pw_poweroff :: bool                \<comment> \<open>\<open>CONFIG_POWEROFF\<close>\<close>
  pw_hwinfo :: bool                  \<comment> \<open>\<open>CONFIG_HWINFO\<close>\<close>

type_synonym 'a power = "(power_system, 'a) state"

definition pw_call :: "power_platform \<Rightarrow> ext_call \<Rightarrow> reply power" where
  "pw_call pf c = zoom pw_calls (\<lambda>t s. s\<lparr>pw_calls := t\<rparr>) (ext (pw_env pf) c)"

definition on_charger :: "'a charger \<Rightarrow> 'a power" where
  "on_charger = zoom pw_charger (\<lambda>t s. s\<lparr>pw_charger := t\<rparr>)"

definition power_led :: "(led_system, int) state \<Rightarrow> unit power" where
  \<comment> \<open>the result is ignored\<close>
  "power_led m = State (\<lambda>s. ((), s\<lparr>pw_led := snd (run_state m (pw_led s))\<rparr>))"

definition post_events :: "u32 \<Rightarrow> unit power" where
  "post_events m = State (\<lambda>s. ((), s\<lparr>pw_events := pw_events s OR m\<rparr>))"

definition test_events :: "u32 \<Rightarrow> u32 power" where
  "test_events m = State (\<lambda>s. (pw_events s AND m, s))"

lemma run_power [simp]:
  "run_state (pw_call pf c) s =
     (pw_env pf (pw_calls s) c, s\<lparr>pw_calls := pw_calls s @ [(c, pw_env pf (pw_calls s) c)]\<rparr>)"
  "run_state (on_charger m) s = (case run_state m (pw_charger s) of (a, t) \<Rightarrow> (a, s\<lparr>pw_charger := t\<rparr>))"
  "run_state (power_led l) s = ((), s\<lparr>pw_led := snd (run_state l (pw_led s))\<rparr>)"
  "run_state (post_events b) s = ((), s\<lparr>pw_events := pw_events s OR b\<rparr>)"
  "run_state (test_events b) s = (pw_events s AND b, s)"
  by (simp_all add: pw_call_def on_charger_def power_led_def post_events_def test_events_def)

section \<open>Operations\<close>

definition power_off :: "power_platform \<Rightarrow> unit option power" where
  "power_off pf =
     do { power_led (led_shutdown (pw_node pf) (pw_env pf) (pw_led_config pf));
          _ \<leftarrow> pw_call pf (SysCall ''log_panic'' []);
          _ \<leftarrow> pw_call pf (MSleep 100);
          _ \<leftarrow> on_charger (on_mfd (regulator_bq2515x_ship_mode (pw_env pf) (ch_mfd_config (pw_charger_config pf))));
          if pw_poweroff pf
          then do { _ \<leftarrow> pw_call pf (SysCall ''sys_poweroff'' []); return None }
          else return (Some ()) }"

primrec run_hooks :: "int recorder list \<Rightarrow> unit power" where
  "run_hooks [] = return ()"
| "run_hooks (h # hs) =
     do { _ \<leftarrow> State (\<lambda>s. ((), s\<lparr>pw_rec := snd (run_state h (pw_rec s))\<rparr>)); run_hooks hs }"

definition power_shutdown :: "power_platform \<Rightarrow> unit option power" where
  "power_shutdown pf = do { run_hooks (pw_hooks pf); power_off pf }"

definition power_update_charge_status :: "power_platform \<Rightarrow> int power" where
  "power_update_charge_status pf =
     do { r \<leftarrow> on_charger (bq2515x_get_prop (pw_env pf) (pw_charger_config pf) CHARGER_PROP_STATUS);
          case r of
            Some (Inl ret) \<Rightarrow> return ret
          | Some (Inr (Status CHARGER_STATUS_CHARGING)) \<Rightarrow>
              do { power_led (led_battery_charging (pw_node pf) (pw_env pf) (pw_led_config pf)); return 0 }
          | Some (Inr (Status CHARGER_STATUS_FULL)) \<Rightarrow>
              do { power_led (led_battery_full (pw_node pf) (pw_env pf) (pw_led_config pf)); return 0 }
          | _ \<Rightarrow> do { power_led (led_battery_discharging (pw_node pf) (pw_env pf) (pw_led_config pf)); return 0 } }"

definition power_mr_wake2_handler :: "power_platform \<Rightarrow> u32 \<Rightarrow> unit option power" where
  "power_mr_wake2_handler pf events =
     do { on \<leftarrow> (if events AND BIT BQ2515X_EVENT_MRWAKE2_TIMEOUT \<noteq> 0 then do {
                   post_events POWER_EVENT_MR_WAKE2;
                   booted \<leftarrow> test_events POWER_EVENT_BOOTED;
                   if booted \<noteq> 0 then power_shutdown pf else return (Some ()) }
                 else return (Some ()));
          case on of
            None \<Rightarrow> return None
          | Some _ \<Rightarrow>
              if events AND (BIT BQ2515X_EVENT_CHARGE_DONE OR BIT BQ2515X_EVENT_VIN_PGOOD) \<noteq> 0
              then do { _ \<leftarrow> power_update_charge_status pf;
                        post_events POWER_EVENT_CHARGE;
                        return (Some ()) }
              else return (Some ()) }"

primrec power_wait :: "power_platform \<Rightarrow> u32 \<Rightarrow> u32 list \<Rightarrow> u32 option power" where
  \<comment> \<open>\<open>k_event_wait\<close> with a time-out, in which the callback is called with these events\<close>
  "power_wait pf m [] = do { ev \<leftarrow> test_events m; return (Some ev) }"
| "power_wait pf m (e # es) =
     do { ev \<leftarrow> test_events m;
          if ev \<noteq> 0 then return (Some ev)
          else do {
            on \<leftarrow> power_mr_wake2_handler pf e;
            case on of None \<Rightarrow> return None | Some _ \<Rightarrow> power_wait pf m es } }"

definition power_init :: "power_platform \<Rightarrow> u32 list \<Rightarrow> int option power" where
  \<comment> \<open>the second argument has the events of the charger chip while \<open>k_event_wait\<close> waits\<close>
  "power_init pf meanwhile =
     do { charger \<leftarrow> pw_call pf (DeviceReady ''charger'');
          if r_ret charger = 0 then return (Some (- ENODEV))
          else do {
            button \<leftarrow> pw_call pf (GpioReady ''button'');
            if r_ret button = 0 then return (Some (- ENODEV))
            else do {
              conf \<leftarrow> pw_call pf (GpioConfigure ''button'' ''input'');
              if r_ret conf < 0 then return (Some (r_ret conf))
              else do {
                _ \<leftarrow> power_update_charge_status pf;
                ret \<leftarrow> on_charger (on_mfd (mfd_bq2515x_add_callback (pw_env pf) (ch_mfd_config (pw_charger_config pf))
                  (BIT BQ2515X_EVENT_MRWAKE2_TIMEOUT OR BIT BQ2515X_EVENT_CHARGE_DONE OR BIT BQ2515X_EVENT_VIN_PGOOD)));
                if ret \<noteq> 0 then return (Some ret)
                else do {
                  r \<leftarrow> (if pw_hwinfo pf then do {
                           r \<leftarrow> pw_call pf (SysCall ''hwinfo_get_reset_cause'' []);
                           _ \<leftarrow> (if r_ret r = 0 then pw_call pf (SysCall ''hwinfo_clear_reset_cause'' []) else return r);
                           return r }
                         else return (quiet_reply\<lparr>r_num := uint RESET_SOFTWARE\<rparr>));
                  if r_ret r \<noteq> 0 then return (Some (r_ret r))
                  else do {
                    let reset = (word_of_int (r_num r) :: u32);
                    pressed \<leftarrow> pw_call pf (SysCall ''gpio_pin_get_dt'' []);
                    let power_on = (r_ret pressed \<noteq> 0 \<or> reset AND RESET_SOFTWARE \<noteq> 0);
                    events \<leftarrow> (if reset AND RESET_LOW_POWER_WAKE \<noteq> 0
                               then power_wait pf (POWER_EVENT_MR_WAKE2 OR POWER_EVENT_CHARGE) meanwhile
                               else return (Some 0));
                    case events of
                      None \<Rightarrow> return None
                    | Some events \<Rightarrow> do {
                        on \<leftarrow> (if power_on \<or> events AND POWER_EVENT_MR_WAKE2 \<noteq> 0 then return (Some ()) else power_off pf);
                        case on of
                          None \<Rightarrow> return None
                        | Some _ \<Rightarrow> do { post_events POWER_EVENT_BOOTED; return (Some 0) } } } } } } } }"

section \<open>Switching off while recording\<close>

definition writes_file :: "ext_call \<Rightarrow> bool" where
  "writes_file c \<longleftrightarrow> (case c of FsWrite _ _ \<Rightarrow> True | FsSeekSet _ _ \<Rightarrow> True | FsSync _ \<Rightarrow> True | FsClose _ \<Rightarrow> True | _ \<Rightarrow> False)"

definition recording :: "record_system \<Rightarrow> bool" where
  "recording s \<longleftrightarrow> initialised (rec_data s) \<and>
     (record_phase (rec_data s) = RECORD_RUNNING \<or> record_phase (rec_data s) = RECORD_WAITING_NEW_FILE)"

definition audio_hooks :: "power_platform \<Rightarrow> record_platform \<Rightarrow> bool" where
  "audio_hooks pf rpf \<longleftrightarrow> pw_hooks pf = [record_shutdown rpf]"

lemma shutdown_queues_file:
  assumes "recording s" and "\<And>tr. 0 \<le> r_ret (pf_env rpf tr (MsgqPut ''record_close_queue''))"
    and "run_state (record_shutdown rpf) s = (r, s')"
  shows "close_queue s' = close_queue s @ [rec_file (rec_data s)] \<and>
    (\<exists>evs. rec_calls s' = rec_calls s @ evs \<and> \<not> list_ex writes_file (calls evs))"
proof -
  have queue: "run_state (record_close_file (pf_env rpf)) s =
      ((), s\<lparr>rec_calls := rec_calls s @ [(MsgqPut ''record_close_queue'', pf_env rpf (rec_calls s) (MsgqPut ''record_close_queue''))],
             close_queue := close_queue s @ [rec_file (rec_data s)]\<rparr>)"
    using assms(2) [of "rec_calls s"] by (simp add: record_close_file_def)
  show ?thesis
    using assms(1,3)
    by (auto simp: record_shutdown_def record_stop_unlocked_def recording_def queue audio_stop_def record_stop_with_def
        writes_file_def)
qed


definition recording_node :: power_system where
  "recording_node =
     \<lparr>pw_charger = charger_data_init, pw_led = led_start,
      pw_rec = fresh_recorder\<lparr>rec_data := record_data_init\<lparr>initialised := True, record_phase := RECORD_RUNNING\<rparr>\<rparr>,
      pw_events = POWER_EVENT_BOOTED, pw_calls = []\<rparr>"

definition board_power :: power_platform where
  "board_power =
     \<lparr>pw_env = quiet_env, pw_node = NODE_AUDIO, pw_led_config = board_lp58xx, pw_charger_config = board_charger,
      pw_hooks = [record_shutdown no_space_platform], pw_poweroff = True, pw_hwinfo = True\<rparr>"


end
