(* ===== verification/Hci_Ipc.thy ===== *)
theory Hci_Ipc
  imports Zephyr "HOL-Library.Sublist"
begin

text \<open>
  The HCI transport of the network core, \<^verbatim>\<open>firmware/hci_ipc/src/hci_ipc.c\<close>: messages of the IPC service become
  packets for the Bluetooth controller, packets of the controller become messages. The IPC service, the
  buffer pool and the controller are the environment; the two FIFOs are lists of buffers. A message is the
  list of its bytes; reading behind its end, a null buffer and a loop that runs out of fuel are \<open>None\<close>.
  The two fatal error handlers are modelled as configured with \<open>CONFIG_BT_HCI_VS_FATAL_ERROR\<close>; their final
  endless loop is the end of the model's execution.
\<close>

section \<open>State\<close>

datatype bt_buf_type = BT_BUF_CMD | BT_BUF_EVT | BT_BUF_ACL_OUT | BT_BUF_ACL_IN | BT_BUF_ISO_OUT | BT_BUF_ISO_IN

record net_buf =
  nb_type :: bt_buf_type
  nb_data :: "u8 list"

record hci_system =
  rx_queue :: "net_buf list"
  tx_queue :: "net_buf list"
  ipc_bound_sem :: bool
  ipc_ept_ready :: bool
  rx_running :: bool          \<comment> \<open>the receive thread has taken the semaphore\<close>
  hci_calls :: trace

record hci_platform =
  hci_env :: env
  bt_iso_hdr_len :: "u16 \<Rightarrow> nat"                      \<comment> \<open>Zephyr's macro\<close>
  hci_vs_err_assert :: "string \<Rightarrow> nat \<Rightarrow> net_buf option"
  hci_vs_err_stack_frame :: "nat \<Rightarrow> net_buf option"

type_synonym 'a hci = "(hci_system, 'a) state"

definition hci_call :: "hci_platform \<Rightarrow> ext_call \<Rightarrow> reply hci" where
  "hci_call pf c = zoom hci_calls (\<lambda>t s. s\<lparr>hci_calls := t\<rparr>) (ext (hci_env pf) c)"

abbreviation after_call :: "hci_platform \<Rightarrow> ext_call \<Rightarrow> hci_system \<Rightarrow> hci_system" where
  "after_call pf c s \<equiv> s\<lparr>hci_calls := hci_calls s @ [(c, hci_env pf (hci_calls s) c)]\<rparr>"

lemma run_hci_call [simp]:
  "run_state (hci_call pf c) s = (hci_env pf (hci_calls s) c, after_call pf c s)"
  by (simp add: hci_call_def)

definition HCI_IPC_CMD :: u8 where "HCI_IPC_CMD = 1"
definition HCI_IPC_ACL :: u8 where "HCI_IPC_ACL = 2"
definition HCI_IPC_EVT :: u8 where "HCI_IPC_EVT = 4"
definition HCI_IPC_ISO :: u8 where "HCI_IPC_ISO = 5"

abbreviation (input) GetTx :: "bt_buf_type \<Rightarrow> ext_call" where
  "GetTx ty \<equiv> SysCall ''bt_buf_get_tx'' [case ty of BT_BUF_CMD \<Rightarrow> 0 | BT_BUF_ACL_OUT \<Rightarrow> 2 | _ \<Rightarrow> 4]"

abbreviation (input) Unref :: ext_call where "Unref \<equiv> SysCall ''net_buf_unref'' []"
abbreviation (input) Yield :: ext_call where "Yield \<equiv> SysCall ''k_yield'' []"
abbreviation (input) BtSend :: "net_buf \<Rightarrow> ext_call" where
  "BtSend b \<equiv> Bt ''bt_send'' (map unat (nb_data b))"

section \<open>From the host\<close>

definition recv_packet ::
  "hci_platform \<Rightarrow> bt_buf_type \<Rightarrow> nat \<Rightarrow> (u8 list \<Rightarrow> nat) \<Rightarrow> u8 list \<Rightarrow> net_buf option hci" where
  \<comment> \<open>the steps the three functions below share: the size of the header, the length it states, the bytes\<close>
  "recv_packet pf ty hdr body_len data =
     (if length data < hdr then return None
      else do {
        buf \<leftarrow> hci_call pf (GetTx ty);
        if r_ret buf = 0 then return None
        else if length data - hdr \<noteq> body_len data then do { _ \<leftarrow> hci_call pf Unref; return None }
        else if r_size buf < length data - hdr then do { _ \<leftarrow> hci_call pf Unref; return None }
        else return (Some \<lparr>nb_type = ty, nb_data = take hdr data @ drop hdr data\<rparr>) })"

definition hci_ipc_cmd_recv :: "hci_platform \<Rightarrow> u8 list \<Rightarrow> net_buf option hci" where
  "hci_ipc_cmd_recv pf = recv_packet pf BT_BUF_CMD 3 (\<lambda>data. unat (data ! 2))"

definition hci_ipc_acl_recv :: "hci_platform \<Rightarrow> u8 list \<Rightarrow> net_buf option hci" where
  "hci_ipc_acl_recv pf = recv_packet pf BT_BUF_ACL_OUT 4 (\<lambda>data. unat (get_le16 (drop 2 data)))"

definition hci_ipc_iso_recv :: "hci_platform \<Rightarrow> u8 list \<Rightarrow> net_buf option hci" where
  "hci_ipc_iso_recv pf = recv_packet pf BT_BUF_ISO_OUT 4 (\<lambda>data. bt_iso_hdr_len pf (get_le16 (drop 2 data)))"

definition hci_ipc_recv :: "hci_platform \<Rightarrow> u8 list \<Rightarrow> hci_system \<Rightarrow> hci_system option" where
  "hci_ipc_recv pf message s =
     (case message of
        [] \<Rightarrow> None    \<comment> \<open>the indicator is read from an empty message\<close>
      | pkt_indicator # data \<Rightarrow>
          Some (snd (run_state
            (do { buf \<leftarrow> (if pkt_indicator = HCI_IPC_CMD then hci_ipc_cmd_recv pf data
                           else if pkt_indicator = HCI_IPC_ACL then hci_ipc_acl_recv pf data
                           else if pkt_indicator = HCI_IPC_ISO then hci_ipc_iso_recv pf data
                           else return None);
                  case buf of
                    None \<Rightarrow> return ()
                  | Some b \<Rightarrow> State (\<lambda>s. ((), s\<lparr>tx_queue := tx_queue s @ [b]\<rparr>)) }) s)))"

definition hci_ept_recv :: "hci_platform \<Rightarrow> u8 list \<Rightarrow> hci_system \<Rightarrow> hci_system option" where
  "hci_ept_recv = hci_ipc_recv"

definition tx_thread :: "hci_platform \<Rightarrow> hci_system \<Rightarrow> hci_system" where
  \<comment> \<open>one turn of the thread's loop; it waits when the queue is empty\<close>
  "tx_thread pf s =
     (case tx_queue s of
        [] \<Rightarrow> s
      | b # bs \<Rightarrow>
          snd (run_state
            (do { err \<leftarrow> hci_call pf (BtSend b);
                  _ \<leftarrow> (if r_ret err \<noteq> 0 then do { _ \<leftarrow> hci_call pf Unref; return () } else return ());
                  hci_call pf Yield }) (s\<lparr>tx_queue := bs\<rparr>)))"

section \<open>To the host\<close>

primrec hci_send_loop :: "nat \<Rightarrow> hci_platform \<Rightarrow> u8 list \<Rightarrow> bool \<Rightarrow> u8 \<Rightarrow> hci_system \<Rightarrow> hci_system option" where
  "hci_send_loop 0 pf bytes is_fatal retries s = None"
| "hci_send_loop (Suc n) pf bytes is_fatal retries s =
     (let ret = r_ret (hci_env pf (hci_calls s) (IpcSend bytes)); s = after_call pf (IpcSend bytes) s
      in if ret < 0
         then hci_send_loop n pf bytes is_fatal
                (if 10 < retries + 1 then 0 else retries + 1)
                (if is_fatal then s else after_call pf Yield s)
         else Some s)"

definition pkt_indicator :: "bt_buf_type \<Rightarrow> u8 option" where
  "pkt_indicator ty =
     (case ty of BT_BUF_ACL_IN \<Rightarrow> Some HCI_IPC_ACL | BT_BUF_EVT \<Rightarrow> Some HCI_IPC_EVT
      | BT_BUF_ISO_IN \<Rightarrow> Some HCI_IPC_ISO | _ \<Rightarrow> None)"

definition hci_ipc_send :: "nat \<Rightarrow> hci_platform \<Rightarrow> net_buf option \<Rightarrow> bool \<Rightarrow> hci_system \<Rightarrow> hci_system option" where
  \<comment> \<open>a null pointer is read for its type\<close>
  "hci_ipc_send fuel pf buf is_fatal s =
     (case buf of
        None \<Rightarrow> None
      | Some b \<Rightarrow>
          (case pkt_indicator (nb_type b) of
             None \<Rightarrow> Some (after_call pf Unref s)
           | Some i \<Rightarrow>
               map_option (after_call pf Unref) (hci_send_loop fuel pf (i # nb_data b) is_fatal 0 s)))"

definition rx_thread :: "nat \<Rightarrow> hci_platform \<Rightarrow> hci_system \<Rightarrow> hci_system option" where
  \<comment> \<open>one turn: waiting for the semaphore first, then for packets\<close>
  "rx_thread fuel pf s =
     (if \<not> rx_running s
      then Some (if ipc_bound_sem s then s\<lparr>ipc_bound_sem := False, rx_running := True\<rparr> else s)
      else case rx_queue s of
             [] \<Rightarrow> Some s
           | b # bs \<Rightarrow>
               map_option (after_call pf Yield) (hci_ipc_send fuel pf (Some b) False (s\<lparr>rx_queue := bs\<rparr>)))"

definition hci_ept_bound :: "hci_system \<Rightarrow> hci_system" where
  "hci_ept_bound s = s\<lparr>ipc_bound_sem := True, ipc_ept_ready := True\<rparr>"

section \<open>Fatal errors and initialisation\<close>

definition bt_ctlr_assert_handle :: "nat \<Rightarrow> hci_platform \<Rightarrow> string \<Rightarrow> nat \<Rightarrow> hci_system \<Rightarrow> hci_system option" where
  \<comment> \<open>the state in which the system halts\<close>
  "bt_ctlr_assert_handle fuel pf path line s =
     (let s = after_call pf (SysCall ''irq_lock'' []) s;
          halted = (if ipc_ept_ready s
                    then case hci_vs_err_assert pf path line of
                           None \<Rightarrow> hci_ipc_send fuel pf None True s
                         | Some b \<Rightarrow> Some s
                    else Some s)
      in map_option (after_call pf (SysCall ''log_panic'' [])) halted)"

definition k_sys_fatal_error_handler :: "nat \<Rightarrow> hci_platform \<Rightarrow> nat \<Rightarrow> bool \<Rightarrow> hci_system \<Rightarrow> hci_system option" where
  \<comment> \<open>the third argument: is there a stack frame\<close>
  "k_sys_fatal_error_handler fuel pf reason esf s =
     (let s = after_call pf (SysCall ''irq_lock'' []) s;
          halted = (if esf \<and> ipc_ept_ready s
                    then case hci_vs_err_stack_frame pf reason of
                           None \<Rightarrow> Some s
                         | Some b \<Rightarrow> hci_ipc_send fuel pf (Some b) True s
                    else Some s)
      in map_option (after_call pf (SysCall ''log_panic'' [])) halted)"

definition hci_ipc_init :: "hci_platform \<Rightarrow> int hci" where
  "hci_ipc_init pf =
     do { _ \<leftarrow> hci_call pf (Bt ''bt_enable_raw'' []);
          err \<leftarrow> hci_call pf (SysCall ''ipc_service_open_instance'' []);
          if r_ret err < 0 \<and> r_ret err \<noteq> - EALREADY then return (r_ret err)
          else do {
            err \<leftarrow> hci_call pf (SysCall ''ipc_service_register_endpoint'' []);
            if r_ret err \<noteq> 0 then return (r_ret err)
            else do {
              _ \<leftarrow> hci_call pf (ThreadCreate ''rx_thread'');
              _ \<leftarrow> hci_call pf (SysCall ''k_thread_name_set tx_thread HCI ipc RX'' []);
              _ \<leftarrow> hci_call pf (ThreadCreate ''tx_thread'');
              _ \<leftarrow> hci_call pf (SysCall ''k_thread_name_set tx_thread HCI ipc TX'' []);
              return 0 } } }"

section \<open>Runs of the transport\<close>

text \<open>The steps that happen, in any order; what the controller produces is put in the receive queue.\<close>

datatype hci_step = HostMessage "u8 list" | ControllerPacket net_buf | EndpointBound | RxTurn | TxTurn

definition hci_do :: "nat \<Rightarrow> hci_platform \<Rightarrow> hci_step \<Rightarrow> hci_system \<Rightarrow> hci_system option" where
  "hci_do fuel pf st s =
     (case st of
        HostMessage m \<Rightarrow> hci_ept_recv pf m s
      | ControllerPacket b \<Rightarrow> Some (s\<lparr>rx_queue := rx_queue s @ [b]\<rparr>)
      | EndpointBound \<Rightarrow> Some (hci_ept_bound s)
      | RxTurn \<Rightarrow> rx_thread fuel pf s
      | TxTurn \<Rightarrow> Some (tx_thread pf s))"

primrec hci_run :: "nat \<Rightarrow> hci_platform \<Rightarrow> hci_step list \<Rightarrow> hci_system \<Rightarrow> hci_system option" where
  "hci_run fuel pf [] s = Some s"
| "hci_run fuel pf (st # sts) s = Option.bind (hci_do fuel pf st s) (hci_run fuel pf sts)"

definition messages :: "hci_step list \<Rightarrow> u8 list list" where
  "messages = List.map_filter (\<lambda>st. case st of HostMessage m \<Rightarrow> Some m | _ \<Rightarrow> None)"

definition packets :: "hci_step list \<Rightarrow> net_buf list" where
  "packets = List.map_filter (\<lambda>st. case st of ControllerPacket b \<Rightarrow> Some b | _ \<Rightarrow> None)"

text \<open>What the protocol asks for: the packet in a message of the host, the message for a packet of the controller.\<close>

definition host_packet :: "hci_platform \<Rightarrow> u8 list \<Rightarrow> u8 list option" where
  "host_packet pf m =
     (let d = tl m in
      if hd m = 1 \<and> 3 \<le> length d \<and> length d = 3 + unat (d ! 2) \<or>
         hd m = 2 \<and> 4 \<le> length d \<and> length d = 4 + unat (get_le16 (drop 2 d)) \<or>
         hd m = 5 \<and> 4 \<le> length d \<and> length d = 4 + bt_iso_hdr_len pf (get_le16 (drop 2 d))
      then Some d else None)"

definition controller_message :: "net_buf \<Rightarrow> u8 list option" where
  "controller_message b = map_option (\<lambda>i. i # nb_data b) (pkt_indicator (nb_type b))"

text \<open>What the calls made so far handed over, and the balance of the buffers.\<close>

definition given_event :: "ext_call \<times> reply \<Rightarrow> u8 list option" where
  "given_event ev = (case fst ev of Bt f ns \<Rightarrow> if f = ''bt_send'' then Some (map of_nat ns) else None | _ \<Rightarrow> None)"

definition given :: "trace \<Rightarrow> u8 list list" where
  "given = List.map_filter given_event"

definition sent_event :: "ext_call \<times> reply \<Rightarrow> u8 list option" where
  "sent_event ev = (case fst ev of IpcSend bs \<Rightarrow> if 0 \<le> r_ret (snd ev) then Some bs else None | _ \<Rightarrow> None)"

definition sent_to_host :: "trace \<Rightarrow> u8 list list" where
  "sent_to_host = List.map_filter sent_event"

definition buffer_change :: "ext_call \<times> reply \<Rightarrow> int" where
  "buffer_change ev =
     (case fst ev of
        SysCall f ns \<Rightarrow> if f = ''bt_buf_get_tx'' \<and> r_ret (snd ev) \<noteq> 0 then 1
                        else if f = ''net_buf_unref'' then - 1 else 0
      | Bt f ns \<Rightarrow> if f = ''bt_send'' \<and> r_ret (snd ev) = 0 then - 1 else 0
      | _ \<Rightarrow> 0)"

definition buffers :: "trace \<Rightarrow> int" where
  "buffers tr = sum_list (map buffer_change tr)"

lemma map_filter_append [simp]: "List.map_filter f (xs @ ys) = List.map_filter f xs @ List.map_filter f ys"
  by (induction xs) (simp_all add: List.map_filter_def)

lemma hci_views [simp]:
  "given [] = []" "given (tr @ tr') = given tr @ given tr'"
  "given (ev # tr) = (case given_event ev of None \<Rightarrow> [] | Some x \<Rightarrow> [x]) @ given tr"
  "sent_to_host [] = []" "sent_to_host (tr @ tr') = sent_to_host tr @ sent_to_host tr'"
  "sent_to_host (ev # tr) = (case sent_event ev of None \<Rightarrow> [] | Some x \<Rightarrow> [x]) @ sent_to_host tr"
  "buffers [] = 0" "buffers (tr @ tr') = buffers tr + buffers tr'" "buffers (ev # tr) = buffer_change ev + buffers tr"
  by (simp_all add: given_def sent_to_host_def buffers_def List.map_filter_def split: option.split)

lemma hci_events [simp]:
  "given_event (SysCall f ns, r) = None" "given_event (IpcSend bs, r) = None"
  "given_event (Bt ''bt_send'' ns, r) = Some (map of_nat ns)"
  "sent_event (SysCall f ns, r) = None" "sent_event (Bt f ns, r) = None"
  "sent_event (IpcSend bs, r) = (if 0 \<le> r_ret r then Some bs else None)"
  "buffer_change (IpcSend bs, r) = 0"
  "buffer_change (SysCall ''k_yield'' ns, r) = 0"
  "buffer_change (SysCall ''net_buf_unref'' ns, r) = - 1"
  "buffer_change (SysCall ''bt_buf_get_tx'' ns, r) = (if r_ret r \<noteq> 0 then 1 else 0)"
  "buffer_change (Bt ''bt_send'' ns, r) = (if r_ret r = 0 then - 1 else 0)"
  by (simp_all add: given_event_def sent_event_def buffer_change_def)

text \<open>Buffers for packets of up to \<open>n\<close> bytes never run out.\<close>

definition ample_buffers :: "nat \<Rightarrow> hci_platform \<Rightarrow> bool" where
  "ample_buffers n pf \<longleftrightarrow>
     (\<forall>tr ns. r_ret (hci_env pf tr (SysCall ''bt_buf_get_tx'' ns)) \<noteq> 0 \<and>
              n \<le> r_size (hci_env pf tr (SysCall ''bt_buf_get_tx'' ns)))"

text \<open>The calls of \<open>k\<close> failed attempts to send, and a service that accepts one of the first \<open>fuel\<close> attempts.\<close>

primrec retried :: "env \<Rightarrow> u8 list \<Rightarrow> nat \<Rightarrow> trace \<Rightarrow> trace" where
  "retried env bs 0 tr = tr"
| "retried env bs (Suc k) tr =
     retried env bs k
       (let tr = tr @ [(IpcSend bs, env tr (IpcSend bs))] in tr @ [(Yield, env tr Yield)])"

definition service_accepts :: "nat \<Rightarrow> env \<Rightarrow> bool" where
  "service_accepts fuel env \<longleftrightarrow> (\<forall>tr bs. \<exists>k<fuel. 0 \<le> r_ret (env (retried env bs k tr) (IpcSend bs)))"

lemma hci_send_loop_accepted:
  assumes "\<exists>k<fuel. 0 \<le> r_ret (hci_env pf (retried (hci_env pf) bs k (hci_calls s)) (IpcSend bs))"
  shows "\<exists>tr. hci_send_loop fuel pf bs False retries s = Some (s\<lparr>hci_calls := tr\<rparr>) \<and>
    given tr = given (hci_calls s) \<and> sent_to_host tr = sent_to_host (hci_calls s) @ [bs] \<and>
    buffers tr = buffers (hci_calls s)"
  using assms
proof (induction fuel arbitrary: s retries)
  case 0
  then show ?case by simp
next
  case (Suc n)
  let ?r = "hci_env pf (hci_calls s) (IpcSend bs)" and ?s = "after_call pf Yield (after_call pf (IpcSend bs) s)"
  show ?case
  proof (cases "r_ret ?r < 0")
    case True
    obtain k where k: "k < Suc n" "0 \<le> r_ret (hci_env pf (retried (hci_env pf) bs k (hci_calls s)) (IpcSend bs))"
      using Suc.prems by blast
    with True obtain j where j: "k = Suc j" by (cases k) auto
    have "\<exists>i<n. 0 \<le> r_ret (hci_env pf (retried (hci_env pf) bs i (hci_calls ?s)) (IpcSend bs))"
      using k j by (intro exI [of _ j]) (simp add: Let_def)
    from Suc.IH [OF this, of "if 10 < retries + 1 then 0 else retries + 1"]
    obtain tr where tr: "hci_send_loop n pf bs False (if 10 < retries + 1 then 0 else retries + 1) ?s = Some (?s\<lparr>hci_calls := tr\<rparr>)"
      "given tr = given (hci_calls ?s)" "sent_to_host tr = sent_to_host (hci_calls ?s) @ [bs]"
      "buffers tr = buffers (hci_calls ?s)" by blast
    have "hci_send_loop (Suc n) pf bs False retries s = Some (s\<lparr>hci_calls := tr\<rparr>)"
      using tr(1) True by (simp add: Let_def)
    then show ?thesis using tr(2-4) True by (intro exI [of _ tr]) simp
  next
    case False
    then show ?thesis by (simp add: Let_def) (rule exI [of _ "hci_calls s @ [(IpcSend bs, ?r)]"], simp)
  qed
qed

section \<open>What a run keeps\<close>

definition hci_inv :: "nat \<Rightarrow> hci_platform \<Rightarrow> u8 list list \<Rightarrow> net_buf list \<Rightarrow> hci_system \<Rightarrow> bool" where
  "hci_inv n pf ms ps s \<longleftrightarrow>
     subseq (given (hci_calls s) @ map nb_data (tx_queue s)) (List.map_filter (host_packet pf) ms) \<and>
     (ample_buffers n pf \<and> (\<forall>m\<in>set ms. length m \<le> n) \<longrightarrow>
        given (hci_calls s) @ map nb_data (tx_queue s) = List.map_filter (host_packet pf) ms) \<and>
     sent_to_host (hci_calls s) @ List.map_filter controller_message (rx_queue s) =
        List.map_filter controller_message ps \<and>
     int (length ps) + buffers (hci_calls s) = int (length (rx_queue s) + length (tx_queue s))"

lemma recv_packet_effect:
  assumes "run_state (recv_packet pf ty hdr body_len d) s = (b, s')"
  shows "\<exists>tr. s' = s\<lparr>hci_calls := tr\<rparr> \<and> given tr = given (hci_calls s) \<and> sent_to_host tr = sent_to_host (hci_calls s) \<and>
    (b = None \<and> buffers tr = buffers (hci_calls s) \<and>
       (hdr \<le> length d \<and> length d = hdr + body_len d \<and> length d \<le> n \<longrightarrow> \<not> ample_buffers n pf) \<or>
     b = Some \<lparr>nb_type = ty, nb_data = d\<rparr> \<and> buffers tr = buffers (hci_calls s) + 1 \<and>
       hdr \<le> length d \<and> length d = hdr + body_len d)"
proof -
  let ?r = "hci_env pf (hci_calls s) (GetTx ty)"
  have ample: "ample_buffers n pf \<Longrightarrow> r_ret ?r \<noteq> 0 \<and> n \<le> r_size ?r"
    unfolding ample_buffers_def by blast
  consider (short) "length d < hdr" | (none) "hdr \<le> length d" "r_ret ?r = 0"
    | (wrong) "hdr \<le> length d" "r_ret ?r \<noteq> 0" "length d - hdr \<noteq> body_len d"
    | (room) "hdr \<le> length d" "r_ret ?r \<noteq> 0" "length d - hdr = body_len d" "r_size ?r < length d - hdr"
    | (taken) "hdr \<le> length d" "r_ret ?r \<noteq> 0" "length d - hdr = body_len d" "\<not> r_size ?r < length d - hdr"
    by linarith
  then show ?thesis
  proof cases
    case short
    then show ?thesis using assms by (intro exI [of _ "hci_calls s"]) (auto simp: recv_packet_def)
  next
    case none
    then show ?thesis using assms ample
      by (intro exI [of _ "hci_calls s @ [(GetTx ty, ?r)]"]) (auto simp: recv_packet_def)
  next
    case wrong
    then show ?thesis using assms
      by (intro exI [of _ "hci_calls s @ [(GetTx ty, ?r), (Unref, hci_env pf (hci_calls s @ [(GetTx ty, ?r)]) Unref)]"])
        (auto simp: recv_packet_def)
  next
    case room
    then show ?thesis using assms ample
      by (intro exI [of _ "hci_calls s @ [(GetTx ty, ?r), (Unref, hci_env pf (hci_calls s @ [(GetTx ty, ?r)]) Unref)]"])
        (auto simp: recv_packet_def)
  next
    case taken
    then show ?thesis using assms
      by (intro exI [of _ "hci_calls s @ [(GetTx ty, ?r)]"]) (auto simp: recv_packet_def)
  qed
qed

lemma host_packet_cases:
  "host_packet pf (i # d) =
     (if i = HCI_IPC_CMD then if 3 \<le> length d \<and> length d = 3 + unat (d ! 2) then Some d else None
      else if i = HCI_IPC_ACL then if 4 \<le> length d \<and> length d = 4 + unat (get_le16 (drop 2 d)) then Some d else None
      else if i = HCI_IPC_ISO then if 4 \<le> length d \<and> length d = 4 + bt_iso_hdr_len pf (get_le16 (drop 2 d)) then Some d else None
      else None)"
  by (simp add: host_packet_def HCI_IPC_CMD_def HCI_IPC_ACL_def HCI_IPC_ISO_def Let_def)

text \<open>A message of the host puts at most its packet in the queue of the controller.\<close>

lemma hci_recv_effect:
  assumes "hci_ipc_recv pf (i # d) s = Some s'"
  shows "\<exists>tr q. s' = s\<lparr>hci_calls := tr, tx_queue := tx_queue s @ q\<rparr> \<and> given tr = given (hci_calls s) \<and>
    sent_to_host tr = sent_to_host (hci_calls s) \<and> buffers tr = buffers (hci_calls s) + int (length q) \<and>
    (q = [] \<and> (length d \<le> n \<and> ample_buffers n pf \<longrightarrow> host_packet pf (i # d) = None) \<or>
     map nb_data q = [d] \<and> host_packet pf (i # d) = Some d)"
proof -
  define m where "m = (if i = HCI_IPC_CMD then hci_ipc_cmd_recv pf d
    else if i = HCI_IPC_ACL then hci_ipc_acl_recv pf d
    else if i = HCI_IPC_ISO then hci_ipc_iso_recv pf d else return None)"
  obtain b s1 where m: "run_state m s = (b, s1)" by fastforce
  have s': "s' = (case b of None \<Rightarrow> s1 | Some x \<Rightarrow> s1\<lparr>tx_queue := tx_queue s1 @ [x]\<rparr>)"
    using assms m unfolding hci_ipc_recv_def m_def by (cases b) simp_all
  let ?claim = "\<lambda>tr. s1 = s\<lparr>hci_calls := tr\<rparr> \<and> given tr = given (hci_calls s) \<and> sent_to_host tr = sent_to_host (hci_calls s) \<and>
      (b = None \<and> buffers tr = buffers (hci_calls s) \<and>
         (length d \<le> n \<and> ample_buffers n pf \<longrightarrow> host_packet pf (i # d) = None) \<or>
       (\<exists>ty. b = Some \<lparr>nb_type = ty, nb_data = d\<rparr>) \<and> buffers tr = buffers (hci_calls s) + 1 \<and>
         host_packet pf (i # d) = Some d)"
  have taken: "\<exists>tr. ?claim tr" if run: "run_state (recv_packet pf ty hdr body_len d) s = (b, s1)"
    and packet: "host_packet pf (i # d) = (if hdr \<le> length d \<and> length d = hdr + body_len d then Some d else None)"
    for ty hdr body_len
  proof -
    from recv_packet_effect [OF run, of n] obtain tr where "s1 = s\<lparr>hci_calls := tr\<rparr>"
      "given tr = given (hci_calls s)" "sent_to_host tr = sent_to_host (hci_calls s)"
      "b = None \<and> buffers tr = buffers (hci_calls s) \<and>
         (hdr \<le> length d \<and> length d = hdr + body_len d \<and> length d \<le> n \<longrightarrow> \<not> ample_buffers n pf) \<or>
       b = Some \<lparr>nb_type = ty, nb_data = d\<rparr> \<and> buffers tr = buffers (hci_calls s) + 1 \<and>
         hdr \<le> length d \<and> length d = hdr + body_len d" by blast
    moreover define ok where "ok \<longleftrightarrow> hdr \<le> length d \<and> length d = hdr + body_len d"
    ultimately show ?thesis unfolding packet ok_def [symmetric] by (intro exI [of _ tr]) (cases ok; auto simp: ok_def)
  qed
  have "\<exists>tr. ?claim tr"
  proof -
    consider (cmd) "i = HCI_IPC_CMD" | (acl) "i \<noteq> HCI_IPC_CMD" "i = HCI_IPC_ACL"
      | (iso) "i \<noteq> HCI_IPC_CMD" "i \<noteq> HCI_IPC_ACL" "i = HCI_IPC_ISO"
      | (other) "i \<noteq> HCI_IPC_CMD" "i \<noteq> HCI_IPC_ACL" "i \<noteq> HCI_IPC_ISO" by blast
    then show ?thesis
    proof cases
      case cmd
      with m have "run_state (recv_packet pf BT_BUF_CMD 3 (\<lambda>d. unat (d ! 2)) d) s = (b, s1)"
        by (simp add: m_def hci_ipc_cmd_recv_def)
      then show ?thesis by (rule taken) (simp only: host_packet_cases cmd if_True refl)
    next
      case acl
      with m have "run_state (recv_packet pf BT_BUF_ACL_OUT 4 (\<lambda>d. unat (get_le16 (drop 2 d))) d) s = (b, s1)"
        by (simp add: m_def hci_ipc_acl_recv_def)
      then show ?thesis by (rule taken) (use acl in \<open>simp only: host_packet_cases if_True if_False refl\<close>)
    next
      case iso
      with m have "run_state (recv_packet pf BT_BUF_ISO_OUT 4 (\<lambda>d. bt_iso_hdr_len pf (get_le16 (drop 2 d))) d) s = (b, s1)"
        by (simp add: m_def hci_ipc_iso_recv_def)
      then show ?thesis by (rule taken) (use iso in \<open>simp only: host_packet_cases if_True if_False refl\<close>)
    next
      case other
      with m have "b = None" "s1 = s" by (simp_all add: m_def)
      with other show ?thesis unfolding host_packet_cases by (intro exI [of _ "hci_calls s"]) simp
    qed
  qed
  then obtain tr where tr: "s1 = s\<lparr>hci_calls := tr\<rparr>" "given tr = given (hci_calls s)"
      "sent_to_host tr = sent_to_host (hci_calls s)"
    and b: "b = None \<and> buffers tr = buffers (hci_calls s) \<and>
         (length d \<le> n \<and> ample_buffers n pf \<longrightarrow> host_packet pf (i # d) = None) \<or>
       (\<exists>ty. b = Some \<lparr>nb_type = ty, nb_data = d\<rparr>) \<and> buffers tr = buffers (hci_calls s) + 1 \<and>
         host_packet pf (i # d) = Some d" by blast
  show ?thesis
    using tr b s' by (intro exI [of _ tr] exI [of _ "case b of None \<Rightarrow> [] | Some x \<Rightarrow> [x]"]) auto
qed

lemma tx_thread_effect:
  assumes "tx_queue s = b # bs"
  shows "\<exists>tr. tx_thread pf s = s\<lparr>hci_calls := tr, tx_queue := bs\<rparr> \<and> given tr = given (hci_calls s) @ [nb_data b] \<and>
    sent_to_host tr = sent_to_host (hci_calls s) \<and> buffers tr = buffers (hci_calls s) - 1"
proof -
  let ?r = "hci_env pf (hci_calls s) (BtSend b)"
  let ?tr = "hci_calls s @ [(BtSend b, ?r)]"
  let ?tr' = "if r_ret ?r \<noteq> 0 then ?tr @ [(Unref, hci_env pf ?tr Unref)] else ?tr"
  have "tx_thread pf s = s\<lparr>hci_calls := ?tr' @ [(Yield, hci_env pf ?tr' Yield)], tx_queue := bs\<rparr>"
    using assms by (simp add: tx_thread_def)
  then show ?thesis
    by (intro exI [of _ "?tr' @ [(Yield, hci_env pf ?tr' Yield)]"]) (simp add: comp_def)
qed

lemma hci_send_effect:
  assumes "service_accepts fuel (hci_env pf)"
  shows "\<exists>tr. hci_ipc_send fuel pf (Some b) False s = Some (s\<lparr>hci_calls := tr\<rparr>) \<and> given tr = given (hci_calls s) \<and>
    sent_to_host tr = sent_to_host (hci_calls s) @ List.map_filter controller_message [b] \<and>
    buffers tr = buffers (hci_calls s) - 1"
proof (cases "pkt_indicator (nb_type b)")
  case None
  then show ?thesis
    by (intro exI [of _ "hci_calls s @ [(Unref, hci_env pf (hci_calls s) Unref)]"])
      (simp add: hci_ipc_send_def controller_message_def List.map_filter_def)
next
  case (Some i)
  obtain tr where tr: "hci_send_loop fuel pf (i # nb_data b) False 0 s = Some (s\<lparr>hci_calls := tr\<rparr>)"
    "given tr = given (hci_calls s)" "sent_to_host tr = sent_to_host (hci_calls s) @ [i # nb_data b]"
    "buffers tr = buffers (hci_calls s)"
    using hci_send_loop_accepted [of fuel pf "i # nb_data b" s 0] assms unfolding service_accepts_def by blast
  then show ?thesis using Some
    by (intro exI [of _ "tr @ [(Unref, hci_env pf tr Unref)]"])
      (simp add: hci_ipc_send_def controller_message_def List.map_filter_def)
qed

lemma subseq_snoc: "subseq xs ys \<Longrightarrow> subseq xs (ys @ zs)" "subseq xs ys \<Longrightarrow> subseq (xs @ zs) (ys @ zs)"
  by (auto intro: subseq_rev_drop_many)

lemma hci_do_keeps:
  assumes "service_accepts fuel (hci_env pf)" "st \<noteq> HostMessage []" and inv: "hci_inv n pf ms ps s"
  shows "\<exists>s'. hci_do fuel pf st s = Some s' \<and> hci_inv n pf (ms @ messages [st]) (ps @ packets [st]) s'"
proof (cases st)
  case (HostMessage m)
  with assms(2) obtain i d where m: "m = i # d" by (cases m) auto
  obtain s' where s': "hci_ipc_recv pf (i # d) s = Some s'" by (simp add: hci_ipc_recv_def)
  from hci_recv_effect [OF s', of n] obtain tr q where q: "s' = s\<lparr>hci_calls := tr, tx_queue := tx_queue s @ q\<rparr>"
    "given tr = given (hci_calls s)" "sent_to_host tr = sent_to_host (hci_calls s)"
    "buffers tr = buffers (hci_calls s) + int (length q)"
    "q = [] \<and> (length d \<le> n \<and> ample_buffers n pf \<longrightarrow> host_packet pf (i # d) = None) \<or>
     map nb_data q = [d] \<and> host_packet pf (i # d) = Some d"
    by (elim exE conjE) (rule that; assumption)
  have "hci_inv n pf (ms @ [i # d]) ps s'"
  proof (cases "host_packet pf (i # d) = Some d \<and> map nb_data q = [d]")
    case True
    then have "length q = 1" by (metis length_map length_Cons list.size(3) One_nat_def)
    then show ?thesis using True inv q(2-4) unfolding hci_inv_def q(1)
      by (simp add: List.map_filter_def subseq_snoc flip: append_assoc)
  next
    case False
    with q(5) have none: "q = []" "length d \<le> n \<and> ample_buffers n pf \<Longrightarrow> host_packet pf (i # d) = None" by argo+
    have mf: "List.map_filter (host_packet pf) (ms @ [i # d]) =
      List.map_filter (host_packet pf) ms @ (case host_packet pf (i # d) of None \<Rightarrow> [] | Some x \<Rightarrow> [x])"
      by (simp add: List.map_filter_def split: option.split)
    show ?thesis unfolding hci_inv_def mf
      using none inv q(2-4) unfolding hci_inv_def q(1)
      by (intro conjI) (simp_all add: subseq_snoc(1))
  qed
  with s' m HostMessage show ?thesis by (simp add: hci_do_def hci_ept_recv_def messages_def packets_def List.map_filter_def)
next
  case (ControllerPacket b)
  then show ?thesis using inv
    by (auto simp: hci_do_def hci_inv_def messages_def packets_def List.map_filter_def split: option.splits)
next
  case EndpointBound
  then show ?thesis using inv
    by (simp add: hci_do_def hci_ept_bound_def hci_inv_def messages_def packets_def List.map_filter_def)
next
  case RxTurn
  show ?thesis
  proof (cases "rx_running s \<and> rx_queue s \<noteq> []")
    case True
    then obtain b bs where q: "rx_queue s = b # bs" by (cases "rx_queue s") auto
    obtain tr where tr: "hci_ipc_send fuel pf (Some b) False (s\<lparr>rx_queue := bs\<rparr>) = Some (s\<lparr>rx_queue := bs, hci_calls := tr\<rparr>)"
      "given tr = given (hci_calls s)"
      "sent_to_host tr = sent_to_host (hci_calls s) @ List.map_filter controller_message [b]"
      "buffers tr = buffers (hci_calls s) - 1"
      using hci_send_effect [OF assms(1), of b "s\<lparr>rx_queue := bs\<rparr>"] by auto
    let ?s = "s\<lparr>rx_queue := bs, hci_calls := tr @ [(Yield, hci_env pf tr Yield)]\<rparr>"
    have "rx_thread fuel pf s = Some ?s" using True q tr(1) by (simp add: rx_thread_def)
    moreover have "List.map_filter controller_message (rx_queue s) =
        List.map_filter controller_message [b] @ List.map_filter controller_message bs"
      using map_filter_append [of controller_message "[b]" bs] q by simp
    then have "hci_inv n pf ms ps ?s"
      using inv q tr(2-4) unfolding hci_inv_def by simp
    ultimately show ?thesis using RxTurn
      by (simp add: hci_do_def messages_def packets_def List.map_filter_def)
  next
    case False
    then have "\<exists>s'. rx_thread fuel pf s = Some s' \<and> hci_inv n pf ms ps s'"
      using inv by (cases "rx_queue s") (auto simp: rx_thread_def hci_inv_def)
    then show ?thesis using RxTurn by (simp add: hci_do_def messages_def packets_def List.map_filter_def)
  qed
next
  case TxTurn
  have "hci_inv n pf ms ps (tx_thread pf s)"
  proof (cases "tx_queue s")
    case Nil
    then show ?thesis using inv by (simp add: tx_thread_def)
  next
    case (Cons b bs)
    obtain tr where tr: "tx_thread pf s = s\<lparr>hci_calls := tr, tx_queue := bs\<rparr>"
      "given tr = given (hci_calls s) @ [nb_data b]" "sent_to_host tr = sent_to_host (hci_calls s)"
      "buffers tr = buffers (hci_calls s) - 1"
      using tx_thread_effect [OF Cons, of pf] by blast
    show ?thesis using inv Cons tr(2-4) unfolding hci_inv_def tr(1) by simp
  qed
  then show ?thesis using TxTurn by (simp add: hci_do_def messages_def packets_def List.map_filter_def)
qed

lemma hci_run_keeps:
  assumes "service_accepts fuel (hci_env pf)" "HostMessage [] \<notin> set sts" "hci_inv n pf ms ps s"
  shows "\<exists>s'. hci_run fuel pf sts s = Some s' \<and> hci_inv n pf (ms @ messages sts) (ps @ packets sts) s'"
  using assms(2,3)
proof (induction sts arbitrary: ms ps s)
  case Nil
  then show ?case by (simp add: messages_def packets_def List.map_filter_def)
next
  case (Cons st sts)
  then obtain s1 where s1: "hci_do fuel pf st s = Some s1" "hci_inv n pf (ms @ messages [st]) (ps @ packets [st]) s1"
    using hci_do_keeps [OF assms(1), of st n ms ps s] by auto
  have "messages (st # sts) = messages [st] @ messages sts" "packets (st # sts) = packets [st] @ packets sts"
    unfolding messages_def packets_def using map_filter_append [of _ "[st]" sts] by auto
  with Cons.IH [OF _ s1(2)] Cons.prems(1) s1(1) show ?case by simp
qed

definition hci_idle :: hci_system where
  "hci_idle = \<lparr>rx_queue = [], tx_queue = [], ipc_bound_sem = False, ipc_ept_ready = False,
     rx_running = False, hci_calls = []\<rparr>"

text \<open>
  The assertion handler never sends a report: the branch that sends is taken when the event could not be made.
\<close>

lemma assert_never_reported:
  assumes "bt_ctlr_assert_handle fuel pf path line s = Some s'"
  shows "sent_to_host (hci_calls s') = sent_to_host (hci_calls s)"
  using assms by (auto simp: bt_ctlr_assert_handle_def hci_ipc_send_def Let_def split: if_splits option.splits)

section \<open>The property\<close>

text \<open>
  Property C36. The transport is a pair of queues. In whatever order messages of the host, packets of the
  controller and turns of the two threads come, as long as no message is empty and the IPC service accepts a
  message after fewer than \<open>fuel\<close> refusals: no step fails; what the controller was given, with what is queued
  for it, are packets of well-formed messages in the order of their arrival, without their indicator, and all
  of them when the pool has room for every message; what the host was sent, with what is
  queued for it, are all packets of the controller of the three known types, in order, each once, with their
  indicator, however often the service refused; and every buffer taken from the pool or from the controller
  is in a queue, was given to the controller, or was given back.
\<close>

theorem hci_packets_in_order:
  assumes "service_accepts fuel (hci_env pf)" "HostMessage [] \<notin> set sts"
  shows "\<exists>s. hci_run fuel pf sts hci_idle = Some s \<and>
    subseq (given (hci_calls s) @ map nb_data (tx_queue s)) (List.map_filter (host_packet pf) (messages sts)) \<and>
    (ample_buffers n pf \<and> (\<forall>m\<in>set (messages sts). length m \<le> n) \<longrightarrow>
       given (hci_calls s) @ map nb_data (tx_queue s) = List.map_filter (host_packet pf) (messages sts)) \<and>
    sent_to_host (hci_calls s) @ List.map_filter controller_message (rx_queue s) =
       List.map_filter controller_message (packets sts) \<and>
    int (length (packets sts)) + buffers (hci_calls s) = int (length (rx_queue s) + length (tx_queue s))"
proof -
  have "hci_inv n pf [] [] hci_idle" by (simp add: hci_inv_def hci_idle_def List.map_filter_def)
  from hci_run_keeps [OF assms this] show ?thesis unfolding hci_inv_def append_Nil .
qed

text \<open>A service that refuses every second attempt, and a pool with buffers of 64 bytes.\<close>

definition busy_env :: env where
  "busy_env tr c =
     (case c of
        IpcSend bs \<Rightarrow> if tr \<noteq> [] \<and> fst (last tr) = Yield then quiet_reply else quiet_reply\<lparr>r_ret := - 12\<rparr>
      | SysCall f ns \<Rightarrow> if f = ''bt_buf_get_tx'' then quiet_reply\<lparr>r_ret := 1, r_size := 64\<rparr> else quiet_reply
      | _ \<Rightarrow> quiet_reply)"

definition busy_platform :: hci_platform where
  "busy_platform = \<lparr>hci_env = busy_env, bt_iso_hdr_len = (\<lambda>w. unat (w AND mask 14)),
     hci_vs_err_assert = (\<lambda>f l. None), hci_vs_err_stack_frame = (\<lambda>r. None)\<rparr>"

theorem hci_packets_in_order_witness:
  "\<exists>s. hci_run 2 busy_platform
        [EndpointBound, RxTurn, HostMessage [1, 3, 12, 0], ControllerPacket \<lparr>nb_type = BT_BUF_EVT, nb_data = [14, 0]\<rparr>,
         RxTurn, HostMessage [2, 9], TxTurn] hci_idle = Some s \<and>
     given (hci_calls s) @ map nb_data (tx_queue s) = [[3, 12, 0]] \<and>
     sent_to_host (hci_calls s) @ List.map_filter controller_message (rx_queue s) = [[4, 14, 0]]"
proof -
  let ?sts = "[EndpointBound, RxTurn, HostMessage [1, 3, 12, 0], ControllerPacket \<lparr>nb_type = BT_BUF_EVT, nb_data = [14, 0]\<rparr>,
         RxTurn, HostMessage [2, 9], TxTurn]"
  have "\<exists>k<2. 0 \<le> r_ret (busy_env (retried busy_env bs k tr) (IpcSend bs))" for tr bs
    by (rule exI [of _ 1]) (simp add: busy_env_def Let_def quiet_reply_def)
  then have accepts: "service_accepts 2 (hci_env busy_platform)"
    unfolding service_accepts_def busy_platform_def by simp
  have ample: "ample_buffers 64 busy_platform"
    by (simp add: ample_buffers_def busy_platform_def busy_env_def quiet_reply_def)
  have eval: "messages ?sts = [[1, 3, 12, 0], [2, 9]]" "packets ?sts = [\<lparr>nb_type = BT_BUF_EVT, nb_data = [14, 0]\<rparr>]"
    "List.map_filter (host_packet busy_platform) [[1, 3, 12, 0], [2, 9]] = [[3, 12, 0]]"
    "List.map_filter controller_message [\<lparr>nb_type = BT_BUF_EVT, nb_data = [14, 0]\<rparr>] = [[4, 14, 0]]"
    by (simp_all add: messages_def packets_def List.map_filter_def host_packet_def controller_message_def
        pkt_indicator_def HCI_IPC_EVT_def)
  have "\<forall>m\<in>set (messages ?sts). length m \<le> 64" "HostMessage [] \<notin> set ?sts" by (simp_all add: eval)
  with hci_packets_in_order [OF accepts, of ?sts 64] ample show ?thesis unfolding eval by auto
qed

end
