(* ===== verification/Sd_Card.thy ===== *)
theory Sd_Card
  imports Recorder
begin

text \<open>
  The SD card, \<^verbatim>\<open>firmware/audio/app/src/sd_card.c\<close>: the work item that initialises and mounts the card when it is
  inserted and unmounts it when it is removed. Its calls and those of the recorder are in one trace, so the order
  in which the two use the file system can be stated. The disk driver and the file system are the
  environment; log messages are left out, apart from the size they print.
\<close>

section \<open>State\<close>

record sd_card_data =
  sd_init :: bool
  disk_init :: bool
  mounted :: bool

record sd_system =
  sd_data :: sd_card_data
  sd_rec :: record_system    \<comment> \<open>the recorder, with the trace of the calls of both\<close>

type_synonym 'a sd = "(sd_system, 'a) state"

definition on_recorder :: "'a recorder \<Rightarrow> 'a sd" where
  "on_recorder = zoom sd_rec (\<lambda>r s. s\<lparr>sd_rec := r\<rparr>)"

definition sd_call :: "env \<Rightarrow> ext_call \<Rightarrow> reply sd" where
  "sd_call env c = on_recorder (on_kernel (ext env c))"

definition sd_get :: "sd_card_data sd" where
  "sd_get = State (\<lambda>s. (sd_data s, s))"

definition sd_upd :: "(sd_card_data \<Rightarrow> sd_card_data) \<Rightarrow> unit sd" where
  "sd_upd f = State (\<lambda>s. ((), s\<lparr>sd_data := f (sd_data s)\<rparr>))"

abbreviation (input) CtrlInit :: ext_call where "CtrlInit \<equiv> SysCall ''DISK_IOCTL_CTRL_INIT'' []"
abbreviation (input) CtrlDeinit :: ext_call where "CtrlDeinit \<equiv> SysCall ''DISK_IOCTL_CTRL_DEINIT'' []"
abbreviation (input) GetCount :: ext_call where "GetCount \<equiv> SysCall ''DISK_IOCTL_GET_SECTOR_COUNT'' []"
abbreviation (input) GetSize :: ext_call where "GetSize \<equiv> SysCall ''DISK_IOCTL_GET_SECTOR_SIZE'' []"
abbreviation (input) Mount :: ext_call where "Mount \<equiv> SysCall ''fs_mount'' []"
abbreviation (input) Unmount :: ext_call where "Unmount \<equiv> SysCall ''fs_unmount'' []"

abbreviation sd_trace :: "sd_system \<Rightarrow> trace" where
  "sd_trace s \<equiv> rec_calls (sd_rec s)"

abbreviation sd_after :: "env \<Rightarrow> ext_call \<Rightarrow> sd_system \<Rightarrow> sd_system" where
  "sd_after env c s \<equiv> s\<lparr>sd_rec := (sd_rec s)\<lparr>rec_calls := sd_trace s @ [(c, env (sd_trace s) c)]\<rparr>\<rparr>"

lemma run_sd [simp]:
  "run_state (on_recorder m) s = (case run_state m (sd_rec s) of (a, r) \<Rightarrow> (a, s\<lparr>sd_rec := r\<rparr>))"
  "run_state (sd_call env c) s = (env (sd_trace s) c, sd_after env c s)"
  "run_state sd_get s = (sd_data s, s)"
  "run_state (sd_upd f) s = ((), s\<lparr>sd_data := f (sd_data s)\<rparr>)"
  by (simp_all add: on_recorder_def sd_call_def sd_get_def sd_upd_def)

section \<open>Operations\<close>

definition sd_card_size :: "u32 \<Rightarrow> u32 \<Rightarrow> (u32 \<times> u32) + u32" where
  \<comment> \<open>the size that is printed: gibibytes with a decimal, or mebibytes\<close>
  "sd_card_size sector_count sector_size =
     (let memory_size_bytes = ucast sector_count * ucast sector_size :: u64;
          memory_size_mib = ucast (memory_size_bytes div 1024 div 1024) :: u32
      in if 1024 \<le> memory_size_mib
         then Inl (memory_size_mib div 1024, DIV_ROUND_CLOSEST (memory_size_mib mod 1024 * 10) 1024)
         else Inr memory_size_mib)"

definition sd_card_print_info :: "env \<Rightarrow> int sd" where
  "sd_card_print_info env =
     do { sector_count \<leftarrow> sd_call env GetCount;
          if r_ret sector_count < 0 then return (r_ret sector_count)
          else do {
            sector_size \<leftarrow> sd_call env GetSize;
            if r_ret sector_size < 0 then return (r_ret sector_size) else return 0 } }"

definition disk_prepare :: "env \<Rightarrow> sd_card_data \<Rightarrow> int sd" where
  "disk_prepare env data =
     (if disk_init data then return 0
      else do {
        r \<leftarrow> sd_call env CtrlInit;
        if r_ret r < 0 then return (r_ret r)
        else do { sd_upd (\<lambda>d. d\<lparr>disk_init := True\<rparr>); sd_card_print_info env } })"

definition disk_mount :: "env \<Rightarrow> sd_card_data \<Rightarrow> int sd" where
  "disk_mount env data =
     (if mounted data then return 0
      else do {
        r \<leftarrow> sd_call env Mount;
        if r_ret r \<noteq> 0 then return (- ENODEV)
        else do { sd_upd (\<lambda>d. d\<lparr>mounted := True\<rparr>); return 0 } })"

definition sd_card_inserted :: "nat \<Rightarrow> env \<Rightarrow> int option sd" where
  \<comment> \<open>\<open>None\<close> when the directory has more than \<open>n\<close> entries\<close>
  "sd_card_inserted n env =
     do { data \<leftarrow> sd_get;
          ret \<leftarrow> disk_prepare env data;
          if ret < 0 then return (Some ret)
          else do {
            data \<leftarrow> sd_get;
            ret \<leftarrow> disk_mount env data;
            if ret \<noteq> 0 then return (Some ret)
            else on_recorder (record_card_inserted n env) } }"

definition sd_card_removed :: "env \<Rightarrow> int sd" where
  "sd_card_removed env =
     do { data \<leftarrow> sd_get;
          ret \<leftarrow> (if \<not> mounted data then return 0
                   else do {
                     r \<leftarrow> sd_call env Unmount;
                     if r_ret r \<noteq> 0 then return (- ENODEV)
                     else do { sd_upd (\<lambda>d. d\<lparr>mounted := False\<rparr>); return 0 } });
          if ret \<noteq> 0 then return ret
          else do {
            data \<leftarrow> sd_get;
            if \<not> disk_init data then return 0
            else do {
              r \<leftarrow> sd_call env CtrlDeinit;
              if r_ret r < 0 then return (r_ret r)
              else do { sd_upd (\<lambda>d. d\<lparr>disk_init := False\<rparr>); return 0 } } } }"

definition sd_card_work_handler :: "nat \<Rightarrow> env \<Rightarrow> int option sd" where
  "sd_card_work_handler n env =
     do { present \<leftarrow> sd_call env (SysCall ''sdhc_card_present'' []);
          if r_ret present \<noteq> 0 then sd_card_inserted n env
          else do { ret \<leftarrow> sd_card_removed env; return (Some ret) } }"

definition sd_card_interrupt :: "env \<Rightarrow> unit sd" where
  "sd_card_interrupt env = do { _ \<leftarrow> sd_call env (SysCall ''k_work_reschedule sd_card'' [100]); return () }"

definition sd_card_init :: "bool \<Rightarrow> nat \<Rightarrow> env \<Rightarrow> int option sd" where
  \<comment> \<open>the first argument is \<open>HAS_SDHC\<close>\<close>
  "sd_card_init has_sdhc n env =
     do { data \<leftarrow> sd_get;
          if sd_init data then return (Some (- EALREADY))
          else do {
            ret \<leftarrow> (if has_sdhc
                     then do {
                       r \<leftarrow> sd_call env (SysCall ''sdhc_enable_interrupt'' []);
                       if r_ret r \<noteq> 0 then return (Some (r_ret r))
                       else do { _ \<leftarrow> sd_call env (SysCall ''k_work_schedule sd_card'' [0]); return (Some 0) } }
                     else sd_card_inserted n env);
            if ret \<noteq> Some 0 then return ret
            else do { sd_upd (\<lambda>d. d\<lparr>sd_init := True\<rparr>); return (Some 0) } } }"

lemma sd_card_size_ten_tenths:
  \<comment> \<open>a card of 2047 mebibytes is printed as 1.10 gibibytes\<close>
  "sd_card_size 4192256 512 = Inl (1, 10)"
  by (simp add: sd_card_size_def DIV_ROUND_CLOSEST_def)

section \<open>The life of the card\<close>

text \<open>
  What the disk driver and the file system allow: a disk is initialised once, its geometry is read and it is mounted
  while it is initialised, and it is released only when it is unmounted. \<open>None\<close> is a forbidden call.
\<close>

datatype card_state = Card_Off | Card_On | Card_Mounted

definition card_call :: "ext_call \<Rightarrow> bool" where
  "card_call c \<longleftrightarrow> c \<in> {CtrlInit, CtrlDeinit, GetCount, GetSize, Mount, Unmount}"

definition card_step :: "card_state option \<Rightarrow> ext_call \<times> reply \<Rightarrow> card_state option" where
  "card_step st ev =
     (if \<not> card_call (fst ev) then st
      else case st of
        None \<Rightarrow> None
      | Some Card_Off \<Rightarrow>
          if fst ev = CtrlInit then Some (if r_ret (snd ev) < 0 then Card_Off else Card_On) else None
      | Some Card_On \<Rightarrow>
          if fst ev = GetCount \<or> fst ev = GetSize then Some Card_On
          else if fst ev = Mount then Some (if r_ret (snd ev) = 0 then Card_Mounted else Card_On)
          else if fst ev = CtrlDeinit then Some (if r_ret (snd ev) < 0 then Card_On else Card_Off)
          else None
      | Some Card_Mounted \<Rightarrow>
          if fst ev = Unmount then Some (if r_ret (snd ev) = 0 then Card_On else Card_Mounted) else None)"

definition card_state :: "trace \<Rightarrow> card_state option" where
  "card_state = foldl card_step (Some Card_Off)"

lemma card_state_simps [simp]:
  "card_state [] = Some Card_Off" "card_state (tr @ evs) = foldl card_step (card_state tr) evs"
  by (simp_all add: card_state_def)

lemma card_state_other: "\<not> list_ex card_call (calls evs) \<Longrightarrow> card_state (tr @ evs) = card_state tr"
  by (induction evs rule: rev_induct) (auto simp: card_step_def)

text \<open>The state of the card is the one the flags say.\<close>

definition card_flags :: "sd_card_data \<Rightarrow> card_state option" where
  "card_flags d =
     (if mounted d then (if disk_init d then Some Card_Mounted else None)
      else if disk_init d then Some Card_On else Some Card_Off)"

definition card_known :: "sd_system \<Rightarrow> bool" where
  "card_known s \<longleftrightarrow> card_state (sd_trace s) = card_flags (sd_data s) \<and> card_flags (sd_data s) \<noteq> None"

text \<open>Code of the recorder does not touch the card.\<close>

definition leaves_card :: "'a recorder \<Rightarrow> bool" where
  "leaves_card m \<longleftrightarrow>
     (\<forall>r. \<exists>evs. rec_calls (snd (run_state m r)) = rec_calls r @ evs \<and> \<not> list_ex card_call (calls evs))"

named_theorems leaves_card_intros \<open>code that does not touch the card\<close>

lemma leaves_card_basic [leaves_card_intros]:
  "leaves_card (return x)" "leaves_card rec_get" "leaves_card (rec_upd f)"
  "\<not> card_call c \<Longrightarrow> leaves_card (on_kernel (ext env c))"
  "\<not> card_call c \<Longrightarrow> leaves_card (on_kernel (ext_ret env c))"
  by (auto simp: leaves_card_def)

lemma leaves_card_bind [leaves_card_intros]:
  assumes "leaves_card m" "\<And>x. leaves_card (f x)"
  shows "leaves_card (State_Monad.bind m f)"
  unfolding leaves_card_def
proof
  fix r
  obtain x t where m: "run_state m r = (x, t)" by fastforce
  moreover obtain evs where "rec_calls t = rec_calls r @ evs" "\<not> list_ex card_call (calls evs)"
    using assms(1) m unfolding leaves_card_def by (metis snd_conv)
  moreover obtain evs2 where "rec_calls (snd (run_state (f x) t)) = rec_calls t @ evs2" "\<not> list_ex card_call (calls evs2)"
    using assms(2) unfolding leaves_card_def by blast
  ultimately show "\<exists>evs. rec_calls (snd (run_state (State_Monad.bind m f) r)) = rec_calls r @ evs \<and>
      \<not> list_ex card_call (calls evs)"
    by (intro exI [of _ "evs @ evs2"]) simp
qed

lemma leaves_card_cases [leaves_card_intros]:
  "leaves_card m \<Longrightarrow> leaves_card k \<Longrightarrow> leaves_card (if b then m else k)"
  "leaves_card m \<Longrightarrow> (\<And>x. leaves_card (f x)) \<Longrightarrow> leaves_card (case a of None \<Rightarrow> m | Some x \<Rightarrow> f x)"
  by (simp_all split: option.split)

lemma recorder_calls [simp]:
  "\<not> card_call FsReadDir" "\<not> card_call (FsOpenDir d)" "\<not> card_call FsCloseDir"
  by (simp_all add: card_call_def)

lemma leaves_card_index_loop [leaves_card_intros]: "leaves_card (next_file_index_loop n env)"
  by (induction n) (auto intro!: leaves_card_intros)

lemma leaves_card_inserted: "leaves_card (record_card_inserted n env)"
  unfolding record_card_inserted_def record_find_next_file_index_def
  by (auto intro!: leaves_card_intros)

lemma recorder_known:
  assumes "leaves_card m" "card_known s"
  shows "card_known (snd (run_state (on_recorder m) s))"
proof -
  obtain a r where r: "run_state m (sd_rec s) = (a, r)" by fastforce
  with assms(1) obtain evs where "rec_calls r = sd_trace s @ evs" "\<not> list_ex card_call (calls evs)"
    unfolding leaves_card_def by (metis snd_conv)
  moreover from this have "card_state (rec_calls r) = card_state (sd_trace s)" by (metis card_state_other)
  ultimately show ?thesis using assms(2) r by (simp add: card_known_def del: card_state_simps)
qed

lemmas card_defs = card_known_def card_flags_def card_step_def card_call_def

lemma print_info_known: "card_known s \<Longrightarrow> disk_init (sd_data s) \<Longrightarrow> \<not> mounted (sd_data s) \<Longrightarrow>
    card_known (snd (run_state (sd_card_print_info env) s)) \<and> sd_data (snd (run_state (sd_card_print_info env) s)) = sd_data s"
  by (auto simp: sd_card_print_info_def card_defs)

text \<open>What is done before the recorder is told: the card is mounted, or an error is returned.\<close>

lemma inserted_known:
  assumes "card_known s" "run_state (sd_card_inserted n env) s = (ret, s')"
  shows "card_known s' \<and>
    ((\<exists>r. ret = Some r \<and> r \<noteq> 0) \<or>
     (\<exists>s1. card_known s1 \<and> mounted (sd_data s1) \<and> sd_data s' = sd_data s1 \<and>
           run_state (record_card_inserted n env) (sd_rec s1) = (ret, sd_rec s')))"
proof -
  obtain r1 s1 where r1: "run_state (disk_prepare env (sd_data s)) s = (r1, s1)" by fastforce
  have s1: "card_known s1 \<and> r1 \<le> 0 \<and> (0 \<le> r1 \<longrightarrow> disk_init (sd_data s1))"
  proof (cases "disk_init (sd_data s)")
    case True
    then show ?thesis using r1 assms(1) by (auto simp: disk_prepare_def)
  next
    case False
    let ?s = "sd_after env CtrlInit s"
    let ?t = "?s\<lparr>sd_data := (sd_data s)\<lparr>disk_init := True\<rparr>\<rparr>"
    show ?thesis
    proof (cases "r_ret (env (sd_trace s) CtrlInit) < 0")
      case True
      with False r1 assms(1) show ?thesis by (auto simp: disk_prepare_def card_defs)
    next
      case ok: False
      with False assms(1) have t: "card_known ?t" "disk_init (sd_data ?t)" "\<not> mounted (sd_data ?t)"
        by (auto simp: card_defs split: if_splits)
      have "run_state (sd_card_print_info env) ?t = (r1, s1)" using False ok r1 by (simp add: disk_prepare_def)
      moreover have "fst (run_state (sd_card_print_info env) ?t) \<le> 0"
        by (simp add: sd_card_print_info_def)
      ultimately show ?thesis using print_info_known [OF t, of env] t(2) by simp
    qed
  qed
  show ?thesis
  proof (cases "r1 < 0")
    case True
    then have "ret = Some r1" "s' = s1" using assms(2) r1
      by (simp_all add: sd_card_inserted_def)
    with s1 True show ?thesis by auto
  next
    case False
    obtain r2 s2 where r2: "run_state (disk_mount env (sd_data s1)) s1 = (r2, s2)" by fastforce
    have s2: "card_known s2 \<and> (r2 = 0 \<longrightarrow> mounted (sd_data s2))"
      using s1 False r2 by (auto simp: disk_mount_def card_defs split: if_splits)
    have run: "(ret, s') = (if r2 \<noteq> 0 then (Some r2, s2) else run_state (on_recorder (record_card_inserted n env)) s2)"
      using assms(2) r1 r2 False by (cases "r2 = 0") (simp_all add: sd_card_inserted_def)
    show ?thesis
    proof (cases "r2 = 0")
      case True
      obtain a r where r: "run_state (record_card_inserted n env) (sd_rec s2) = (a, r)" by fastforce
      with True run have "ret = a" "s' = s2\<lparr>sd_rec := r\<rparr>" by auto
      moreover from recorder_known [OF leaves_card_inserted [of n env], of s2] s2 r have "card_known (s2\<lparr>sd_rec := r\<rparr>)" by simp
      ultimately show ?thesis using s2 r True by (intro conjI disjI2 exI [of _ s2]) simp_all
    next
      case False
      with run s2 show ?thesis by auto
    qed
  qed
qed

lemma removed_known:
  assumes "card_known s" "run_state (sd_card_removed env) s = (ret, s')"
  shows "card_known s' \<and> (ret = 0 \<longrightarrow> card_state (sd_trace s') = Some Card_Off)"
proof (cases "mounted (sd_data s)")
  case True
  with assms show ?thesis
    by (cases "r_ret (env (sd_trace s) Unmount) = 0")
      (auto simp: sd_card_removed_def card_defs split: if_splits)
next
  case False
  with assms show ?thesis
    by (cases "disk_init (sd_data s)") (auto simp: sd_card_removed_def card_defs split: if_splits)
qed

text \<open>The states the node reaches: the operations of the card in any order, and the recorder in between.\<close>

inductive sd_reach :: "bool \<Rightarrow> nat \<Rightarrow> env \<Rightarrow> sd_system \<Rightarrow> bool" for has_sdhc n env where
  sd_boot: "sd_data s = \<lparr>sd_init = False, disk_init = False, mounted = False\<rparr> \<Longrightarrow>
    \<not> list_ex card_call (calls (sd_trace s)) \<Longrightarrow> sd_reach has_sdhc n env s"
| sd_start: "sd_reach has_sdhc n env s \<Longrightarrow> run_state (sd_card_init has_sdhc n env) s = (ret, s') \<Longrightarrow> sd_reach has_sdhc n env s'"
| sd_interrupt: "sd_reach has_sdhc n env s \<Longrightarrow> run_state (sd_card_interrupt env) s = (u, s') \<Longrightarrow> sd_reach has_sdhc n env s'"
| sd_work: "sd_reach has_sdhc n env s \<Longrightarrow> run_state (sd_card_work_handler n env) s = (ret, s') \<Longrightarrow> sd_reach has_sdhc n env s'"
| sd_other: "sd_reach has_sdhc n env s \<Longrightarrow> rec_calls r = sd_trace s @ evs \<Longrightarrow> \<not> list_ex card_call (calls evs) \<Longrightarrow>
    sd_reach has_sdhc n env (s\<lparr>sd_rec := r\<rparr>)"

lemma other_call_known: "\<not> card_call c \<Longrightarrow> card_known s \<Longrightarrow> card_known (sd_after env c s)"
  by (simp add: card_known_def card_step_def)

lemma sd_card_init_known:
  assumes "card_known s" "run_state (sd_card_init has_sdhc n env) s = (ret, s')"
  shows "card_known s'"
proof (cases "sd_init (sd_data s) \<or> has_sdhc")
  case True
  then show ?thesis using assms
    by (auto simp: sd_card_init_def card_defs split: if_splits)
next
  case False
  obtain r s1 where r: "run_state (sd_card_inserted n env) s = (r, s1)" by fastforce
  with inserted_known [OF assms(1)] have s1: "card_known s1" by blast
  have "s' = s1 \<or> s' = s1\<lparr>sd_data := (sd_data s1)\<lparr>sd_init := True\<rparr>\<rparr>"
    using assms(2) r False by (cases "r = Some 0") (auto simp: sd_card_init_def)
  with s1 show ?thesis by (auto simp: card_known_def card_flags_def)
qed

lemma sd_work_known:
  assumes "card_known s" "run_state (sd_card_work_handler n env) s = (ret, s')"
  shows "card_known s'"
proof -
  let ?c = "SysCall ''sdhc_card_present'' []"
  have known: "card_known (sd_after env ?c s)"
    using assms(1) by (intro other_call_known) (simp_all add: card_call_def)
  show ?thesis
  proof (cases "r_ret (env (sd_trace s) ?c) = 0")
    case True
    obtain r s1 where r: "run_state (sd_card_removed env) (sd_after env ?c s) = (r, s1)" by fastforce
    with True assms(2) have "s' = s1" by (simp add: sd_card_work_handler_def)
    with removed_known [OF known r] show ?thesis by simp
  next
    case False
    with assms(2) have "run_state (sd_card_inserted n env) (sd_after env ?c s) = (ret, s')"
      by (simp add: sd_card_work_handler_def)
    from inserted_known [OF known this] show ?thesis by blast
  qed
qed

lemma sd_reach_known: "sd_reach has_sdhc n env s \<Longrightarrow> card_known s"
proof (induction rule: sd_reach.induct)
  case (sd_boot s)
  then show ?case using card_state_other [of "sd_trace s" "[]"] by (simp add: card_known_def card_flags_def del: card_state_simps(2))
next
  case (sd_start s ret s')
  then show ?case using sd_card_init_known by blast
next
  case (sd_interrupt s u s')
  then show ?case by (auto simp: sd_card_interrupt_def intro!: other_call_known) (simp add: card_call_def)
next
  case (sd_work s ret s')
  then show ?case using sd_work_known by blast
next
  case (sd_other s r evs)
  then show ?case by (simp add: card_known_def card_state_other del: card_state_simps(2))
qed

section \<open>The property\<close>

text \<open>
  Property C37. In whatever order the card is inserted and removed and the recorder runs, and whichever calls fail,
  the calls made for the card are in order: the disk is never initialised twice, never mounted before it is
  initialised, never mounted twice, never released while it is mounted; and the two flags say exactly what state it
  is in. When the work item ends without error with a card in the slot, the recorder has looked for its next file
  name on the mounted card.
\<close>

theorem sd_card_calls_in_order:
  assumes "sd_reach has_sdhc n env s"
  shows "card_state (sd_trace s) = card_flags (sd_data s) \<and> card_state (sd_trace s) \<noteq> None \<and>
    (\<forall>ret s'. run_state (sd_card_inserted n env) s = (ret, s') \<and> ret = Some 0 \<longrightarrow>
       (\<exists>r. card_state (rec_calls r) = Some Card_Mounted \<and>
            run_state (record_card_inserted n env) r = (Some 0, sd_rec s'))) \<and>
    (\<forall>s'. run_state (sd_card_removed env) s = (0, s') \<longrightarrow> card_state (sd_trace s') = Some Card_Off)"
proof -
  have known: "card_known s" using assms by (rule sd_reach_known)
  have "\<exists>r. card_state (rec_calls r) = Some Card_Mounted \<and> run_state (record_card_inserted n env) r = (Some 0, sd_rec s')"
    if "run_state (sd_card_inserted n env) s = (Some 0, s')" for s'
    using inserted_known [OF known that] by (auto simp: card_known_def card_flags_def split: if_splits)
  moreover have "card_state (sd_trace s') = Some Card_Off" if "run_state (sd_card_removed env) s = (0, s')" for s'
    using removed_known [OF known that] by simp
  ultimately show ?thesis using known unfolding card_known_def by auto
qed

definition card_node :: sd_system where
  "card_node = \<lparr>sd_data = \<lparr>sd_init = False, disk_init = False, mounted = False\<rparr>,
     sd_rec = fresh_recorder\<lparr>rec_data := record_data_init\<lparr>initialised := True\<rparr>\<rparr>\<rparr>"

theorem sd_card_calls_in_order_witness:
  "\<exists>r s'. run_state (sd_card_inserted 3 quiet_env) card_node = (Some 0, s') \<and>
     card_state (rec_calls r) = Some Card_Mounted \<and>
     run_state (record_card_inserted 3 quiet_env) r = (Some 0, sd_rec s')"
proof -
  have "sd_reach True 3 quiet_env card_node"
    by (rule sd_boot) (simp_all add: card_node_def fresh_recorder_def)
  from sd_card_calls_in_order [OF this]
  have "\<forall>ret s'. run_state (sd_card_inserted 3 quiet_env) card_node = (ret, s') \<and> ret = Some 0 \<longrightarrow>
       (\<exists>r. card_state (rec_calls r) = Some Card_Mounted \<and>
            run_state (record_card_inserted 3 quiet_env) r = (Some 0, sd_rec s'))" by blast
  moreover have "fst (run_state (sd_card_inserted 3 quiet_env) card_node) = Some 0"
    by (simp add: sd_card_inserted_def disk_prepare_def disk_mount_def sd_card_print_info_def
        record_card_inserted_def record_find_next_file_index_def card_node_def fresh_recorder_def
        record_data_init_def eval_nat_numeral)
  ultimately show ?thesis by (metis prod.collapse)
qed

end
