(* ===== verification/Sgtl5000.thy ===== *)
theory Sgtl5000
  imports Codec "HOL-Library.Signed_Division"
begin

text \<open>
  The driver of the other audio converter, \<^verbatim>\<open>firmware/audio/app/src/drivers/sgtl5000.c\<close>. Its functions have the names of
  those of the TLV320 driver; here they begin with \<open>sgtl_\<close> where the source has \<open>codec_\<close>. The I2C bus is the environment. The
  source uses a property \<open>INPUT_CODEC_PROPERTY_VOLUME\<close> and a member \<open>vol\<close> of its value, which
  \<^verbatim>\<open>input_codec.h\<close> no longer has; they are modelled as the source uses them.
\<close>

section \<open>Registers\<close>

definition CHIP_ID_ADDR :: u16 where "CHIP_ID_ADDR = 0x0000"
definition CHIP_ID_PARTID :: u16 where "CHIP_ID_PARTID = GENMASK 15 8"
definition CHIP_ID_PARTID_SGTL5000 :: u16 where "CHIP_ID_PARTID_SGTL5000 = 0xA0"
definition CHIP_DIG_POWER :: u16 where "CHIP_DIG_POWER = 0x0002"
definition CHIP_DIG_POWER_ADC_POWERUP :: u16 where "CHIP_DIG_POWER_ADC_POWERUP = BIT 6"
definition CHIP_DIG_POWER_I2S_OUT_POWERUP :: u16 where "CHIP_DIG_POWER_I2S_OUT_POWERUP = BIT 1"
definition CHIP_CLK_CTRL :: u16 where "CHIP_CLK_CTRL = 0x0004"
definition CHIP_CLK_CTRL_RATE_MODE :: u16 where "CHIP_CLK_CTRL_RATE_MODE = GENMASK 5 4"
definition CHIP_CLK_CTRL_SYS_FS :: u16 where "CHIP_CLK_CTRL_SYS_FS = GENMASK 3 2"
definition CHIP_CLK_CTRL_SYS_FS_32_KHZ :: u16 where "CHIP_CLK_CTRL_SYS_FS_32_KHZ = 0x0"
definition CHIP_CLK_CTRL_SYS_FS_44_1_KHZ :: u16 where "CHIP_CLK_CTRL_SYS_FS_44_1_KHZ = 0x1"
definition CHIP_CLK_CTRL_SYS_FS_48_KHZ :: u16 where "CHIP_CLK_CTRL_SYS_FS_48_KHZ = 0x2"
definition CHIP_CLK_CTRL_SYS_FS_96_KHZ :: u16 where "CHIP_CLK_CTRL_SYS_FS_96_KHZ = 0x3"
definition CHIP_CLK_CTRL_MCLK_FREQ :: u16 where "CHIP_CLK_CTRL_MCLK_FREQ = GENMASK 1 0"
definition CHIP_CLK_CTRL_MCLK_FREQ_256_FS :: u16 where "CHIP_CLK_CTRL_MCLK_FREQ_256_FS = 0x0"
definition CHIP_CLK_CTRL_MCLK_FREQ_384_FS :: u16 where "CHIP_CLK_CTRL_MCLK_FREQ_384_FS = 0x1"
definition CHIP_CLK_CTRL_MCLK_FREQ_512_FS :: u16 where "CHIP_CLK_CTRL_MCLK_FREQ_512_FS = 0x2"
definition CHIP_I2S_CTRL :: u16 where "CHIP_I2S_CTRL = 0x0006"
definition CHIP_I2S_CTRL_SCLKFREQ :: u16 where "CHIP_I2S_CTRL_SCLKFREQ = BIT 8"
definition CHIP_I2S_CTRL_MS :: u16 where "CHIP_I2S_CTRL_MS = BIT 7"
definition CHIP_I2S_CTRL_SCLK_INV :: u16 where "CHIP_I2S_CTRL_SCLK_INV = BIT 6"
definition CHIP_I2S_CTRL_DLEN :: u16 where "CHIP_I2S_CTRL_DLEN = GENMASK 5 4"
definition CHIP_I2S_CTRL_DLEN_32 :: u16 where "CHIP_I2S_CTRL_DLEN_32 = 0x0"
definition CHIP_I2S_CTRL_DLEN_24 :: u16 where "CHIP_I2S_CTRL_DLEN_24 = 0x1"
definition CHIP_I2S_CTRL_DLEN_20 :: u16 where "CHIP_I2S_CTRL_DLEN_20 = 0x2"
definition CHIP_I2S_CTRL_DLEN_16 :: u16 where "CHIP_I2S_CTRL_DLEN_16 = 0x3"
definition CHIP_I2S_CTRL_I2S_MODE :: u16 where "CHIP_I2S_CTRL_I2S_MODE = GENMASK 3 2"
definition CHIP_I2S_CTRL_I2S_MODE_I2S_LEFT_JUSTIFIED :: u16 where "CHIP_I2S_CTRL_I2S_MODE_I2S_LEFT_JUSTIFIED = 0x0"
definition CHIP_I2S_CTRL_I2S_MODE_RIGHT_JUSTIFIED :: u16 where "CHIP_I2S_CTRL_I2S_MODE_RIGHT_JUSTIFIED = 0x1"
definition CHIP_I2S_CTRL_LRALIGN :: u16 where "CHIP_I2S_CTRL_LRALIGN = BIT 1"
definition CHIP_I2S_CTRL_LRPOL :: u16 where "CHIP_I2S_CTRL_LRPOL = BIT 0"
definition CHIP_SSS_CTRL :: u16 where "CHIP_SSS_CTRL = 0x000A"
definition CHIP_SSS_CTRL_DAC_SELECT :: u16 where "CHIP_SSS_CTRL_DAC_SELECT = GENMASK 5 4"
definition CHIP_SSS_CTRL_DAC_SELECT_I2S_IN :: u16 where "CHIP_SSS_CTRL_DAC_SELECT_I2S_IN = 0x1"
definition CHIP_SSS_CTRL_I2S_SELECT :: u16 where "CHIP_SSS_CTRL_I2S_SELECT = GENMASK 1 0"
definition CHIP_SSS_CTRL_I2S_SELECT_ADC :: u16 where "CHIP_SSS_CTRL_I2S_SELECT_ADC = 0x0"
definition CHIP_ADCDAC_CTRL :: u16 where "CHIP_ADCDAC_CTRL = 0x000E"
definition CHIP_DAC_VOL :: u16 where "CHIP_DAC_VOL = 0x0010"
definition CHIP_PAD_STRENGTH :: u16 where "CHIP_PAD_STRENGTH = 0x0014"
definition CHIP_ANA_ADC_CTRL :: u16 where "CHIP_ANA_ADC_CTRL = 0x0020"
definition CHIP_ANA_ADC_CTRL_ADC_VOL_RIGHT :: u16 where "CHIP_ANA_ADC_CTRL_ADC_VOL_RIGHT = GENMASK 7 4"
definition CHIP_ANA_ADC_CTRL_ADC_VOL_LEFT :: u16 where "CHIP_ANA_ADC_CTRL_ADC_VOL_LEFT = GENMASK 3 0"
definition CHIP_ANA_HP_CTRL :: u16 where "CHIP_ANA_HP_CTRL = 0x0022"
definition CHIP_ANA_CTRL :: u16 where "CHIP_ANA_CTRL = 0x0024"
definition CHIP_ANA_CTRL_MUTE_LO :: u16 where "CHIP_ANA_CTRL_MUTE_LO = BIT 8"
definition CHIP_ANA_CTRL_MUTE_HP :: u16 where "CHIP_ANA_CTRL_MUTE_HP = BIT 4"
definition CHIP_ANA_CTRL_SELECT_ADC :: u16 where "CHIP_ANA_CTRL_SELECT_ADC = BIT 2"
definition CHIP_ANA_CTRL_EN_ZCD_ADC :: u16 where "CHIP_ANA_CTRL_EN_ZCD_ADC = BIT 1"
definition CHIP_ANA_CTRL_MUTE_ADC :: u16 where "CHIP_ANA_CTRL_MUTE_ADC = BIT 0"
definition CHIP_LINREG_CTRL :: u16 where "CHIP_LINREG_CTRL = 0x0026"
definition CHIP_LINREG_CTRL_VDDC_MAN_ASSN :: u16 where "CHIP_LINREG_CTRL_VDDC_MAN_ASSN = BIT 6"
definition CHIP_LINREG_CTRL_VDDC_ASSN_OVRD :: u16 where "CHIP_LINREG_CTRL_VDDC_ASSN_OVRD = BIT 5"
definition CHIP_LINREG_CTRL_D_PROGRAMMING :: u16 where "CHIP_LINREG_CTRL_D_PROGRAMMING = GENMASK 3 0"
definition CHIP_REF_CTRL :: u16 where "CHIP_REF_CTRL = 0x0028"
definition CHIP_REF_CTRL_VAG_VAL :: u16 where "CHIP_REF_CTRL_VAG_VAL = GENMASK 8 4"
definition CHIP_REF_CTRL_BIAS_CTRL :: u16 where "CHIP_REF_CTRL_BIAS_CTRL = GENMASK 3 1"
definition CHIP_MIC_CTRL :: u16 where "CHIP_MIC_CTRL = 0x002A"
definition CHIP_MIC_CTRL_BIAS_RESISTOR :: u16 where "CHIP_MIC_CTRL_BIAS_RESISTOR = GENMASK 9 8"
definition CHIP_MIC_CTRL_BIAS_VOLT :: u16 where "CHIP_MIC_CTRL_BIAS_VOLT = GENMASK 6 4"
definition CHIP_MIC_CTRL_GAIN :: u16 where "CHIP_MIC_CTRL_GAIN = GENMASK 1 0"
definition CHIP_MIC_CTRL_GAIN_40DB :: u16 where "CHIP_MIC_CTRL_GAIN_40DB = 0x3"
definition CHIP_LINE_OUT_CTRL :: u16 where "CHIP_LINE_OUT_CTRL = 0x002C"
definition CHIP_LINE_OUT_VOL :: u16 where "CHIP_LINE_OUT_VOL = 0x002E"
definition CHIP_ANA_POWER :: u16 where "CHIP_ANA_POWER = 0x0030"
definition CHIP_ANA_POWER_VAG_POWERUP :: u16 where "CHIP_ANA_POWER_VAG_POWERUP = BIT 7"
definition CHIP_ANA_POWER_ADC_MONO :: u16 where "CHIP_ANA_POWER_ADC_MONO = BIT 6"
definition CHIP_ANA_POWER_REFTOP_POWERUP :: u16 where "CHIP_ANA_POWER_REFTOP_POWERUP = BIT 5"
definition CHIP_ANA_POWER_ADC_POWERUP :: u16 where "CHIP_ANA_POWER_ADC_POWERUP = BIT 1"
definition CHIP_PLL_CTRL :: u16 where "CHIP_PLL_CTRL = 0x0032"
definition CHIP_CLK_TOP_CTRL :: u16 where "CHIP_CLK_TOP_CTRL = 0x0034"
definition CHIP_ANA_STATUS :: u16 where "CHIP_ANA_STATUS = 0x0036"
definition CHIP_SHORT_CTRL :: u16 where "CHIP_SHORT_CTRL = 0x003C"
definition DAP_CONTROL :: u16 where "DAP_CONTROL = 0x0100"
definition DAP_PEQ :: u16 where "DAP_PEQ = 0x0102"

section \<open>State\<close>

abbreviation (input) EIO :: int where "EIO \<equiv> 5"

datatype input_codec_source = INPUT_CODEC_SOURCE_MIC | INPUT_CODEC_SOURCE_LINE_IN

datatype sgtl_value = SgtlSource input_codec_source | SgtlVolume int | SgtlMute bool
  | SgtlOther    \<comment> \<open>a property the driver does not have\<close>

abbreviation (input) AUDIO_CHANNEL_ALL :: audio_channel where "AUDIO_CHANNEL_ALL \<equiv> 8"

record sgtl_driver_data =
  sg_source :: input_codec_source
  sg_muted :: bool
  chip_ana_power_base :: u16
  sgtl_calls :: trace

record sgtl_driver_config =
  sg_env :: env
  sg_addr :: u8
  micbias_resistor_k_ohms :: nat
  micbias_voltage_m_volts :: nat
  sg_debug :: bool    \<comment> \<open>the registers are printed after starting and stopping\<close>

text \<open>\<open>struct audio_codec_cfg\<close>: \<open>None\<close> for another type of interface.\<close>

record sgtl_codec_cfg =
  mclk_freq :: nat
  channels :: nat
  frame_clk_freq :: nat
  sg_i2s :: i2s_config

type_synonym 'a sgtl = "(sgtl_driver_data, 'a) state"

definition sg_call :: "sgtl_driver_config \<Rightarrow> ext_call \<Rightarrow> reply sgtl" where
  "sg_call cfg c = zoom sgtl_calls (\<lambda>t s. s\<lparr>sgtl_calls := t\<rparr>) (ext (sg_env cfg) c)"

definition sg_get :: "sgtl_driver_data sgtl" where
  "sg_get = State (\<lambda>s. (s, s))"

definition sg_upd :: "(sgtl_driver_data \<Rightarrow> sgtl_driver_data) \<Rightarrow> unit sgtl" where
  "sg_upd f = State (\<lambda>s. ((), f s))"

lemma run_sgtl [simp]:
  "run_state (sg_call cfg c) s =
     (sg_env cfg (sgtl_calls s) c, s\<lparr>sgtl_calls := sgtl_calls s @ [(c, sg_env cfg (sgtl_calls s) c)]\<rparr>)"
  "run_state sg_get s = (s, s)"
  "run_state (sg_upd f) s = ((), f s)"
  by (simp_all add: sg_call_def sg_get_def sg_upd_def)

definition put_be16 :: "u16 \<Rightarrow> u8 list" where
  "put_be16 v = [ucast (drop_bit 8 v), ucast v]"

definition sgtl_write_reg :: "sgtl_driver_config \<Rightarrow> u16 \<Rightarrow> u16 \<Rightarrow> int sgtl" where
  "sgtl_write_reg cfg addr val =
     do { r \<leftarrow> sg_call cfg (I2cWrite (sg_addr cfg) (put_be16 addr @ put_be16 val));
          return (if r_ret r < 0 then r_ret r else 0) }"

definition sgtl_read_reg :: "sgtl_driver_config \<Rightarrow> u16 \<Rightarrow> (int \<times> u16) sgtl" where
  "sgtl_read_reg cfg addr =
     do { r \<leftarrow> sg_call cfg (I2cWriteRead (sg_addr cfg) (put_be16 addr) 2);
          return (if r_ret r < 0 then (r_ret r, 0)
                  else (0, push_bit 8 (ucast (r_byte r 0)) OR ucast (r_byte r 1))) }"

section \<open>Source and mute\<close>

definition ana_ctrl :: "input_codec_source \<Rightarrow> bool \<Rightarrow> u16" where
  "ana_ctrl source mute =
     CHIP_ANA_CTRL_MUTE_LO OR CHIP_ANA_CTRL_MUTE_HP OR CHIP_ANA_CTRL_EN_ZCD_ADC OR
     (if source = INPUT_CODEC_SOURCE_LINE_IN then CHIP_ANA_CTRL_SELECT_ADC else 0) OR
     (if mute then CHIP_ANA_CTRL_MUTE_ADC else 0)"

definition sgtl_write_source_and_mute :: "sgtl_driver_config \<Rightarrow> input_codec_source \<Rightarrow> bool \<Rightarrow> int sgtl" where
  "sgtl_write_source_and_mute cfg source mute =
     do { ret \<leftarrow> sgtl_write_reg cfg CHIP_ANA_CTRL (ana_ctrl source mute);
          if ret < 0 then return ret
          else do { sg_upd (\<lambda>d. d\<lparr>sg_muted := mute, sg_source := source\<rparr>); return 0 } }"

definition sgtl_set_mute :: "sgtl_driver_config \<Rightarrow> audio_channel \<Rightarrow> bool \<Rightarrow> int sgtl" where
  "sgtl_set_mute cfg ch mute =
     do { data \<leftarrow> sg_get;
          if ch \<noteq> AUDIO_CHANNEL_ALL then return (- EINVAL)
          else if mute = sg_muted data then return 0
          else sgtl_write_source_and_mute cfg (sg_source data) mute }"

definition sgtl_set_source :: "sgtl_driver_config \<Rightarrow> audio_channel \<Rightarrow> input_codec_source \<Rightarrow> int sgtl" where
  "sgtl_set_source cfg ch source =
     do { data \<leftarrow> sg_get;
          if ch \<noteq> AUDIO_CHANNEL_ALL then return (- EINVAL)
          else if source = sg_source data then return 0
          else do {
            ret \<leftarrow> sgtl_set_mute cfg ch True;
            if ret < 0 then return ret
            else do {
              ret \<leftarrow> sgtl_write_source_and_mute cfg source True;
              if ret < 0 then return ret
              else if \<not> sg_muted data then do {
                ret \<leftarrow> sgtl_set_mute cfg ch False;
                return (if ret < 0 then ret else 0) }
              else return 0 } } }"

section \<open>Configuration\<close>

definition sgtl_initialize :: "sgtl_driver_config \<Rightarrow> int sgtl" where
  "sgtl_initialize cfg =
     do { r \<leftarrow> sg_call cfg (I2cReady (sg_addr cfg)); return (if r_ret r = 0 then - ENODEV else 0) }"

definition CHIP_REF_CTRL_VAG_VAL_MILLIVOLT :: "nat \<Rightarrow> u16" where
  "CHIP_REF_CTRL_VAG_VAL_MILLIVOLT mv = of_nat (min 0x1f ((mv - 800 + 12) div 25))"

definition sgtl_configure_power :: "sgtl_driver_config \<Rightarrow> sgtl_codec_cfg \<Rightarrow> int sgtl" where
  "sgtl_configure_power cfg c =
     seq_neg
       [sgtl_write_reg cfg CHIP_DIG_POWER 0,
        sgtl_write_reg cfg CHIP_LINREG_CTRL
          (CHIP_LINREG_CTRL_VDDC_ASSN_OVRD OR CHIP_LINREG_CTRL_VDDC_MAN_ASSN OR
           FIELD_PREP CHIP_LINREG_CTRL_D_PROGRAMMING 0xC),
        do { let val = (if 1 < channels c then CHIP_ANA_POWER_ADC_MONO else 0);
             ret \<leftarrow> sgtl_write_reg cfg CHIP_ANA_POWER val;
             if ret < 0 then return ret
             else do { sg_upd (\<lambda>d. d\<lparr>chip_ana_power_base := val\<rparr>); return 0 } },
        sgtl_write_reg cfg CHIP_REF_CTRL
          (FIELD_PREP CHIP_REF_CTRL_VAG_VAL (CHIP_REF_CTRL_VAG_VAL_MILLIVOLT 1575) OR
           FIELD_PREP CHIP_REF_CTRL_BIAS_CTRL 0x2)]"

definition sys_fs :: "nat \<Rightarrow> (nat \<times> nat) option" where
  \<comment> \<open>the internal rate and its divider for a sample rate\<close>
  "sys_fs rate =
     (if rate = 8000 then Some (32000, 4) else if rate = 16000 then Some (32000, 2)
      else if rate = 24000 then Some (48000, 2) else if rate = 32000 then Some (32000, 1)
      else if rate = 44100 then Some (44100, 1) else if rate = 48000 then Some (48000, 1)
      else if rate = 96000 then Some (96000, 1) else None)"

definition sys_fs_reg :: "nat \<Rightarrow> u16" where
  "sys_fs_reg fs =
     (if fs = 32000 then CHIP_CLK_CTRL_SYS_FS_32_KHZ else if fs = 44100 then CHIP_CLK_CTRL_SYS_FS_44_1_KHZ
      else if fs = 48000 then CHIP_CLK_CTRL_SYS_FS_48_KHZ else CHIP_CLK_CTRL_SYS_FS_96_KHZ)"

definition mclk_ratio :: "nat \<Rightarrow> nat \<Rightarrow> u16 option" where
  "mclk_ratio mclk fs =
     (if mclk = 256 * fs then Some CHIP_CLK_CTRL_MCLK_FREQ_256_FS
      else if mclk = 384 * fs then Some CHIP_CLK_CTRL_MCLK_FREQ_384_FS
      else if mclk = 512 * fs then Some CHIP_CLK_CTRL_MCLK_FREQ_512_FS else None)"

definition sgtl_configure_clocks :: "sgtl_driver_config \<Rightarrow> sgtl_codec_cfg \<Rightarrow> int sgtl" where
  "sgtl_configure_clocks cfg c =
     (case sys_fs (frame_clk_freq c) of
        None \<Rightarrow> return (- EINVAL)
      | Some (fs, fs_div) \<Rightarrow>
          (case mclk_ratio (mclk_freq c) fs of
             None \<Rightarrow> return (- EINVAL)
           | Some freq \<Rightarrow>
               sgtl_write_reg cfg CHIP_CLK_CTRL
                 (FIELD_PREP CHIP_CLK_CTRL_RATE_MODE (of_nat (fs_div div 2)) OR
                  FIELD_PREP CHIP_CLK_CTRL_SYS_FS (sys_fs_reg fs) OR
                  FIELD_PREP CHIP_CLK_CTRL_MCLK_FREQ freq)))"

definition sgtl_format :: "i2s_format \<Rightarrow> (u16 \<times> u16 \<times> bool) option" where
  \<comment> \<open>the mode, the alignment bit and the polarity of the frame clock\<close>
  "sgtl_format fmt =
     (case fmt of
        I2S_FMT_DATA_FORMAT_I2S \<Rightarrow> Some (CHIP_I2S_CTRL_I2S_MODE_I2S_LEFT_JUSTIFIED, 0, False)
      | I2S_FMT_DATA_FORMAT_LEFT_JUSTIFIED \<Rightarrow>
          Some (CHIP_I2S_CTRL_I2S_MODE_I2S_LEFT_JUSTIFIED, CHIP_I2S_CTRL_LRALIGN, True)
      | I2S_FMT_DATA_FORMAT_RIGHT_JUSTIFIED \<Rightarrow> Some (CHIP_I2S_CTRL_I2S_MODE_RIGHT_JUSTIFIED, 0, True)
      | _ \<Rightarrow> None)"

definition sgtl_word_length :: "nat \<Rightarrow> u16 option" where
  "sgtl_word_length width =
     (if width = 16 then Some CHIP_I2S_CTRL_DLEN_16 else if width = 20 then Some CHIP_I2S_CTRL_DLEN_20
      else if width = 24 then Some CHIP_I2S_CTRL_DLEN_24 else if width = 32 then Some CHIP_I2S_CTRL_DLEN_32 else None)"

definition sgtl_configure_dai :: "sgtl_driver_config \<Rightarrow> i2s_config \<Rightarrow> int sgtl" where
  "sgtl_configure_dai cfg c =
     (if bit_clk_slave c \<noteq> frame_clk_slave c then return (- EINVAL)
      else case sgtl_format (data_format c) of
        None \<Rightarrow> return (- EINVAL)
      | Some (i2s_mode, align, lrpol) \<Rightarrow>
          (case sgtl_word_length (word_size c) of
             None \<Rightarrow> return (- EINVAL)
           | Some dlen \<Rightarrow>
               sgtl_write_reg cfg CHIP_I2S_CTRL
                 (FIELD_PREP CHIP_I2S_CTRL_I2S_MODE CHIP_I2S_CTRL_I2S_MODE_I2S_LEFT_JUSTIFIED OR
                  (if bit_clk_slave c then CHIP_I2S_CTRL_MS else 0) OR align OR
                  FIELD_PREP CHIP_I2S_CTRL_I2S_MODE i2s_mode OR
                  FIELD_PREP CHIP_I2S_CTRL_LRPOL (if lrpol \<noteq> frame_clk_inv c then 1 else 0) OR
                  (if bit_clk_inv c then CHIP_I2S_CTRL_SCLK_INV else 0) OR
                  FIELD_PREP CHIP_I2S_CTRL_DLEN dlen OR
                  (if word_size c = 16 then CHIP_I2S_CTRL_SCLKFREQ else 0))))"

fun LOG2CEIL :: "nat \<Rightarrow> nat" where
  "LOG2CEIL n = (if n \<le> 1 then 0 else 1 + LOG2CEIL ((n + 1) div 2))"

declare LOG2CEIL.simps [simp del]

definition sgtl_configure_input :: "sgtl_driver_config \<Rightarrow> int sgtl" where
  "sgtl_configure_input cfg =
     seq_neg
       [sgtl_write_source_and_mute cfg INPUT_CODEC_SOURCE_LINE_IN True,
        sgtl_write_reg cfg CHIP_MIC_CTRL
          (FIELD_PREP CHIP_MIC_CTRL_BIAS_RESISTOR (of_nat (LOG2CEIL (micbias_resistor_k_ohms cfg))) OR
           FIELD_PREP CHIP_MIC_CTRL_BIAS_VOLT
             (ucast (of_int ((int (micbias_voltage_m_volts cfg) - 1250) sdiv 250) :: u8)) OR
           FIELD_PREP CHIP_MIC_CTRL_GAIN CHIP_MIC_CTRL_GAIN_40DB),
        sgtl_write_reg cfg CHIP_SSS_CTRL
          (FIELD_PREP CHIP_SSS_CTRL_DAC_SELECT CHIP_SSS_CTRL_DAC_SELECT_I2S_IN OR
           FIELD_PREP CHIP_SSS_CTRL_I2S_SELECT CHIP_SSS_CTRL_I2S_SELECT_ADC)]"

definition sgtl_configure :: "sgtl_driver_config \<Rightarrow> sgtl_codec_cfg option \<Rightarrow> int sgtl" where
  "sgtl_configure cfg c =
     (case c of
        None \<Rightarrow> return (- EINVAL)
      | Some c \<Rightarrow>
          do { (ret, chip_id) \<leftarrow> sgtl_read_reg cfg CHIP_ID_ADDR;
               if ret < 0 then return ret
               else if FIELD_GET CHIP_ID_PARTID chip_id \<noteq> CHIP_ID_PARTID_SGTL5000 then return (- EIO)
               else seq_neg [sgtl_configure_power cfg c, sgtl_configure_clocks cfg c,
                      sgtl_configure_dai cfg (sg_i2s c), sgtl_configure_input cfg] })"

section \<open>Input\<close>

fun sgtl_read_regs :: "sgtl_driver_config \<Rightarrow> u16 list \<Rightarrow> unit sgtl" where
  "sgtl_read_regs cfg [] = return ()"
| "sgtl_read_regs cfg (r # rs) = do { _ \<leftarrow> sgtl_read_reg cfg r; sgtl_read_regs cfg rs }"

definition sgtl_read_all_regs :: "sgtl_driver_config \<Rightarrow> unit sgtl" where
  "sgtl_read_all_regs cfg = sgtl_read_regs cfg
     [CHIP_ID_ADDR, CHIP_DIG_POWER, CHIP_CLK_CTRL, CHIP_I2S_CTRL, CHIP_SSS_CTRL,
      CHIP_ADCDAC_CTRL, CHIP_DAC_VOL, CHIP_PAD_STRENGTH, CHIP_ANA_ADC_CTRL, CHIP_ANA_HP_CTRL,
      CHIP_ANA_CTRL, CHIP_LINREG_CTRL, CHIP_REF_CTRL, CHIP_MIC_CTRL, CHIP_LINE_OUT_CTRL,
      CHIP_LINE_OUT_VOL, CHIP_ANA_POWER, CHIP_PLL_CTRL, CHIP_CLK_TOP_CTRL, CHIP_ANA_STATUS,
      CHIP_SHORT_CTRL, DAP_CONTROL, DAP_PEQ]"

definition sgtl_dump_regs :: "sgtl_driver_config \<Rightarrow> unit sgtl" where
  "sgtl_dump_regs cfg = (if sg_debug cfg then sgtl_read_all_regs cfg else return ())"

definition sgtl_start_input :: "sgtl_driver_config \<Rightarrow> int sgtl" where
  "sgtl_start_input cfg =
     do { data \<leftarrow> sg_get;
          seq_neg
            [sgtl_write_reg cfg CHIP_ANA_POWER (chip_ana_power_base data OR CHIP_ANA_POWER_VAG_POWERUP OR
               CHIP_ANA_POWER_REFTOP_POWERUP OR CHIP_ANA_POWER_ADC_POWERUP),
             sgtl_write_reg cfg CHIP_DIG_POWER (CHIP_DIG_POWER_ADC_POWERUP OR CHIP_DIG_POWER_I2S_OUT_POWERUP),
             sgtl_set_mute cfg AUDIO_CHANNEL_ALL False,
             do { sgtl_dump_regs cfg; return 0 }] }"

definition sgtl_stop_input :: "sgtl_driver_config \<Rightarrow> int sgtl" where
  "sgtl_stop_input cfg =
     do { data \<leftarrow> sg_get;
          seq_neg
            [sgtl_set_mute cfg AUDIO_CHANNEL_ALL False,
             sgtl_write_reg cfg CHIP_DIG_POWER 0,
             sgtl_write_reg cfg CHIP_ANA_POWER (chip_ana_power_base data),
             do { sgtl_dump_regs cfg; return 0 }] }"

definition CODEC_VOLUME_MAX :: int where "CODEC_VOLUME_MAX = 45"
definition CODEC_VOLUME_MIN :: int where "CODEC_VOLUME_MIN = 0"

definition sgtl_set_volume :: "sgtl_driver_config \<Rightarrow> audio_channel \<Rightarrow> int \<Rightarrow> int sgtl" where
  "sgtl_set_volume cfg ch vol =
     (if CODEC_VOLUME_MAX < vol \<or> vol < CODEC_VOLUME_MIN then return (- EINVAL)
      else let vol_val = of_int ((vol + 1) div 3) in
        if ch = AUDIO_CHANNEL_FRONT_LEFT
        then sgtl_write_reg cfg CHIP_ANA_ADC_CTRL (FIELD_PREP CHIP_ANA_ADC_CTRL_ADC_VOL_LEFT vol_val)
        else if ch = AUDIO_CHANNEL_FRONT_RIGHT
        then sgtl_write_reg cfg CHIP_ANA_ADC_CTRL (FIELD_PREP CHIP_ANA_ADC_CTRL_ADC_VOL_RIGHT vol_val)
        else if ch = AUDIO_CHANNEL_ALL
        then sgtl_write_reg cfg CHIP_ANA_ADC_CTRL
               (FIELD_PREP CHIP_ANA_ADC_CTRL_ADC_VOL_LEFT vol_val OR FIELD_PREP CHIP_ANA_ADC_CTRL_ADC_VOL_RIGHT vol_val)
        else return (- EINVAL))"

definition sgtl_set_property :: "sgtl_driver_config \<Rightarrow> audio_channel \<Rightarrow> sgtl_value \<Rightarrow> int sgtl" where
  "sgtl_set_property cfg ch val =
     (case val of
        SgtlSource source \<Rightarrow> sgtl_set_source cfg ch source
      | SgtlVolume vol \<Rightarrow> sgtl_set_volume cfg ch vol
      | SgtlMute mute \<Rightarrow> sgtl_set_mute cfg ch mute
      | SgtlOther \<Rightarrow> return (- EINVAL))"

definition sgtl_apply_properties :: "int sgtl" where
  "sgtl_apply_properties = return 0"

section \<open>The chip\<close>

text \<open>The registers after the transfers of a trace: a transfer that succeeds writes the register it names.\<close>

definition get_be16 :: "u8 list \<Rightarrow> u16" where
  "get_be16 bs = push_bit 8 (ucast (bs ! 0)) OR ucast (bs ! 1)"

definition sgtl_step :: "(u16 \<Rightarrow> u16) \<Rightarrow> ext_call \<times> reply \<Rightarrow> u16 \<Rightarrow> u16" where
  "sgtl_step f ev =
     (case fst ev of
        I2cWrite a bs \<Rightarrow> if r_ret (snd ev) < 0 then f else f(get_be16 bs := get_be16 (drop 2 bs))
      | _ \<Rightarrow> f)"

definition sgtl_chip :: "(u16 \<Rightarrow> u16) \<Rightarrow> sgtl_driver_data \<Rightarrow> u16 \<Rightarrow> u16" where
  "sgtl_chip f0 s = foldl sgtl_step f0 (sgtl_calls s)"

lemma get_put_be16 [simp]: "get_be16 (put_be16 v @ bs) = v"
proof (rule bit_word_eqI)
  fix n assume n: "n < LENGTH(16)"
  then show "bit (get_be16 (put_be16 v @ bs)) n = bit v n"
    by (cases "n < 8") (auto simp: get_be16_def put_be16_def bit_simps)
qed

lemma length_put_be16 [simp]: "length (put_be16 v) = 2"
  by (simp add: put_be16_def)

lemma sgtl_write_effect:
  assumes "run_state (sgtl_write_reg cfg a v) s = (ret, s')"
  shows "ret \<le> 0 \<and> sg_muted s' = sg_muted s \<and> sg_source s' = sg_source s \<and> chip_ana_power_base s' = chip_ana_power_base s \<and>
    sgtl_chip f0 s' = (if ret = 0 then (sgtl_chip f0 s)(a := v) else sgtl_chip f0 s)"
  using assms get_put_be16 [of v "[]"]
  by (auto simp: sgtl_write_reg_def sgtl_chip_def sgtl_step_def)

text \<open>The control register is as the driver remembers it.\<close>

definition control_agrees :: "(u16 \<Rightarrow> u16) \<Rightarrow> sgtl_driver_data \<Rightarrow> bool" where
  "control_agrees f0 s \<longleftrightarrow> sgtl_chip f0 s CHIP_ANA_CTRL = ana_ctrl (sg_source s) (sg_muted s)"

definition sgtl_keeps :: "(u16 \<Rightarrow> u16) \<Rightarrow> 'a sgtl \<Rightarrow> bool" where
  "sgtl_keeps f0 m \<longleftrightarrow> (\<forall>s. control_agrees f0 s \<longrightarrow> control_agrees f0 (snd (run_state m s)))"

named_theorems sgtl_keeps_intros \<open>code that keeps the control register in agreement\<close>

lemma sgtl_keeps_basic [sgtl_keeps_intros]:
  "sgtl_keeps f0 (return x)" "sgtl_keeps f0 sg_get"
  "sgtl_keeps f0 (sg_upd (\<lambda>d. d\<lparr>chip_ana_power_base := v\<rparr>))"
  by (simp_all add: sgtl_keeps_def control_agrees_def sgtl_chip_def)

lemma sgtl_keeps_bind [sgtl_keeps_intros]:
  "sgtl_keeps f0 m \<Longrightarrow> (\<And>x. sgtl_keeps f0 (g x)) \<Longrightarrow> sgtl_keeps f0 (State_Monad.bind m g)"
  unfolding sgtl_keeps_def by (auto split: prod.splits)

lemma sgtl_keeps_cases [sgtl_keeps_intros]:
  "sgtl_keeps f0 m \<Longrightarrow> sgtl_keeps f0 n \<Longrightarrow> sgtl_keeps f0 (if b then m else n)"
  "sgtl_keeps f0 m \<Longrightarrow> (\<And>x. sgtl_keeps f0 (g x)) \<Longrightarrow> sgtl_keeps f0 (case opt of None \<Rightarrow> m | Some x \<Rightarrow> g x)"
  "(\<And>a b. sgtl_keeps f0 (h a b)) \<Longrightarrow> sgtl_keeps f0 (case p of (a, b) \<Rightarrow> h a b)"
  by (simp_all split: option.split prod.split)

lemma sgtl_keeps_seq [sgtl_keeps_intros]: "list_all (sgtl_keeps f0) ms \<Longrightarrow> sgtl_keeps f0 (seq_neg ms)"
  by (induction ms rule: seq_neg.induct) (auto intro!: sgtl_keeps_intros)

lemma sgtl_keeps_write [sgtl_keeps_intros]: "a \<noteq> CHIP_ANA_CTRL \<Longrightarrow> sgtl_keeps f0 (sgtl_write_reg cfg a v)"
  unfolding sgtl_keeps_def control_agrees_def
  using sgtl_write_effect [of cfg a v _ _ _ f0, OF prod.collapse [symmetric]] by auto

lemma sgtl_keeps_read [sgtl_keeps_intros]: "sgtl_keeps f0 (sgtl_read_reg cfg a)"
  by (simp add: sgtl_keeps_def control_agrees_def sgtl_read_reg_def sgtl_chip_def sgtl_step_def)

lemma sgtl_keeps_read_regs [sgtl_keeps_intros]: "sgtl_keeps f0 (sgtl_read_regs cfg rs)"
  by (induction rs) (auto intro!: sgtl_keeps_intros)

lemma sgtl_keeps_dump [sgtl_keeps_intros]: "sgtl_keeps f0 (sgtl_dump_regs cfg)"
  unfolding sgtl_dump_regs_def sgtl_read_all_regs_def by (intro sgtl_keeps_intros)

text \<open>A write of source and mute: what is written is remembered, and a failed write changes nothing.\<close>

lemma source_and_mute_effect:
  assumes "run_state (sgtl_write_source_and_mute cfg source mute) s = (ret, s')"
  shows "(ret = 0 \<longrightarrow> control_agrees f0 s' \<and> sg_source s' = source \<and> sg_muted s' = mute) \<and>
    (ret \<noteq> 0 \<longrightarrow> ret < 0 \<and> sgtl_chip f0 s' = sgtl_chip f0 s \<and> sg_source s' = sg_source s \<and> sg_muted s' = sg_muted s)"
proof -
  obtain r t where r: "run_state (sgtl_write_reg cfg CHIP_ANA_CTRL (ana_ctrl source mute)) s = (r, t)" by fastforce
  from sgtl_write_effect [OF this, of f0] assms r show ?thesis
    by (cases "r = 0") (auto simp: sgtl_write_source_and_mute_def control_agrees_def sgtl_chip_def)
qed

lemma sgtl_keeps_source_and_mute [sgtl_keeps_intros]: "sgtl_keeps f0 (sgtl_write_source_and_mute cfg source mute)"
  unfolding sgtl_keeps_def
proof (intro allI impI)
  fix s assume "control_agrees f0 s"
  with source_and_mute_effect [of cfg source mute s _ _ f0, OF prod.collapse [symmetric]]
  show "control_agrees f0 (snd (run_state (sgtl_write_source_and_mute cfg source mute) s))"
    unfolding control_agrees_def by (cases "fst (run_state (sgtl_write_source_and_mute cfg source mute) s) = 0") auto
qed

lemma sgtl_keeps_operations [sgtl_keeps_intros]:
  "sgtl_keeps f0 (sgtl_set_mute cfg ch mute)" "sgtl_keeps f0 (sgtl_set_volume cfg ch vol)"
  "sgtl_keeps f0 (sgtl_configure_clocks cfg c)" "sgtl_keeps f0 (sgtl_configure_dai cfg i)"
  "sgtl_keeps f0 (sgtl_configure_power cfg c)" "sgtl_keeps f0 (sgtl_configure_input cfg)"
  unfolding sgtl_set_mute_def sgtl_set_volume_def sgtl_configure_clocks_def sgtl_configure_dai_def Let_def
    sgtl_configure_power_def sgtl_configure_input_def
  by (intro sgtl_keeps_intros; auto intro!: sgtl_keeps_intros simp: CHIP_ANA_ADC_CTRL_def CHIP_ANA_CTRL_def CHIP_CLK_CTRL_def
      CHIP_I2S_CTRL_def CHIP_DIG_POWER_def CHIP_LINREG_CTRL_def CHIP_ANA_POWER_def CHIP_REF_CTRL_def
      CHIP_MIC_CTRL_def CHIP_SSS_CTRL_def)+

lemma sgtl_keeps_api [sgtl_keeps_intros]:
  "sgtl_keeps f0 (sgtl_configure cfg co)" "sgtl_keeps f0 (sgtl_start_input cfg)" "sgtl_keeps f0 (sgtl_stop_input cfg)"
  "sgtl_keeps f0 (sgtl_set_source cfg ch source)"
  unfolding sgtl_configure_def sgtl_start_input_def sgtl_stop_input_def sgtl_set_source_def
  by (intro sgtl_keeps_intros; auto intro!: sgtl_keeps_intros simp: CHIP_ANA_CTRL_def CHIP_DIG_POWER_def CHIP_ANA_POWER_def)+

text \<open>Code that leaves the converter unmuted.\<close>

definition stays_unmuted :: "'a sgtl \<Rightarrow> bool" where
  "stays_unmuted m \<longleftrightarrow> (\<forall>s. \<not> sg_muted s \<longrightarrow> \<not> sg_muted (snd (run_state m s)))"

lemma stays_unmuted_bind:
  "stays_unmuted m \<Longrightarrow> (\<And>x. stays_unmuted (g x)) \<Longrightarrow> stays_unmuted (State_Monad.bind m g)"
  unfolding stays_unmuted_def by (auto split: prod.splits)

lemma stays_unmuted_plain: "stays_unmuted (return x)"
  "stays_unmuted m \<Longrightarrow> stays_unmuted n \<Longrightarrow> stays_unmuted (if b then m else n)"
  by (simp_all add: stays_unmuted_def)

lemma stays_unmuted_seq: "list_all stays_unmuted ms \<Longrightarrow> stays_unmuted (seq_neg ms)"
  by (induction ms rule: seq_neg.induct) (auto intro!: stays_unmuted_bind stays_unmuted_plain)

lemma stays_unmuted_read: "stays_unmuted (sgtl_read_reg cfg a)"
  by (simp add: stays_unmuted_def sgtl_read_reg_def)

lemma stays_unmuted_read_regs: "stays_unmuted (sgtl_read_regs cfg rs)"
  by (induction rs) (auto intro!: stays_unmuted_bind stays_unmuted_plain stays_unmuted_read)

lemma stays_unmuted_basic:
  "stays_unmuted (sgtl_write_reg cfg a v)" "stays_unmuted (do { sgtl_dump_regs cfg; return 0 })"
proof -
  show "stays_unmuted (sgtl_write_reg cfg a v)" by (simp add: stays_unmuted_def sgtl_write_reg_def)
  have "stays_unmuted (sgtl_dump_regs cfg)"
    unfolding sgtl_dump_regs_def sgtl_read_all_regs_def by (intro stays_unmuted_plain stays_unmuted_read_regs)
  then show "stays_unmuted (do { sgtl_dump_regs cfg; return 0 })"
    by (rule stays_unmuted_bind) (simp add: stays_unmuted_def)
qed

lemma set_mute_effect:
  assumes "run_state (sgtl_set_mute cfg AUDIO_CHANNEL_ALL mute) s = (ret, s')" "0 \<le> ret"
  shows "sg_muted s' = mute"
proof (cases "mute = sg_muted s")
  case True
  with assms show ?thesis by (simp add: sgtl_set_mute_def)
next
  case False
  with assms(1) have "run_state (sgtl_write_source_and_mute cfg (sg_source s) mute) s = (ret, s')"
    by (simp add: sgtl_set_mute_def)
  from source_and_mute_effect [OF this] assms(2) show ?thesis by fastforce
qed

lemma seq_neg_after:
  assumes "run_state (seq_neg (m # ms)) s = (ret, s')" "ms \<noteq> []" "0 \<le> ret"
  obtains r t where "run_state m s = (r, t)" "0 \<le> r" "run_state (seq_neg ms) t = (ret, s')"
proof -
  obtain r t where r: "run_state m s = (r, t)" by fastforce
  obtain n ns where "ms = n # ns" using assms(2) by (cases ms) auto
  with assms r that show ?thesis by (cases "r < 0") auto
qed

lemma unmuting_seq:
  assumes "run_state (seq_neg (sgtl_set_mute cfg AUDIO_CHANNEL_ALL False # ms)) s = (ret, s')" "ms \<noteq> []" "0 \<le> ret"
    "list_all stays_unmuted ms"
  shows "\<not> sg_muted s'"
proof -
  obtain r t where r: "run_state (sgtl_set_mute cfg AUDIO_CHANNEL_ALL False) s = (r, t)" "0 \<le> r"
    "run_state (seq_neg ms) t = (ret, s')"
    using seq_neg_after [OF assms(1-3)] by blast
  from set_mute_effect [OF r(1,2)] r(3) stays_unmuted_seq [OF assms(4)] show ?thesis
    by (metis stays_unmuted_def snd_conv)
qed

lemma start_unmutes:
  assumes "run_state (sgtl_start_input cfg) s = (0, s')"
  shows "\<not> sg_muted s'"
proof -
  let ?a = "sgtl_write_reg cfg CHIP_ANA_POWER (chip_ana_power_base s OR CHIP_ANA_POWER_VAG_POWERUP OR
               CHIP_ANA_POWER_REFTOP_POWERUP OR CHIP_ANA_POWER_ADC_POWERUP)"
    and ?b = "sgtl_write_reg cfg CHIP_DIG_POWER (CHIP_DIG_POWER_ADC_POWERUP OR CHIP_DIG_POWER_I2S_OUT_POWERUP)"
    and ?m = "sgtl_set_mute cfg AUDIO_CHANNEL_ALL False" and ?d = "do { sgtl_dump_regs cfg; return (0 :: int) }"
  have run: "run_state (seq_neg (?a # [?b, ?m, ?d])) s = (0, s')"
    using assms unfolding sgtl_start_input_def by simp
  obtain r t where "run_state (seq_neg (?b # [?m, ?d])) t = (0, s')"
    using seq_neg_after [OF run] by blast
  then obtain t2 where "run_state (seq_neg (?m # [?d])) t2 = (0, s')"
    by (rule seq_neg_after) auto
  then show ?thesis by (rule unmuting_seq) (simp_all add: stays_unmuted_basic)
qed

lemma stop_unmutes:
  assumes "run_state (sgtl_stop_input cfg) s = (0, s')"
  shows "\<not> sg_muted s'"
proof -
  let ?d = "do { sgtl_dump_regs cfg; return (0 :: int) }"
  have "run_state (seq_neg (sgtl_set_mute cfg AUDIO_CHANNEL_ALL False #
      [sgtl_write_reg cfg CHIP_DIG_POWER 0, sgtl_write_reg cfg CHIP_ANA_POWER (chip_ana_power_base s), ?d])) s = (0, s')"
    using assms unfolding sgtl_stop_input_def by simp
  then show ?thesis by (rule unmuting_seq) (simp_all add: stays_unmuted_basic)
qed

lemma ana_ctrl_bits: "bit (ana_ctrl source mute) 0 \<longleftrightarrow> mute"
  "bit (ana_ctrl source mute) 2 \<longleftrightarrow> source = INPUT_CODEC_SOURCE_LINE_IN"
  by (auto simp: ana_ctrl_def CHIP_ANA_CTRL_MUTE_LO_def CHIP_ANA_CTRL_MUTE_HP_def CHIP_ANA_CTRL_EN_ZCD_ADC_def
      CHIP_ANA_CTRL_SELECT_ADC_def CHIP_ANA_CTRL_MUTE_ADC_def bit_simps)

lemma configured_control:
  assumes "run_state (sgtl_configure cfg co) s = (0, s')"
  shows "control_agrees f0 s'"
proof -
  obtain c where c: "co = Some c" using assms by (cases co) (auto simp: sgtl_configure_def)
  obtain r chip_id t where r: "run_state (sgtl_read_reg cfg CHIP_ID_ADDR) s = ((r, chip_id), t)" by (metis prod.collapse)
  have ok: "\<not> r < 0" "FIELD_GET CHIP_ID_PARTID chip_id = CHIP_ID_PARTID_SGTL5000"
    using assms r by (auto simp: sgtl_configure_def c split: if_splits)
  let ?dai = "sgtl_configure_dai cfg (sg_i2s c)" and ?inp = "sgtl_configure_input cfg"
  have "run_state (seq_neg (sgtl_configure_power cfg c # [sgtl_configure_clocks cfg c, ?dai, ?inp])) t = (0, s')"
    using assms r ok by (simp add: sgtl_configure_def c)
  then obtain t1 where "run_state (seq_neg (sgtl_configure_clocks cfg c # [?dai, ?inp])) t1 = (0, s')"
    by (rule seq_neg_after) auto
  then obtain t2 where "run_state (seq_neg (?dai # [?inp])) t2 = (0, s')"
    by (rule seq_neg_after) auto
  then obtain t3 where t3: "run_state (seq_neg [?inp]) t3 = (0, s')"
    by (rule seq_neg_after) auto
  define mic where "mic = sgtl_write_reg cfg CHIP_MIC_CTRL
     (FIELD_PREP CHIP_MIC_CTRL_BIAS_RESISTOR (of_nat (LOG2CEIL (micbias_resistor_k_ohms cfg))) OR
      FIELD_PREP CHIP_MIC_CTRL_BIAS_VOLT
        (ucast (of_int ((int (micbias_voltage_m_volts cfg) - 1250) sdiv 250) :: u8)) OR
      FIELD_PREP CHIP_MIC_CTRL_GAIN CHIP_MIC_CTRL_GAIN_40DB)"
  define sss where "sss = sgtl_write_reg cfg CHIP_SSS_CTRL
     (FIELD_PREP CHIP_SSS_CTRL_DAC_SELECT CHIP_SSS_CTRL_DAC_SELECT_I2S_IN OR
      FIELD_PREP CHIP_SSS_CTRL_I2S_SELECT CHIP_SSS_CTRL_I2S_SELECT_ADC)"
  have "run_state (seq_neg (sgtl_write_source_and_mute cfg INPUT_CODEC_SOURCE_LINE_IN True # [mic, sss])) t3 = (0, s')"
    using t3 unfolding sgtl_configure_input_def mic_def sss_def by (simp del: seq_neg.simps add: seq_neg.simps(2))
  then obtain r4 t4 where t4: "run_state (sgtl_write_source_and_mute cfg INPUT_CODEC_SOURCE_LINE_IN True) t3 = (r4, t4)"
    "0 \<le> r4" "run_state (seq_neg [mic, sss]) t4 = (0, s')" by (rule seq_neg_after) auto
  from source_and_mute_effect [OF t4(1), of f0] t4(2) have "control_agrees f0 t4" by fastforce
  moreover have "sgtl_keeps f0 (seq_neg [mic, sss])"
    unfolding mic_def sss_def
    by (intro sgtl_keeps_intros) (auto intro!: sgtl_keeps_intros simp: CHIP_MIC_CTRL_def CHIP_SSS_CTRL_def CHIP_ANA_CTRL_def)
  ultimately show ?thesis using t4(3) by (metis sgtl_keeps_def snd_conv)
qed

section \<open>The property\<close>

datatype sgtl_op = SgtlConfigure "sgtl_codec_cfg option" | SgtlStart | SgtlStop | SgtlSet audio_channel sgtl_value

definition sgtl_do :: "sgtl_driver_config \<Rightarrow> sgtl_op \<Rightarrow> int sgtl" where
  "sgtl_do cfg op =
     (case op of SgtlConfigure c \<Rightarrow> sgtl_configure cfg c | SgtlStart \<Rightarrow> sgtl_start_input cfg
      | SgtlStop \<Rightarrow> sgtl_stop_input cfg | SgtlSet ch v \<Rightarrow> sgtl_set_property cfg ch v)"

definition sgtl_run :: "sgtl_driver_config \<Rightarrow> sgtl_op list \<Rightarrow> sgtl_driver_data \<Rightarrow> sgtl_driver_data" where
  "sgtl_run cfg ops s = fold (\<lambda>op s. snd (run_state (sgtl_do cfg op) s)) ops s"

lemma sgtl_do_keeps: "sgtl_keeps f0 (sgtl_do cfg op)"
  by (cases op) (auto intro!: sgtl_keeps_intros simp: sgtl_do_def sgtl_set_property_def split: sgtl_value.splits)

lemma sgtl_run_keeps: "control_agrees f0 s \<Longrightarrow> control_agrees f0 (sgtl_run cfg ops s)"
  using sgtl_do_keeps by (induction ops arbitrary: s) (auto simp: sgtl_run_def sgtl_keeps_def)

text \<open>
  Property C38. Once the converter is configured, its analog control register holds the source and the mute state
  the driver remembers, after any sequence of operations and whichever transfers fail: bit 0 is set exactly when
  the driver is muted, bit 2 exactly when the line input is selected. A successful start leaves the converter
  unmuted. So does a successful stop, which is commented as muting it: it calls \<open>codec_set_mute\<close> with \<open>false\<close>.
\<close>

theorem sgtl_control_register:
  assumes "run_state (sgtl_configure cfg co) s = (0, s1)"
  shows "let s2 = sgtl_run cfg ops s1; control = sgtl_chip f0 s2 CHIP_ANA_CTRL in
    (bit control 0 \<longleftrightarrow> sg_muted s2) \<and> (bit control 2 \<longleftrightarrow> sg_source s2 = INPUT_CODEC_SOURCE_LINE_IN) \<and>
    (\<forall>s3. run_state (sgtl_start_input cfg) s2 = (0, s3) \<or> run_state (sgtl_stop_input cfg) s2 = (0, s3) \<longrightarrow>
       \<not> bit (sgtl_chip f0 s3 CHIP_ANA_CTRL) 0)"
proof -
  define s2 where "s2 = sgtl_run cfg ops s1"
  have agrees: "control_agrees f0 s2"
    unfolding s2_def using configured_control [OF assms] by (rule sgtl_run_keeps)
  have "\<not> bit (sgtl_chip f0 s3 CHIP_ANA_CTRL) 0"
    if "run_state (sgtl_start_input cfg) s2 = (0, s3) \<or> run_state (sgtl_stop_input cfg) s2 = (0, s3)" for s3
  proof -
    have "control_agrees f0 s3"
      using that agrees sgtl_keeps_api(2,3) [of f0 cfg] unfolding sgtl_keeps_def by (metis snd_conv)
    moreover have "\<not> sg_muted s3" using that start_unmutes stop_unmutes by blast
    ultimately show ?thesis by (simp add: control_agrees_def ana_ctrl_bits)
  qed
  with agrees show ?thesis unfolding Let_def s2_def by (simp add: control_agrees_def ana_ctrl_bits)
qed

text \<open>A chip that answers with its part number.\<close>

definition sgtl_env :: env where
  "sgtl_env tr c = (case c of I2cWriteRead a bs n \<Rightarrow> quiet_reply\<lparr>r_byte := (\<lambda>i. if i = 0 then 0xA0 else 0x11)\<rparr> | _ \<Rightarrow> quiet_reply)"

definition sgtl_board :: sgtl_driver_config where
  "sgtl_board = \<lparr>sg_env = sgtl_env, sg_addr = 0x0a, micbias_resistor_k_ohms = 2, micbias_voltage_m_volts = 3000, sg_debug = False\<rparr>"

definition sgtl_board_cfg :: sgtl_codec_cfg where
  "sgtl_board_cfg = \<lparr>mclk_freq = 12288000, channels = 2, frame_clk_freq = 48000,
     sg_i2s = \<lparr>word_size = 32, data_format = I2S_FMT_DATA_FORMAT_I2S, order_lsb = False, bit_clk_inv = False, frame_clk_inv = False,
       bit_clk_slave = True, frame_clk_slave = True, bit_clk_gated = False\<rparr>\<rparr>"

definition sgtl_reset :: sgtl_driver_data where
  "sgtl_reset = \<lparr>sg_source = INPUT_CODEC_SOURCE_MIC, sg_muted = False, chip_ana_power_base = 0, sgtl_calls = []\<rparr>"

lemma sgtl_board_id: "FIELD_GET CHIP_ID_PARTID (push_bit 8 (ucast (0xA0 :: u8)) OR ucast (0x11 :: u8)) = CHIP_ID_PARTID_SGTL5000"
  by code_simp

lemma sgtl_board_write: "run_state (sgtl_write_reg sgtl_board a v) s = (0, snd (run_state (sgtl_write_reg sgtl_board a v) s))"
  by (simp add: sgtl_write_reg_def sgtl_board_def sgtl_env_def quiet_reply_def)

lemma sgtl_board_configures: "fst (run_state (sgtl_configure sgtl_board (Some sgtl_board_cfg)) sgtl_reset) = 0"
proof -
  obtain s1 where s1: "run_state (sgtl_read_reg sgtl_board CHIP_ID_ADDR) sgtl_reset =
      ((0, push_bit 8 (ucast (0xA0 :: u8)) OR ucast (0x11 :: u8)), s1)"
    by (simp add: sgtl_read_reg_def sgtl_board_def sgtl_env_def quiet_reply_def)
  have power: "fst (run_state (sgtl_configure_power sgtl_board c) s) = 0" for c s
    unfolding sgtl_configure_power_def
    by (simp add: sgtl_board_write [THEN prod_eq_iff [THEN iffD1], THEN conjunct1] split_beta)
  have clocks: "fst (run_state (sgtl_configure_clocks sgtl_board sgtl_board_cfg) s) = 0" for s
    unfolding sgtl_configure_clocks_def
    by (simp add: sys_fs_def mclk_ratio_def sgtl_board_cfg_def sgtl_board_write [THEN prod_eq_iff [THEN iffD1], THEN conjunct1])
  have dai: "fst (run_state (sgtl_configure_dai sgtl_board (sg_i2s sgtl_board_cfg)) s) = 0" for s
    unfolding sgtl_configure_dai_def
    by (simp add: sgtl_format_def sgtl_word_length_def sgtl_board_cfg_def
        sgtl_board_write [THEN prod_eq_iff [THEN iffD1], THEN conjunct1])
  have inp: "fst (run_state (sgtl_configure_input sgtl_board) s) = 0" for s
    unfolding sgtl_configure_input_def sgtl_write_source_and_mute_def
    by (simp add: sgtl_board_write [THEN prod_eq_iff [THEN iffD1], THEN conjunct1] split_beta)
  show ?thesis
    using s1 unfolding sgtl_configure_def
    by (simp add: split_beta power clocks dai inp sgtl_board_id [simplified])
qed

theorem sgtl_control_register_witness:
  "\<exists>s1. run_state (sgtl_configure sgtl_board (Some sgtl_board_cfg)) sgtl_reset = (0, s1) \<and>
     (\<forall>s3. run_state (sgtl_stop_input sgtl_board) (sgtl_run sgtl_board [SgtlStart] s1) = (0, s3) \<longrightarrow>
        \<not> bit (sgtl_chip (\<lambda>_. 0) s3 CHIP_ANA_CTRL) 0)"
proof -
  obtain s1 where s1: "run_state (sgtl_configure sgtl_board (Some sgtl_board_cfg)) sgtl_reset = (0, s1)"
    using sgtl_board_configures by (metis prod.collapse)
  from sgtl_control_register [OF this, of "[SgtlStart]" "\<lambda>_. 0"] s1 show ?thesis unfolding Let_def by blast
qed

end
