(* ===== verification/Mgr_Run.thy ===== *)
theory Mgr_Run
  imports Mgr
begin

text \<open>
  The coroutines of \<^verbatim>\<open>firmware/audio/app/src/mgr.cpp\<close> with the macros of \<^verbatim>\<open>coroutine.hpp\<close>: \<open>mgr_run\<close>, which pairs with a
  central node when it is told to and otherwise follows the one it is paired with, and the coroutines
  it awaits. A coroutine that yields is a point at which the next call resumes; a callback of the Bluetooth host
  lends its event to the coroutine, resumes it, and takes the event back. The Bluetooth host is the
  environment, of the recorder and the clock the models are used.
\<close>

section \<open>Events and state\<close>

type_synonym bt_addr = nat

record scan_info =
  scan_addr :: bt_addr
  scan_sid :: nat
  scan_interval :: nat
  scan_connectable :: bool
  scan_data :: "(u8 \<times> u8 list) list"     \<comment> \<open>the elements of the advertisement\<close>

datatype per_adv_event = SYNCED | TERM_EVENT | RECV u32 zeus_adv_data "(u8 \<times> u8 list) list"
  \<comment> \<open>the captured time, what the parsed object has before, the elements\<close>

datatype auth_event = SECURITY_CHANGED int | PAIRING_COMPLETE bool | PAIRING_FAILED int

datatype mgr_event = ScanRecv scan_info | PerAdvSync per_adv_event | Connected int int | Disconnected int int
  | Auth int auth_event    \<comment> \<open>connections with their numbers\<close>

text \<open>
  Where \<open>mgr_run\<close> stands: before its first call (or after its error return), at the head of its loop, at its
  \<open>CO_YIELD\<close>, or waiting in one of the coroutines it awaits. A connection is \<open>None\<close> for a null pointer.
\<close>

datatype mgr_point = Not_Started | Loop_Head | Idle_Yield | Scan_For_Sync bt_addr | Receiving bt_addr
  | Scan_For_Central | Connecting "int option" | Securing "int option"

record mgr_system =
  mg_node :: audio_node
  mg_at :: mgr_point
  mg_pair :: bool            \<comment> \<open>\<open>cmd\<close> is \<open>PAIR\<close>\<close>
  cancel_command :: bool
  mg_calls :: trace

record mgr_platform =
  mg_env :: env
  mg_bonds :: "trace \<Rightarrow> bt_addr list"    \<comment> \<open>what \<open>bt_foreach_bond\<close> visits\<close>
  mg_rounding :: rounding
  mg_rec :: record_platform

abbreviation (input) BtDo :: "string \<Rightarrow> ext_call" where "BtDo f \<equiv> Bt f []"

definition bt_do :: "mgr_platform \<Rightarrow> ext_call \<Rightarrow> mgr_system \<Rightarrow> mgr_system" where
  "bt_do pf c s = s\<lparr>mg_calls := mg_calls s @ [(c, mg_env pf (mg_calls s) c)]\<rparr>"

definition bt_ret :: "mgr_platform \<Rightarrow> ext_call \<Rightarrow> mgr_system \<Rightarrow> int" where
  "bt_ret pf c s = r_ret (mg_env pf (mg_calls s) c)"

lemma bt_do_simps [simp]:
  "mg_at (bt_do pf c s) = mg_at s" "mg_pair (bt_do pf c s) = mg_pair s" "mg_node (bt_do pf c s) = mg_node s"
  "cancel_command (bt_do pf c s) = cancel_command s"
  "mg_calls (bt_do pf c s) = mg_calls s @ [(c, mg_env pf (mg_calls s) c)]"
  by (simp_all add: bt_do_def)

definition mgr_led :: "(led_node \<Rightarrow> env \<Rightarrow> lp58xx_config \<Rightarrow> (led_system, int) state) \<Rightarrow> mgr_platform \<Rightarrow> mgr_system \<Rightarrow> mgr_system" where
  \<comment> \<open>a call of the LED module, whose state is with the recorder's\<close>
  "mgr_led l pf s =
     s\<lparr>mg_node := (mg_node s)\<lparr>node_rec := (node_rec (mg_node s))\<lparr>rec_led :=
       snd (run_state (l NODE_AUDIO (pf_led_env (mg_rec pf)) (pf_led (mg_rec pf))) (rec_led (node_rec (mg_node s))))\<rparr>\<rparr>\<rparr>"

section \<open>The central node's advertisements\<close>

definition ZEUS_BT_UUID_VAL :: "u8 list" where
  "ZEUS_BT_UUID_VAL = [0x60, 0xba, 0x1f, 0x08, 0x98, 0xdd, 0x16, 0xae, 0x31, 0x41, 0xa6, 0x5e, 0x95, 0xe1, 0x45, 0x0d]"

fun uuid_loop :: "nat \<Rightarrow> nat \<Rightarrow> u8 list \<Rightarrow> bool" where
  \<comment> \<open>the loop over the UUIDs from offset \<open>i\<close> on: every turn copies the first one\<close>
  "uuid_loop 0 i data = False"
| "uuid_loop (Suc n) i data =
     (if i < length data
      then if take 16 data = ZEUS_BT_UUID_VAL then True else uuid_loop n (i + 16) data
      else False)"

fun match_central_uuid :: "(u8 \<times> u8 list) list \<Rightarrow> bool" where
  \<comment> \<open>\<open>bt_data_parse\<close> with the function of \<open>mgr_scan_for_central\<close>; the data of an element has at most 255 bytes\<close>
  "match_central_uuid [] = False"
| "match_central_uuid ((ty, data) # ads) =
     (if (ty = 0x06 \<or> ty = 0x07) \<and> length data mod 16 = 0 \<and> uuid_loop 16 0 data then True
      else match_central_uuid ads)"

definition mgr_get_paired_address :: "mgr_platform \<Rightarrow> mgr_system \<Rightarrow> bt_addr option" where
  \<comment> \<open>\<open>None\<close> for \<open>BT_ADDR_LE_NONE\<close>\<close>
  "mgr_get_paired_address pf s = (let bonds = mg_bonds pf (mg_calls s) in if bonds = [] then None else Some (last bonds))"

definition mgr_set_auto_connect :: "mgr_platform \<Rightarrow> mgr_system \<Rightarrow> int \<times> mgr_system" where
  "mgr_set_auto_connect pf s =
     (case mgr_get_paired_address pf s of
        None \<Rightarrow> (0, bt_do pf (Bt ''bt_le_set_auto_conn'' []) s)
      | Some a \<Rightarrow> (bt_ret pf (Bt ''bt_le_set_auto_conn'' [a]) s, bt_do pf (Bt ''bt_le_set_auto_conn'' [a]) s))"

section \<open>The coroutines\<close>

text \<open>
  One piece of code up to the next \<open>CO_AWAIT\<close>. \<open>Inl\<close> is a suspension; \<open>Inr\<close> goes on, with the event if it is not consumed.
\<close>

type_synonym mgr_next = "mgr_system + mgr_event option \<times> mgr_system"

definition at_point :: "mgr_point \<Rightarrow> mgr_system \<Rightarrow> mgr_system" where
  "at_point p s = s\<lparr>mg_at := p\<rparr>"

definition stop_scan :: "mgr_platform \<Rightarrow> mgr_system \<Rightarrow> mgr_system" where
  "stop_scan pf = bt_do pf (BtDo ''bt_le_scan_stop'')"

definition mgr_pair_error :: "mgr_platform \<Rightarrow> int option \<Rightarrow> mgr_system \<Rightarrow> mgr_system" where
  \<comment> \<open>the labels \<open>error\<close> and \<open>exit\<close> of \<open>mgr_pair\<close>\<close>
  "mgr_pair_error pf conn s =
     at_point Loop_Head
       (case conn of
          None \<Rightarrow> s
        | Some c \<Rightarrow> bt_do pf (BtDo ''bt_conn_unref'') (bt_do pf (BtDo ''bt_conn_disconnect'') s))"

definition mgr_sync_exit :: "mgr_platform \<Rightarrow> bt_addr \<Rightarrow> bool \<Rightarrow> mgr_system \<Rightarrow> mgr_system" where
  \<comment> \<open>the label \<open>exit\<close> of \<open>mgr_sync\<close>; is there a sync?\<close>
  "mgr_sync_exit pf addr sync s =
     (let s = bt_do pf (Bt ''bt_le_set_auto_conn'' [addr]) s
      in at_point Loop_Head (if sync then bt_do pf (BtDo ''bt_le_per_adv_sync_delete'') s else s))"

definition mgr_run_start :: "mgr_platform \<Rightarrow> mgr_event option \<Rightarrow> mgr_system \<Rightarrow> mgr_next" where
  "mgr_run_start pf ev s =
     (let s = bt_do pf (BtDo ''bt_le_scan_cb_register'') s;
          s = bt_do pf (BtDo ''bt_le_per_adv_sync_cb_register'') s;
          ret = bt_ret pf (BtDo ''bt_conn_auth_info_cb_register'') s;
          s = bt_do pf (BtDo ''bt_conn_auth_info_cb_register'') s
      in if ret \<noteq> 0 then Inl s else Inr (ev, at_point Loop_Head s))"

definition mgr_run_loop :: "mgr_platform \<Rightarrow> mgr_event option \<Rightarrow> mgr_system \<Rightarrow> mgr_next" where
  \<comment> \<open>the head of the loop of \<open>mgr_run\<close>, and the first lines of the coroutine that is awaited\<close>
  "mgr_run_loop pf ev s =
     (let cmd_pair = mg_pair s;
          s = s\<lparr>cancel_command := False, mg_pair := False\<rparr>;
          scan = BtDo ''bt_le_scan_start'';
          ret = bt_ret pf scan s
      in if cmd_pair
         then if ret \<noteq> 0 then Inr (ev, mgr_pair_error pf None (stop_scan pf (bt_do pf scan s)))
              else Inr (ev, at_point Scan_For_Central (bt_do pf scan s))
         else case mgr_get_paired_address pf s of
                None \<Rightarrow> Inl (at_point Idle_Yield s)
              | Some addr \<Rightarrow>
                  if ret \<noteq> 0 then Inr (ev, at_point Loop_Head (stop_scan pf (bt_do pf scan s)))
                  else Inr (ev, at_point (Scan_For_Sync addr) (bt_do pf scan s)))"

definition mgr_scan_for_sync :: "mgr_platform \<Rightarrow> bt_addr \<Rightarrow> mgr_event option \<Rightarrow> mgr_system \<Rightarrow> mgr_next" where
  \<comment> \<open>the loop of \<open>mgr_scan_for_sync\<close> and, at its end, the creation of the sync in \<open>mgr_sync\<close>\<close>
  "mgr_scan_for_sync pf addr ev s =
     (if cancel_command s then Inr (ev, at_point Loop_Head (stop_scan pf s))
      else case ev of
        Some (ScanRecv info) \<Rightarrow>
          if scan_interval info = 0 then Inr (None, s)
          else if scan_addr info \<noteq> addr then Inr (None, s)
          else (let s = stop_scan pf s;
                    create = Bt ''bt_le_per_adv_sync_create'' [addr, scan_sid info];
                    ret = bt_ret pf create s;
                    s = bt_do pf create s
                in if ret \<noteq> 0 then Inr (None, mgr_sync_exit pf addr False s)
                   else Inr (None, at_point (Receiving addr) s))
      | _ \<Rightarrow> Inl s)"

definition mgr_sync :: "mgr_platform \<Rightarrow> bt_addr \<Rightarrow> mgr_event option \<Rightarrow> mgr_system \<Rightarrow> mgr_next" where
  \<comment> \<open>the loop of \<open>mgr_sync\<close>\<close>
  "mgr_sync pf addr ev s =
     (if cancel_command s then Inr (ev, mgr_sync_exit pf addr True s)
      else case ev of
        Some (PerAdvSync SYNCED) \<Rightarrow> Inr (None, mgr_led led_sync_started pf s)
      | Some (PerAdvSync TERM_EVENT) \<Rightarrow> Inr (None, mgr_sync_exit pf addr True (mgr_led led_sync_terminated pf s))
      | Some (PerAdvSync (RECV captured junk ads)) \<Rightarrow>
          Inr (None, s\<lparr>mg_node := mgr_recv_adv (mg_rounding pf) (mg_rec pf) captured junk ads (mg_node s)\<rparr>)
      | _ \<Rightarrow> Inl s)"

definition mgr_scan_for_central :: "mgr_platform \<Rightarrow> mgr_event option \<Rightarrow> mgr_system \<Rightarrow> mgr_next" where
  \<comment> \<open>the loop of \<open>mgr_scan_for_central\<close> and, at its end, the creation of the connection in \<open>mgr_pair\<close>\<close>
  "mgr_scan_for_central pf ev s =
     (if cancel_command s then Inr (ev, mgr_pair_error pf None (stop_scan pf s))
      else case ev of
        Some (ScanRecv info) \<Rightarrow>
          if \<not> scan_connectable info then Inr (None, s)
          else if \<not> match_central_uuid (scan_data info) then Inr (None, s)
          else (let s = stop_scan pf s;
                    create = Bt ''bt_conn_le_create'' [scan_addr info];
                    reply = mg_env pf (mg_calls s) create;
                    conn = (if r_ret reply = 0 then Some (r_num reply) else None);
                    s = bt_do pf create s
                in if r_ret reply \<noteq> 0 \<and> r_ret reply \<noteq> - EALREADY then Inr (None, mgr_pair_error pf conn s)
                   else Inr (None, at_point (Connecting conn) s))
      | _ \<Rightarrow> Inl s)"

definition mgr_pair_connect :: "mgr_platform \<Rightarrow> int option \<Rightarrow> mgr_event option \<Rightarrow> mgr_system \<Rightarrow> mgr_next" where
  \<comment> \<open>waiting for the connection, then \<open>bt_conn_set_security\<close>\<close>
  "mgr_pair_connect pf conn ev s =
     (if cancel_command s then Inr (ev, mgr_pair_error pf conn s)
      else case ev of
        Some (Connected c err) \<Rightarrow>
          if Some c \<noteq> conn then Inr (None, s)
          else if err \<noteq> 0 then Inr (None, mgr_pair_error pf conn s)
          else (let ret = bt_ret pf (BtDo ''bt_conn_set_security'') s;
                    s = bt_do pf (BtDo ''bt_conn_set_security'') s
                in if ret \<noteq> 0 then Inr (None, mgr_pair_error pf conn s)
                   else Inr (None, at_point (Securing conn) s))
      | _ \<Rightarrow> Inl s)"

definition mgr_pair_auth :: "mgr_platform \<Rightarrow> int option \<Rightarrow> mgr_event option \<Rightarrow> mgr_system \<Rightarrow> mgr_next" where
  \<comment> \<open>waiting for the pairing, then the end of \<open>mgr_pair\<close>\<close>
  "mgr_pair_auth pf conn ev s =
     (if cancel_command s then Inr (ev, mgr_pair_error pf conn s)
      else case ev of
        Some (Auth c a) \<Rightarrow>
          if Some c \<noteq> conn then Inr (None, s)
          else (case a of
                  SECURITY_CHANGED err \<Rightarrow>
                    if err \<noteq> 0 then Inr (None, mgr_pair_error pf conn s)
                    else (let ret = bt_ret pf (BtDo ''bt_conn_get_info'') s;
                              s = bt_do pf (BtDo ''bt_conn_get_info'') s
                          in if ret \<noteq> 0 then Inr (None, mgr_pair_error pf conn s)
                             else Inr (None, at_point Loop_Head (bt_do pf (BtDo ''bt_conn_unref'') s)))
                | PAIRING_COMPLETE bonded \<Rightarrow> Inr (None, s)
                | PAIRING_FAILED reason \<Rightarrow> Inr (None, mgr_pair_error pf conn s))
      | _ \<Rightarrow> Inl s)"

definition mgr_go :: "mgr_platform \<Rightarrow> mgr_event option \<Rightarrow> mgr_system \<Rightarrow> mgr_next" where
  "mgr_go pf ev s =
     (case mg_at s of
        Not_Started \<Rightarrow> mgr_run_start pf ev s
      | Loop_Head \<Rightarrow> mgr_run_loop pf ev s
      | Idle_Yield \<Rightarrow> Inr (ev, at_point Loop_Head s)
      | Scan_For_Sync addr \<Rightarrow> mgr_scan_for_sync pf addr ev s
      | Receiving addr \<Rightarrow> mgr_sync pf addr ev s
      | Scan_For_Central \<Rightarrow> mgr_scan_for_central pf ev s
      | Connecting conn \<Rightarrow> mgr_pair_connect pf conn ev s
      | Securing conn \<Rightarrow> mgr_pair_auth pf conn ev s)"

primrec mgr_run :: "nat \<Rightarrow> mgr_platform \<Rightarrow> mgr_event option \<Rightarrow> mgr_system \<Rightarrow> mgr_system option" where
  \<comment> \<open>a call of \<open>run\<close>, up to the suspension: \<open>None\<close> when it goes on for \<open>n\<close> pieces\<close>
  "mgr_run 0 pf ev s = None"
| "mgr_run (Suc n) pf ev s =
     (case mgr_go pf ev s of Inl s' \<Rightarrow> Some s' | Inr (ev', s') \<Rightarrow> mgr_run n pf ev' s')"

definition mgr_callback :: "nat \<Rightarrow> mgr_platform \<Rightarrow> mgr_event \<Rightarrow> mgr_system \<Rightarrow> mgr_system option" where
  "mgr_callback n pf ev s = mgr_run n pf (Some ev) s"

definition mgr_init :: "nat \<Rightarrow> mgr_platform \<Rightarrow> mgr_system \<Rightarrow> mgr_system option" where
  "mgr_init n pf s = mgr_run n pf None s"

definition mgr_pair_start :: "nat \<Rightarrow> mgr_platform \<Rightarrow> mgr_system \<Rightarrow> mgr_system option" where
  "mgr_pair_start n pf s = mgr_run n pf None (s\<lparr>mg_pair := True, cancel_command := True\<rparr>)"

section \<open>What the coroutines hold\<close>

text \<open>
  The scanner, the syncs and the connections that the calls made so far leave in use, for code that uses them as it
  may: it starts the scanner when it is stopped, creates one sync or one connection at a time, when the scanner is
  stopped, and uses a sync or a connection while it has one. \<open>None\<close> is misuse.
\<close>

datatype bt_use = Nothing_Held | Scanner | Sync_Held | Conn_Held

definition use_step :: "bt_use option \<Rightarrow> ext_call \<times> reply \<Rightarrow> bt_use option" where
  "use_step u ev =
     (case fst ev of
        Bt f ns \<Rightarrow>
          if f = ''bt_le_scan_start''
          then if u = Some Nothing_Held then Some (if r_ret (snd ev) = 0 then Scanner else Nothing_Held) else None
          else if f = ''bt_le_scan_stop''
          then if u = Some Nothing_Held \<or> u = Some Scanner then Some Nothing_Held else None
          else if f = ''bt_le_per_adv_sync_create''
          then if u = Some Nothing_Held then Some (if r_ret (snd ev) = 0 then Sync_Held else Nothing_Held) else None
          else if f = ''bt_le_per_adv_sync_delete''
          then if u = Some Sync_Held then Some Nothing_Held else None
          else if f = ''bt_conn_le_create''
          then if u = Some Nothing_Held then Some (if r_ret (snd ev) = 0 then Conn_Held else Nothing_Held) else None
          else if f = ''bt_conn_unref''
          then if u = Some Conn_Held then Some Nothing_Held else None
          else if f = ''bt_conn_set_security'' \<or> f = ''bt_conn_get_info'' \<or> f = ''bt_conn_disconnect''
          then if u = Some Conn_Held then u else None
          else u
      | _ \<Rightarrow> u)"

definition bt_use :: "trace \<Rightarrow> bt_use option" where
  "bt_use = foldl use_step (Some Nothing_Held)"

lemma bt_use_simps [simp]: "bt_use [] = Some Nothing_Held" "bt_use (tr @ evs) = foldl use_step (bt_use tr) evs"
  by (simp_all add: bt_use_def)

definition use_at :: "mgr_point \<Rightarrow> bt_use" where
  "use_at p =
     (case p of Scan_For_Sync addr \<Rightarrow> Scanner | Scan_For_Central \<Rightarrow> Scanner | Receiving addr \<Rightarrow> Sync_Held
      | Connecting (Some c) \<Rightarrow> Conn_Held | Securing (Some c) \<Rightarrow> Conn_Held | _ \<Rightarrow> Nothing_Held)"

definition holds_used :: "mgr_system \<Rightarrow> bool" where
  "holds_used s \<longleftrightarrow> bt_use (mg_calls s) = Some (use_at (mg_at s)) \<and> mg_at s \<noteq> Securing None"

definition next_state :: "mgr_next \<Rightarrow> mgr_system" where
  "next_state r = (case r of Inl s \<Rightarrow> s | Inr (e, s) \<Rightarrow> s)"

lemma next_state_simps [simp]:
  "next_state (Inl s) = s" "next_state (Inr (e, s)) = s"
  "next_state (if b then r else r') = (if b then next_state r else next_state r')"
  by (simp_all add: next_state_def)

lemmas mgr_use_defs = holds_used_def use_step_def use_at_def at_point_def Let_def

lemma start_holds: "holds_used s \<Longrightarrow> mg_at s = Not_Started \<Longrightarrow> holds_used (next_state (mgr_run_start pf ev s))"
  by (auto simp: mgr_run_start_def mgr_use_defs)

lemma loop_holds: "holds_used s \<Longrightarrow> mg_at s = Loop_Head \<Longrightarrow> holds_used (next_state (mgr_run_loop pf ev s))"
  by (auto simp: mgr_run_loop_def mgr_pair_error_def stop_scan_def bt_ret_def mgr_use_defs split: option.splits)

lemma scan_sync_holds: "holds_used s \<Longrightarrow> mg_at s = Scan_For_Sync a \<Longrightarrow> holds_used (next_state (mgr_scan_for_sync pf a ev s))"
  by (auto simp: mgr_scan_for_sync_def stop_scan_def mgr_sync_exit_def bt_ret_def mgr_use_defs
      split: option.splits mgr_event.splits)

lemma sync_holds: "holds_used s \<Longrightarrow> mg_at s = Receiving a \<Longrightarrow> holds_used (next_state (mgr_sync pf a ev s))"
  by (auto simp: mgr_sync_def mgr_sync_exit_def mgr_led_def mgr_use_defs
      split: option.splits mgr_event.splits per_adv_event.splits)

lemma scan_central_holds: "holds_used s \<Longrightarrow> mg_at s = Scan_For_Central \<Longrightarrow> holds_used (next_state (mgr_scan_for_central pf ev s))"
  by (auto simp: mgr_scan_for_central_def stop_scan_def mgr_pair_error_def mgr_use_defs
      split: option.splits mgr_event.splits)

lemma connect_holds: "holds_used s \<Longrightarrow> mg_at s = Connecting c \<Longrightarrow> holds_used (next_state (mgr_pair_connect pf c ev s))"
  by (auto simp: mgr_pair_connect_def mgr_pair_error_def mgr_use_defs
      split: option.splits mgr_event.splits)

lemma auth_holds: "holds_used s \<Longrightarrow> mg_at s = Securing c \<Longrightarrow> holds_used (next_state (mgr_pair_auth pf c ev s))"
  by (auto simp: mgr_pair_auth_def mgr_pair_error_def mgr_use_defs
      split: option.splits mgr_event.splits auth_event.splits)

lemma mgr_go_holds:
  assumes "holds_used s"
  shows "holds_used (next_state (mgr_go pf ev s))"
proof (cases "mg_at s")
  case Idle_Yield
  with assms show ?thesis by (simp add: mgr_go_def mgr_use_defs)
qed (use assms start_holds loop_holds scan_sync_holds sync_holds scan_central_holds connect_holds auth_holds
     in \<open>fastforce simp: mgr_go_def\<close>)+

lemma mgr_run_holds: "holds_used s \<Longrightarrow> mgr_run n pf ev s = Some s' \<Longrightarrow> holds_used s'"
proof (induction n arbitrary: ev s)
  case 0
  then show ?case by simp
next
  case (Suc n)
  with mgr_go_holds [of s pf ev] show ?case by (auto simp: next_state_def split: sum.splits)
qed

text \<open>The states the module reaches, with the recorder, the clock and the host in between.\<close>

inductive mgr_reach :: "mgr_platform \<Rightarrow> mgr_system \<Rightarrow> bool" for pf where
  mgr_boot: "mg_at s = Not_Started \<Longrightarrow> mg_calls s = [] \<Longrightarrow> mgr_reach pf s"
| mgr_started: "mgr_reach pf s \<Longrightarrow> mgr_init n pf s = Some s' \<Longrightarrow> mgr_reach pf s'"
| mgr_told: "mgr_reach pf s \<Longrightarrow> mgr_pair_start n pf s = Some s' \<Longrightarrow> mgr_reach pf s'"
| mgr_called: "mgr_reach pf s \<Longrightarrow> mgr_callback n pf ev s = Some s' \<Longrightarrow> mgr_reach pf s'"
| mgr_other: "mgr_reach pf s \<Longrightarrow> mgr_reach pf (s\<lparr>mg_node := node\<rparr>)"

lemma mgr_reach_holds: "mgr_reach pf s \<Longrightarrow> holds_used s"
proof (induction rule: mgr_reach.induct)
  case (mgr_boot s)
  then show ?case by (simp add: holds_used_def use_at_def)
next
  case (mgr_started s n s')
  then show ?case using mgr_run_holds by (simp add: mgr_init_def)
next
  case (mgr_told s n s')
  then have "holds_used (s\<lparr>mg_pair := True, cancel_command := True\<rparr>)" by (simp add: holds_used_def)
  with mgr_told mgr_run_holds show ?case unfolding mgr_pair_start_def by blast
next
  case (mgr_called s n ev s')
  then show ?case using mgr_run_holds by (simp add: mgr_callback_def)
next
  case (mgr_other s node)
  then show ?case by (simp add: holds_used_def)
qed

section \<open>Whether a call returns\<close>

definition scans_start :: "mgr_platform \<Rightarrow> bool" where
  "scans_start pf \<longleftrightarrow> (\<forall>tr. r_ret (mg_env pf tr (BtDo ''bt_le_scan_start'')) = 0)"

text \<open>How many pieces are left: an event is used at most once, and without one every coroutine waits.\<close>

fun pieces_left :: "mgr_point \<Rightarrow> bool \<Rightarrow> bool \<Rightarrow> nat" where
  \<comment> \<open>the point, whether there is an event, whether it is cancelled\<close>
  "pieces_left Not_Started e c = 8"
| "pieces_left Loop_Head e c = (if e then 6 else 3)"
| "pieces_left Idle_Yield e c = 7"
| "pieces_left p e c = (if c then 7 else if e then 4 else 1)"

lemma mgr_go_fewer:
  assumes "scans_start pf" "mgr_go pf ev s = Inr (ev', s')"
  shows "pieces_left (mg_at s') (ev' \<noteq> None) (cancel_command s') < pieces_left (mg_at s) (ev \<noteq> None) (cancel_command s)"
proof -
  have scan: "r_ret (mg_env pf tr (BtDo ''bt_le_scan_start'')) = 0" for tr
    using assms(1) by (simp add: scans_start_def)
  show ?thesis
  proof (cases "mg_at s")
    case Not_Started
    then show ?thesis using assms(2)
      by (auto simp: mgr_go_def mgr_run_start_def Let_def at_point_def split: if_splits)
  next
    case Loop_Head
    then show ?thesis using assms(2)
      by (auto simp: mgr_go_def mgr_run_loop_def Let_def at_point_def bt_ret_def scan split: if_splits option.splits)
  next
    case Idle_Yield
    then show ?thesis using assms(2) by (auto simp: mgr_go_def at_point_def)
  next
    case (Scan_For_Sync a)
    then show ?thesis using assms(2)
      by (auto simp: mgr_go_def mgr_scan_for_sync_def stop_scan_def mgr_sync_exit_def Let_def at_point_def
          split: if_splits option.splits mgr_event.splits)
  next
    case (Receiving a)
    then show ?thesis using assms(2)
      by (auto simp: mgr_go_def mgr_sync_def mgr_sync_exit_def mgr_led_def Let_def at_point_def
          split: if_splits option.splits mgr_event.splits per_adv_event.splits)
  next
    case Scan_For_Central
    then show ?thesis using assms(2)
      by (auto simp: mgr_go_def mgr_scan_for_central_def stop_scan_def mgr_pair_error_def Let_def at_point_def
          split: if_splits option.splits mgr_event.splits)
  next
    case (Connecting c)
    then show ?thesis using assms(2)
      by (auto simp: mgr_go_def mgr_pair_connect_def mgr_pair_error_def Let_def at_point_def
          split: if_splits option.splits mgr_event.splits)
  next
    case (Securing c)
    then show ?thesis using assms(2)
      by (auto simp: mgr_go_def mgr_pair_auth_def mgr_pair_error_def Let_def at_point_def
          split: if_splits option.splits mgr_event.splits auth_event.splits)
  qed
qed

lemma mgr_run_enough:
  assumes "scans_start pf" "pieces_left (mg_at s) (ev \<noteq> None) (cancel_command s) \<le> n"
  shows "\<exists>s'. mgr_run n pf ev s = Some s'"
  using assms(2)
proof (induction n arbitrary: ev s)
  case 0
  then show ?case by (cases "mg_at s") (auto split: if_splits)
next
  case (Suc n)
  show ?case
  proof (cases "mgr_go pf ev s")
    case (Inl s')
    then show ?thesis by simp
  next
    case (Inr r)
    obtain ev' s' where r: "r = (ev', s')" by fastforce
    from mgr_go_fewer [OF assms(1)] Inr r Suc.prems Suc.IH [of s' ev'] show ?thesis by fastforce
  qed
qed

lemma mgr_run_spins:
  assumes "\<And>tr. r_ret (mg_env pf tr (BtDo ''bt_le_scan_start'')) \<noteq> 0" "\<And>tr. mg_bonds pf tr \<noteq> []"
    "mg_at s = Loop_Head"
  shows "mgr_run n pf ev s = None"
  using assms(3)
proof (induction n arbitrary: s)
  case 0
  then show ?case by simp
next
  case (Suc n)
  have "\<exists>s'. mgr_go pf ev s = Inr (ev, s') \<and> mg_at s' = Loop_Head"
    using Suc.prems assms(1,2)
    by (auto simp: mgr_go_def mgr_run_loop_def mgr_pair_error_def at_point_def bt_ret_def
        mgr_get_paired_address_def Let_def)
  with Suc.IH show ?case by auto
qed

lemma pieces_bound: "pieces_left p e c \<le> 8"
  by (cases p) auto

lemma mgr_pair_start_scans:
  assumes "scans_start pf" "mg_at s \<noteq> Not_Started"
  shows "\<exists>s'. mgr_pair_start 8 pf s = Some s' \<and> mg_at s' = Scan_For_Central"
proof -
  have scan: "r_ret (mg_env pf tr (BtDo ''bt_le_scan_start'')) = 0" for tr
    using assms(1) by (simp add: scans_start_def)
  have head: "\<exists>s'. mgr_run 7 pf None t = Some s' \<and> mg_at s' = Scan_For_Central"
    if "mg_at t = Loop_Head" "mg_pair t" for t
    using that scan
    by (simp add: eval_nat_numeral mgr_go_def mgr_run_loop_def mgr_scan_for_central_def at_point_def bt_ret_def Let_def)
  let ?s = "s\<lparr>mg_pair := True, cancel_command := True\<rparr>"
  show ?thesis
  proof (cases "mg_at s = Loop_Head")
    case True
    then show ?thesis using scan
      by (simp add: mgr_pair_start_def eval_nat_numeral mgr_go_def mgr_run_loop_def mgr_scan_for_central_def at_point_def
          bt_ret_def Let_def)
  next
    case False
    then have "\<exists>t. mgr_go pf None ?s = Inr (None, t) \<and> mg_at t = Loop_Head \<and> mg_pair t"
      using assms(2)
      by (cases "mg_at s") (auto simp: mgr_go_def mgr_scan_for_sync_def mgr_sync_def mgr_scan_for_central_def
          mgr_pair_connect_def mgr_pair_auth_def mgr_pair_error_def mgr_sync_exit_def stop_scan_def at_point_def Let_def
          split: option.split)
    then obtain t where "mgr_go pf None ?s = Inr (None, t)" "mg_at t = Loop_Head" "mg_pair t" by blast
    moreover have "mgr_run 8 pf None ?s = (case mgr_go pf None ?s of Inl s' \<Rightarrow> Some s' | Inr (ev', s') \<Rightarrow> mgr_run 7 pf ev' s')"
      using mgr_run.simps(2) [of 7 pf None ?s] by simp
    ultimately show ?thesis using head by (simp add: mgr_pair_start_def)
  qed
qed

section \<open>The properties\<close>


text \<open>A host with one bonded device.\<close>

definition bonded_host :: mgr_platform where
  "bonded_host = \<lparr>mg_env = quiet_env, mg_bonds = (\<lambda>tr. [7]), mg_rounding = id, mg_rec = no_space_platform\<rparr>"

definition mgr_before :: mgr_system where
  "mgr_before = \<lparr>mg_node = booted_node, mg_at = Not_Started, mg_pair = False, cancel_command = False, mg_calls = []\<rparr>"


text \<open>
  Property C40. As long as the scanner can be started, every call of the coroutine returns, after at most eight pieces of
  code, from whatever point and with whatever event; and a request to pair, made at any time after the start, cancels what
  the module waits for and leaves it scanning for a central node. Without that hypothesis a call may not return at
  all: with a bonded device and a scanner that cannot be started, the loop of \<open>mgr_run\<close> never suspends.
\<close>

theorem mgr_answers:
  assumes "scans_start pf"
  shows "(\<exists>s'. mgr_run 8 pf ev s = Some s') \<and>
    (mg_at s = Not_Started \<or> (\<exists>s'. mgr_pair_start 8 pf s = Some s' \<and> mg_at s' = Scan_For_Central)) \<and>
    (\<forall>pf' n. (\<forall>tr. r_ret (mg_env pf' tr (BtDo ''bt_le_scan_start'')) \<noteq> 0) \<and> (\<forall>tr. mg_bonds pf' tr \<noteq> []) \<longrightarrow>
       mgr_run n pf' ev (s\<lparr>mg_at := Loop_Head\<rparr>) = None)"
  using mgr_run_enough [OF assms pieces_bound] mgr_pair_start_scans [OF assms] mgr_run_spins by auto

theorem mgr_answers_witness:
  "\<exists>s'. mgr_pair_start 8 bonded_host (mgr_before\<lparr>mg_at := Receiving 7\<rparr>) = Some s' \<and> mg_at s' = Scan_For_Central"
proof -
  have "scans_start bonded_host" by (simp add: scans_start_def bonded_host_def)
  from mgr_answers [OF this, of _ "mgr_before\<lparr>mg_at := Receiving 7\<rparr>"] show ?thesis by simp
qed

end
