(* ===== verification/Services.thy ===== *)
theory Services
  imports Lftpd
begin

text \<open>
  The small parts of an audio node: the boot sequence (\<^verbatim>\<open>firmware/audio/app/src/main.c\<close>, \<^verbatim>\<open>audio/net/src/main.c\<close>), the USB console
  (\<^verbatim>\<open>common/src/usb.c\<close>), the WiFi chip (\<^verbatim>\<open>common/src/wifi.c\<close>), and the network services (\<^verbatim>\<open>ftp.c\<close>, \<^verbatim>\<open>net_audio.c\<close>). Each keeps at most a flag, so most of them run in the monad of
  traces, with the flag as argument.
\<close>

section \<open>USB and WiFi\<close>

definition usb_enable_shell :: "env \<Rightarrow> (trace, int) state" where
  "usb_enable_shell env =
     do { ready \<leftarrow> ext_ret env (DeviceReady ''cdc_acm_uart0'');
          if ready = 0 then return (- ENODEV)
          else do {
            ret \<leftarrow> ext_ret env (SysCall ''shell_init'' []);
            return (if ret < 0 then ret else 0) } }"

definition usb_init :: "env \<Rightarrow> bool \<Rightarrow> (trace, int \<times> bool) state" where
  \<comment> \<open>the flag \<open>init\<close>; result and flag\<close>
  "usb_init env ready =
     (if ready then return (- EALREADY, ready)
      else do {
        ret \<leftarrow> seq_neg
          [ext_ret env (SysCall ''usbd_add_descriptor usb_lang'' []),
           ext_ret env (SysCall ''usbd_add_descriptor usb_mfr'' []),
           ext_ret env (SysCall ''usbd_add_descriptor usb_product'' []),
           ext_ret env (SysCall ''usbd_add_descriptor usb_sn'' []),
           ext_ret env (SysCall ''usbd_add_configuration'' []),
           do { ret \<leftarrow> ext_ret env (SysCall ''usbd_register_all_classes'' []);
                if ret \<noteq> 0 then return ret
                else do {
                  _ \<leftarrow> ext env (SysCall ''usbd_device_set_code_triple'' [2, 1]);
                  ret \<leftarrow> seq_nz [ext_ret env (SysCall ''usbd_init'' []), ext_ret env (SysCall ''usbd_enable'' [])];
                  if ret \<noteq> 0 then return ret else usb_enable_shell env } }];
        return (if ret \<noteq> 0 then (ret, ready) else (0, True)) })"

definition wifi_power_off :: "env \<Rightarrow> (trace, int) state" where
  "wifi_power_off env =
     do { iovdd \<leftarrow> ext_ret env (DeviceReady ''iovdd_ctrl_gpio'');
          if iovdd = 0 then return (- ENODEV)
          else do {
            bucken \<leftarrow> ext_ret env (DeviceReady ''bucken_gpio'');
            if bucken = 0 then return (- ENODEV)
            else seq_nz [ext_ret env (GpioConfigure ''iovdd_ctrl_gpio'' ''output inactive''),
                   ext_ret env (GpioConfigure ''bucken_gpio'' ''output inactive'')] } }"

section \<open>FTP server\<close>

definition FTP_MAX_CONN :: nat where "FTP_MAX_CONN = 3"

primrec ftp_start_conns :: "nat \<Rightarrow> env \<Rightarrow> (trace, unit) state" where
  \<comment> \<open>the last \<open>n\<close> of the threads\<close>
  "ftp_start_conns 0 env = return ()"
| "ftp_start_conns (Suc n) env = do { _ \<leftarrow> ext env (ThreadCreate ''lftpd conn''); ftp_start_conns n env }"

definition ftp_init :: "env \<Rightarrow> lftpd option \<Rightarrow> trace \<Rightarrow> ((int \<times> lftpd option) \<times> trace) option" where
  \<comment> \<open>the server once it is initialised\<close>
  "ftp_init env f tr =
     (case f of
        Some l \<Rightarrow> Some ((- EALREADY, f), tr)
      | None \<Rightarrow>
          do { ((ret, l), tr) \<leftarrow> lftpd_init env ''/'' 21 tr;
               Some (if ret < 0 then ((ret, None), tr)
                     else ((0, Some l), snd (run_state
                       (do { _ \<leftarrow> ext env (ThreadCreate ''lftpd server''); ftp_start_conns FTP_MAX_CONN env }) tr))) })"

section \<open>Audio over the network\<close>

record net_audio =
  na_socket :: int
  na_ready :: bool
  na_mtu :: u16

definition net_audio_init :: "env \<Rightarrow> net_audio \<Rightarrow> (trace, int \<times> net_audio) state" where
  \<comment> \<open>\<open>errno\<close> is \<open>r_num\<close>\<close>
  "net_audio_init env n =
     (if na_ready n then return (- EALREADY, n)
      else do {
        iface \<leftarrow> ext_ret env (SysCall ''net_if_get_default'' []);
        if iface = 0 then return (0, n)
        else do {
          _ \<leftarrow> ext env (SysCall ''net_if_ipv6_get_ll'' []);
          r \<leftarrow> ext env (SysCall ''zsock_inet_pton'' []);
          if r_ret r = 0 then return (- EINVAL, n)
          else if r_ret r < 0 then return (- r_num r, n)
          else do {
            r \<leftarrow> ext env SockSocket;
            let n = n\<lparr>na_socket := r_ret r\<rparr>;
            if r_ret r < 0 then return (- r_num r, n)
            else do {
              r \<leftarrow> ext env (SysCall ''zsock_connect'' []);
              if r_ret r < 0 then return (- r_num r, n)
              else do {
                mtu \<leftarrow> ext_ret env (SysCall ''net_if_get_mtu'' []);
                return (0, n\<lparr>na_mtu := word_of_int (mtu - 48), na_ready := True\<rparr>) } } } } })"

primrec net_audio_loop :: "nat \<Rightarrow> env \<Rightarrow> net_audio \<Rightarrow> string \<Rightarrow> trace \<Rightarrow> trace option" where
  \<comment> \<open>\<open>None\<close> when \<open>turns\<close> packets are not enough; the result of a send is ignored\<close>
  "net_audio_loop 0 env n block tr = (if block = [] then Some tr else None)"
| "net_audio_loop (Suc turns) env n block tr =
     (if block = [] then Some tr
      else let pkt_len = min (unat (na_mtu n)) (length block);
               c = SockSend (na_socket n) (take pkt_len block)
           in net_audio_loop turns env n (drop pkt_len block) (tr @ [(c, env tr c)]))"

definition net_audio_send :: "nat \<Rightarrow> env \<Rightarrow> net_audio \<Rightarrow> string \<Rightarrow> trace \<Rightarrow> (int \<times> trace) option" where
  "net_audio_send turns env n block tr =
     (if \<not> na_ready n then Some (- EINVAL, tr)
      else map_option (\<lambda>tr. (0, tr)) (net_audio_loop turns env n block tr))"

definition packets_sent :: "trace \<Rightarrow> string list" where
  "packets_sent tr = List.map_filter (\<lambda>ev. case fst ev of SockSend s p \<Rightarrow> Some p | _ \<Rightarrow> None) tr"

text \<open>A block is sent whole, in packets of at most the size of the link; with no room in a packet the loop never ends.\<close>

lemma net_audio_loop_sends:
  assumes "0 < unat (na_mtu n)" "length block \<le> turns"
  shows "\<exists>evs. net_audio_loop turns env n block tr = Some (tr @ evs) \<and> concat (packets_sent evs) = block \<and>
    (\<forall>p\<in>set (packets_sent evs). p \<noteq> [] \<and> length p \<le> unat (na_mtu n))"
  using assms(2)
proof (induction turns arbitrary: block tr)
  case 0
  then show ?case by (simp add: packets_sent_def List.map_filter_def)
next
  case (Suc turns)
  show ?case
  proof (cases "block = []")
    case True
    then show ?thesis by (simp add: packets_sent_def List.map_filter_def)
  next
    case False
    let ?k = "min (unat (na_mtu n)) (length block)"
    let ?ev = "(SockSend (na_socket n) (take ?k block), env tr (SockSend (na_socket n) (take ?k block)))"
    have "length (drop ?k block) \<le> turns" using Suc.prems False assms(1) by (cases block) auto
    from Suc.IH [OF this, of "tr @ [?ev]"] obtain evs where evs:
      "net_audio_loop turns env n (drop ?k block) (tr @ [?ev]) = Some ((tr @ [?ev]) @ evs)"
      "concat (packets_sent evs) = drop ?k block"
      "\<forall>p\<in>set (packets_sent evs). p \<noteq> [] \<and> length p \<le> unat (na_mtu n)" by blast
    have "packets_sent (?ev # evs) = take ?k block # packets_sent evs"
      by (simp add: packets_sent_def List.map_filter_def)
    with evs False assms(1) show ?thesis
      by (intro exI [of _ "?ev # evs"]) (auto simp: Let_def)
  qed
qed

lemma net_audio_loop_spins: "na_mtu n = 0 \<Longrightarrow> block \<noteq> [] \<Longrightarrow> net_audio_loop turns env n block tr = None"
  by (induction turns arbitrary: tr) (simp_all add: Let_def)

section \<open>Boot\<close>

definition audio_main :: "env \<Rightarrow> bool \<Rightarrow> (trace, int) state" where
  \<comment> \<open>is it an nRF53? The initialisation functions of the other modules are calls, their results are ignored\<close>
  "audio_main env nrf53 =
     do { _ \<leftarrow> ext env (SysCall ''power_init'' []);
          _ \<leftarrow> (if nrf53 then do { _ \<leftarrow> ext env (Nrf ''nrfx_clock_divider_set HFCLK_DIV_1''); return () } else return ());
          _ \<leftarrow> ext env (SysCall ''led_boot'' []);
          ret \<leftarrow> ext_ret env (Bt ''bt_enable'' []);
          if ret < 0 then return 0
          else do {
            _ \<leftarrow> ext env (SettingsLoad []);
            _ \<leftarrow> ext env (SysCall ''usb_init'' []);
            _ \<leftarrow> ext env (SysCall ''sd_card_init'' []);
            _ \<leftarrow> ext env (SysCall ''sync_timer_init'' []);
            _ \<leftarrow> ext env (SysCall ''record_init'' []);
            _ \<leftarrow> ext env (SysCall ''audio_init'' []);
            _ \<leftarrow> ext env (SysCall ''mgr_init'' []);
            return 0 } }"

section \<open>The network core of an audio node\<close>

definition audio_packet_timer_init :: "env \<Rightarrow> (trace, int) state" where
  "audio_packet_timer_init env = do { _ \<leftarrow> ext env (Nrf ''nrf_ipc_subscribe_set''); return 0 }"

definition audio_net_main :: "env \<Rightarrow> (trace, int) state" where
  "audio_net_main env = seq_nz [audio_packet_timer_init env, ext_ret env (SysCall ''hci_ipc_init'' [])]"

end
