(* ===== verification/Shell.thy ===== *)
theory Shell
  imports Audio Mgr_Run Adc
begin

text \<open>
  The commands of the shell: \<^verbatim>\<open>firmware/audio/app/src/shell.c\<close> for an audio node and \<^verbatim>\<open>firmware/common/src/shell.c\<close> for both. What
  is printed is a result; error messages are left out. Floats are reals with a rounding function. \<open>strtof\<close> of the C library
  is a parameter: the number (\<open>None\<close> for an infinity or a NaN), the rest of the string, and whether it sets \<open>errno\<close>.
\<close>

section \<open>Whole numbers\<close>

definition strtoul_overflows :: "string \<Rightarrow> bool" where
  \<comment> \<open>\<open>strtoul\<close> sets \<open>errno\<close> to \<open>ERANGE\<close>\<close>
  "strtoul_overflows s =
     (let t = dropWhile isspace s;
          t = (case t of c # u \<Rightarrow> if c = CHR ''-'' \<or> c = CHR ''+'' then u else t | [] \<Rightarrow> [])
      in 2 ^ 32 \<le> digits_value (takeWhile isdigit t))"

definition parse_uint32 :: "string \<Rightarrow> u32 option" where
  \<comment> \<open>\<open>None\<close> for an error\<close>
  "parse_uint32 str =
     (case strtoul str of
        (u, endptr) \<Rightarrow>
          if endptr = str then None
          else if strtoul_overflows str then None
          else if endptr \<noteq> [] then None
          else Some u)"

lemma decimal_head: "decimal n \<noteq> []" "list_all isdigit (decimal n)"
  using decimal_digits [of n] by auto

text \<open>Every number of 32 bits is read back from its decimal digits; a sign is accepted and wraps.\<close>

lemma parse_uint32_decimal: "parse_uint32 (decimal (unat n)) = Some n"
proof -
  obtain d ds where d: "decimal (unat n) = d # ds" using decimal_head(1) by (cases "decimal (unat n)") auto
  then have digits: "isdigit d" "list_all isdigit ds" using decimal_head(2) [of "unat n"] by auto
  then have plain: "\<not> isspace d" "d \<noteq> CHR ''-''" "d \<noteq> CHR ''+''" by (auto simp: isspace_def isdigit_def)
  have all: "takeWhile isdigit ds = ds" "dropWhile isdigit ds = []"
    using digits(2) by (auto simp: list_all_iff takeWhile_eq_all_conv dropWhile_eq_Nil_conv)
  have "digits_value (d # ds) = unat n" using decimal_value [of "unat n"] d by simp
  moreover from this have "digits_value (d # ds) < 2 ^ 32" using unat_u32_less [of n] by simp
  ultimately show ?thesis
    using digits(1) plain all
    by (simp add: parse_uint32_def strtoul_def strtoul_overflows_def d Let_def del: takeWhile_eq_all_conv dropWhile_eq_Nil_conv)
qed

lemma parse_uint32_negative: "parse_uint32 ''-5'' = Some (- 5)"
  by (simp add: parse_uint32_def strtoul_def strtoul_overflows_def isspace_def isdigit_def digits_value_def Let_def)

definition audio_cmd_pair :: "nat \<Rightarrow> mgr_platform \<Rightarrow> mgr_system \<Rightarrow> mgr_system option" where
  "audio_cmd_pair n pf s = mgr_pair_start n pf s"

definition cmd_prefix :: "nat \<Rightarrow> env \<Rightarrow> string \<Rightarrow> int option recorder" where
  "cmd_prefix n env arg = record_set_file_name_prefix n env arg"

definition cmd_impedance :: "audio_platform \<Rightarrow> string \<Rightarrow> string \<Rightarrow> int audio" where
  "cmd_impedance pf channel_str impedance_str =
     (case audio_channel_from_string channel_str of
        None \<Rightarrow> return (- 1)
      | Some channel \<Rightarrow>
          (case parse_uint32 impedance_str of
             None \<Rightarrow> return (- EINVAL)
           | Some impedance_ohms \<Rightarrow>
               if impedance_ohms \<in> {2500, 10000, 20000}
               then audio_set_impedance pf channel impedance_ohms
               else return (- EINVAL)))"

section \<open>Gains\<close>

record strtof_result =
  sf_value :: "real option"
  sf_rest :: string
  sf_range :: bool

definition parse_float :: "(string \<Rightarrow> strtof_result) \<Rightarrow> string \<Rightarrow> int + real option" where
  "parse_float strtof str =
     (let r = strtof str
      in if sf_rest r = str then Inl (- EINVAL)
         else if sf_range r then Inl (- ERANGE)
         else if sf_rest r \<noteq> [] then Inl (- EINVAL)
         else Inr (sf_value r))"

definition roundf :: "real \<Rightarrow> int" where
  \<comment> \<open>halves away from zero\<close>
  "roundf x = (if x < 0 then - \<lfloor>1 / 2 - x\<rfloor> else \<lfloor>x + 1 / 2\<rfloor>)"

definition half_decibels :: "rounding \<Rightarrow> real option \<Rightarrow> u32 option" where
  \<comment> \<open>\<open>(int32_t)roundf(gain * 2)\<close>; \<open>None\<close>: not in the range of the type, where the conversion is undefined\<close>
  "half_decibels fl gain =
     (case gain of
        None \<Rightarrow> None
      | Some g \<Rightarrow> let n = roundf (fl (g * 2)) in if - (2 ^ 31) \<le> n \<and> n < 2 ^ 31 then Some (word_of_int n) else None)"

definition cmd_gain ::
  "(audio_channel \<Rightarrow> u32 \<Rightarrow> int audio) \<Rightarrow> rounding \<Rightarrow> (string \<Rightarrow> strtof_result) \<Rightarrow> string \<Rightarrow> string \<Rightarrow> int option audio" where
  \<comment> \<open>the body of the two commands\<close>
  "cmd_gain set_gain fl strtof channel_str gain_str =
     (case audio_channel_from_string channel_str of
        None \<Rightarrow> return (Some (- 1))
      | Some channel \<Rightarrow>
          (case parse_float strtof gain_str of
             Inl ret \<Rightarrow> return (Some ret)
           | Inr gain \<Rightarrow>
               (case half_decibels fl gain of
                  None \<Rightarrow> return None
                | Some n \<Rightarrow> do { ret \<leftarrow> set_gain channel n; return (Some ret) })))"

definition cmd_analog_gain ::
  "audio_platform \<Rightarrow> (string \<Rightarrow> strtof_result) \<Rightarrow> string \<Rightarrow> string \<Rightarrow> int option audio" where
  "cmd_analog_gain pf strtof = cmd_gain (audio_set_analog_gain pf) (au_fl pf) strtof"

definition cmd_digital_gain ::
  "audio_platform \<Rightarrow> (string \<Rightarrow> strtof_result) \<Rightarrow> string \<Rightarrow> string \<Rightarrow> int option audio" where
  "cmd_digital_gain pf strtof = cmd_gain (audio_set_digital_gain pf) (au_fl pf) strtof"

text \<open>A gain is set to the nearest half decibel; a number too large for it is converted without a check.\<close>

lemma roundf_nearest: "\<bar>real_of_int (roundf x) - x\<bar> \<le> 1 / 2"
  using floor_correct [of "1 / 2 - x"] floor_correct [of "x + 1 / 2"] unfolding roundf_def
  by (simp only: abs_le_iff split: if_splits) linarith

lemma half_decibels_nearest:
  assumes "half_decibels id (Some g) = Some n"
  shows "\<bar>real_of_int (sint n) / 2 - g\<bar> \<le> 1 / 4"
proof -
  have n: "n = word_of_int (roundf (g * 2))" and r: "- (2 ^ 31) \<le> roundf (g * 2)" "roundf (g * 2) < 2 ^ 31"
    using assms by (auto simp: half_decibels_def Let_def split: if_splits)
  have "sint n = roundf (g * 2)"
    unfolding n using r by (simp add: signed_of_int signed_take_bit_int_eq_self)
  with roundf_nearest [of "g * 2"] show ?thesis by (simp only: abs_le_iff) linarith
qed

lemma half_decibels_undefined: "1073741824 \<le> g \<Longrightarrow> half_decibels id (Some g) = None"
proof -
  assume "1073741824 \<le> g"
  then have "2147483648 \<le> roundf (g * 2)" by (simp add: roundf_def le_floor_iff)
  then show "half_decibels id (Some g) = None" by (simp add: half_decibels_def)
qed

section \<open>Commands that print\<close>

datatype shell_line =
    Shell_Text string string         \<comment> \<open>label, text\<close>
  | Shell_Quotient string int int    \<comment> \<open>label, dividend and divisor of the number printed\<close>

definition print_quotient ::
  "string \<Rightarrow> int \<Rightarrow> (int + int) audio \<Rightarrow> (int \<times> shell_line list) audio \<Rightarrow> (int \<times> shell_line list) audio" where
  \<comment> \<open>\<open>ret = get; if (ret) return ret; shell_print(...)\<close>\<close>
  "print_quotient label d get rest =
     do { r \<leftarrow> get;
          case r of
            Inl e \<Rightarrow> return (e, [])
          | Inr v \<Rightarrow> do { (ret, out) \<leftarrow> rest; return (ret, Shell_Quotient label v d # out) } }"

definition channel_status :: "audio_platform \<Rightarrow> audio_channel \<Rightarrow> (int \<times> shell_line list) audio" where
  "channel_status pf channel =
     print_quotient ''Analog gain'' 2 (audio_get_analog_gain pf channel)
       (print_quotient ''Digital gain'' 2 (audio_get_digital_gain pf channel)
         (print_quotient ''Impedance'' 1000 (audio_get_impedance pf channel) (return (0, []))))"

definition file_prefix_line :: "shell_line audio" where
  "file_prefix_line =
     State (\<lambda>s. (Shell_Text ''File Prefix''
       (case fst (run_state (record_get_file_name_prefix RECORD_FILE_NAME_PREFIX_LEN) (node_rec (audio_node s))) of
          Inl e \<Rightarrow> ''<error>'' | Inr prefix \<Rightarrow> prefix), s))"

definition cmd_status :: "audio_platform \<Rightarrow> (int \<times> shell_line list) audio" where
  "cmd_status pf =
     do { prefix \<leftarrow> file_prefix_line;
          (ret, left) \<leftarrow> channel_status pf AUDIO_CHANNEL_FRONT_LEFT;
          if ret \<noteq> 0 then return (ret, [prefix, Shell_Text ''Left'' ''''] @ left)
          else do {
            (ret, right) \<leftarrow> channel_status pf AUDIO_CHANNEL_FRONT_RIGHT;
            return (ret, [prefix, Shell_Text ''Left'' ''''] @ left @ [Shell_Text ''Right'' ''''] @ right) } }"

section \<open>The battery\<close>

definition pad0 :: "nat \<Rightarrow> string \<Rightarrow> string" where
  \<comment> \<open>\<open>%0<width>u\<close>\<close>
  "pad0 width ds = replicate (width - length ds) (CHR ''0'') @ ds"

definition sensor_value_decimals :: "nat \<Rightarrow> sensor_value \<Rightarrow> u32" where
  \<comment> \<open>the second of \<open>PRIsensor_value_args\<close>, for a fraction that is not negative\<close>
  "sensor_value_decimals decimals v = DIV_ROUND_CLOSEST (word_of_int (val2 v)) (10 ^ (6 - decimals))"

definition sensor_value_text :: "nat \<Rightarrow> sensor_value \<Rightarrow> string" where
  "sensor_value_text decimals v =
     decimal (unat (word_of_int (val1 v) :: u32)) @ ''.'' @ pad0 decimals (decimal (unat (sensor_value_decimals decimals v)))"

definition battery_lines ::
  "sensor_value \<Rightarrow> sensor_value \<Rightarrow> sensor_value \<Rightarrow> sensor_value \<Rightarrow> sensor_value \<Rightarrow> string list" where
  "battery_lines v_vin v_iin v_pmid v_vbat v_ichg =
     [''Input voltage:   '' @ sensor_value_text 3 v_vin @ '' V'', ''Input current:   '' @ sensor_value_text 4 v_iin @ '' A'',
      ''System voltage:  '' @ sensor_value_text 3 v_pmid @ '' V'', ''Battery voltage: '' @ sensor_value_text 3 v_vbat @ '' V'',
      ''Charge rate:     '' @ sensor_value_text 2 v_ichg @ ''%'']"

definition cmd_battery :: "env \<Rightarrow> bq2515x_adc_config \<Rightarrow> (bq2515x_adc_data, int \<times> string list) state" where
  "cmd_battery env cfg =
     do { ret \<leftarrow> bq2515x_adc_sample_fetch env cfg;
          if ret \<noteq> 0 then return (ret, [])
          else do {
            data \<leftarrow> adc_get;
            return
              (case bq2515x_adc_channel_get SENSOR_CHAN_BQ2515X_ADC_VIN data of Inl e \<Rightarrow> (e, []) | Inr v_vin \<Rightarrow>
               case bq2515x_adc_channel_get SENSOR_CHAN_BQ2515X_ADC_PMID data of Inl e \<Rightarrow> (e, []) | Inr v_pmid \<Rightarrow>
               case bq2515x_adc_channel_get SENSOR_CHAN_GAUGE_VOLTAGE data of Inl e \<Rightarrow> (e, []) | Inr v_vbat \<Rightarrow>
               case bq2515x_adc_channel_get SENSOR_CHAN_BQ2515X_ADC_IIN data of Inl e \<Rightarrow> (e, []) | Inr v_iin \<Rightarrow>
               case bq2515x_adc_channel_get SENSOR_CHAN_BQ2515X_ADC_ICHG data of Inl e \<Rightarrow> (e, []) | Inr v_ichg \<Rightarrow>
                 (0, battery_lines v_vin v_iin v_pmid v_vbat v_ichg)) } }"

text \<open>
  The text of a value is the value rounded to the decimals, unless the decimals round up to a whole: the carry is lost, and a
  digit more is printed.
\<close>

lemma length_decimal: "n < 10 ^ d \<Longrightarrow> 0 < d \<Longrightarrow> length (decimal n) \<le> d"
proof (induction d arbitrary: n)
  case (Suc d)
  show ?case
  proof (cases "n < 10")
    case True
    then show ?thesis by (subst decimal.simps) simp
  next
    case False
    then have "n div 10 < 10 ^ d" "0 < d" using Suc.prems by (auto intro: Nat.gr0I)
    from Suc.IH [OF this] False show ?thesis by (subst decimal.simps) simp
  qed
qed simp

lemma pad0_value: "digits_value (pad0 w (decimal n)) = n"
proof -
  have "digits_value (replicate k (CHR ''0'')) = 0" for k
    by (induction k) (simp_all add: digits_value_def)
  then show ?thesis by (simp add: pad0_def digits_value_app decimal_value)
qed

lemma sensor_value_text_rounds:
  assumes "0 \<le> val1 v" "val1 v < 2 ^ 32" "0 < k" "unat (sensor_value_decimals k v) < 10 ^ k"
  shows "\<exists>whole frac. sensor_value_text k v = whole @ ''.'' @ frac \<and> length frac = k \<and>
    digits_value whole = nat (val1 v) \<and> digits_value frac = unat (sensor_value_decimals k v)"
proof -
  have "unat (word_of_int (val1 v) :: u32) = nat (val1 v)"
    using assms(1,2) by (simp add: unsigned_of_int take_bit_int_eq_self)
  moreover have "length (pad0 k (decimal (unat (sensor_value_decimals k v)))) = k"
    using length_decimal [OF assms(4,3)] by (simp add: pad0_def)
  ultimately show ?thesis
    unfolding sensor_value_text_def by (intro exI conjI) (auto simp: decimal_value pad0_value)
qed

lemma sensor_value_text_carry: "sensor_value_text 3 \<lparr>val1 = 3, val2 = 999600\<rparr> = ''3.1000''"
  by (simp add: sensor_value_text_def sensor_value_decimals_def DIV_ROUND_CLOSEST_def pad0_def decimal.simps char_of_def bit_simps)

end
