(* ===== verification/Simulator.thy ===== *)
theory Simulator
  imports Codec Freq_Est
begin

text \<open>
  The drivers with which a node runs on a host (\<^verbatim>\<open>firmware/audio/app/src/drivers\<close>): \<^verbatim>\<open>i2s_alsa.c\<close> records from the sound card,
  \<^verbatim>\<open>i2s_tone.c\<close> generates a tone, \<^verbatim>\<open>dummy_codec.c\<close> accepts everything. The calls of ALSA and of the memory slab are events. A host
  has 32-bit \<open>unsigned long\<close> and \<open>size_t\<close>, as in the builds for the simulated board. Floats are reals with a rounding
  function, as in \<^verbatim>\<open>Freq_Est\<close>. \<open>None\<close> is a division by zero, an access through a null pointer, an undefined shift, or that the turns of a
  loop are used up.
\<close>

section \<open>Configuration of a stream\<close>

datatype i2s_dir = I2S_DIR_RX | I2S_DIR_TX | I2S_DIR_BOTH | I2S_DIR_OTHER

datatype i2s_state = I2S_STATE_NOT_READY | I2S_STATE_READY | I2S_STATE_RUNNING | I2S_STATE_STOPPING | I2S_STATE_ERROR

datatype i2s_trigger_cmd = I2S_TRIGGER_START | I2S_TRIGGER_OTHER

record i2s_stream =
  st_word_size :: u8
  st_channels :: u8
  st_frame_clk_freq :: u32
  st_mem_slab :: "nat option"        \<comment> \<open>\<open>None\<close> is a null pointer\<close>
  st_block_size :: u32

definition i2s_stream_zero :: i2s_stream where
  "i2s_stream_zero = \<lparr>st_word_size = 0, st_channels = 0, st_frame_clk_freq = 0, st_mem_slab = None, st_block_size = 0\<rparr>"

definition slab_alloc :: ext_call where
  \<comment> \<open>\<open>k_mem_slab_alloc\<close> without waiting: \<open>r_size\<close> is the block, \<open>r_byte\<close> its contents\<close>
  "slab_alloc = SysCall ''k_mem_slab_alloc'' []"

section \<open>Recording from the sound card\<close>

record i2s_alsa_data =
  al_handle :: "nat option"
  al_dir :: i2s_dir
  al_cfg :: i2s_stream
  al_state :: i2s_state
  al_calls :: trace

definition i2s_alsa_data_init :: i2s_alsa_data where
  "i2s_alsa_data_init = \<lparr>al_handle = None, al_dir = I2S_DIR_RX, al_cfg = i2s_stream_zero,
     al_state = I2S_STATE_NOT_READY, al_calls = []\<rparr>"

definition al_do :: "env \<Rightarrow> ext_call \<Rightarrow> i2s_alsa_data \<Rightarrow> reply \<times> i2s_alsa_data" where
  "al_do env c s = (let r = env (al_calls s) c in (r, s\<lparr>al_calls := al_calls s @ [(c, r)]\<rparr>))"

definition i2s_initialize :: int where "i2s_initialize = 0"

definition alsa_stream :: "i2s_dir \<Rightarrow> int + nat" where
  \<comment> \<open>\<open>SND_PCM_STREAM_PLAYBACK\<close> is 0, \<open>SND_PCM_STREAM_CAPTURE\<close> 1\<close>
  "alsa_stream dir =
     (case dir of I2S_DIR_RX \<Rightarrow> Inr 1 | I2S_DIR_TX \<Rightarrow> Inr 0 | I2S_DIR_BOTH \<Rightarrow> Inl (- 88) | I2S_DIR_OTHER \<Rightarrow> Inl (- EINVAL))"

definition alsa_format :: "u8 \<Rightarrow> nat option" where
  \<comment> \<open>\<open>SND_PCM_FORMAT_S8\<close>, \<open>S16_LE\<close>, \<open>S24_LE\<close>, \<open>S32_LE\<close>\<close>
  "alsa_format width =
     (if width = 8 then Some 0 else if width = 16 then Some 2 else if width = 24 then Some 6
      else if width = 32 then Some 10 else None)"

definition alsa_open :: "env \<Rightarrow> nat \<Rightarrow> nat \<Rightarrow> i2s_dir \<Rightarrow> i2s_stream \<Rightarrow> i2s_alsa_data \<Rightarrow> int \<times> i2s_alsa_data" where
  "alsa_open env stream format dir cfg s =
     (let s = (case al_handle s of None \<Rightarrow> s
               | Some h \<Rightarrow> (snd (al_do env (SysCall ''snd_pcm_close'' [h]) s))\<lparr>al_handle := None\<rparr>);
          s = s\<lparr>al_state := I2S_STATE_NOT_READY\<rparr>;
          (r, s) = al_do env (SysCall ''snd_pcm_open'' [stream]) s
      in if r_ret r < 0 then (r_ret r, s\<lparr>al_handle := None\<rparr>)
         else let s = s\<lparr>al_handle := Some (r_size r), al_dir := dir\<rparr>;
                  (p, s) = al_do env (SysCall ''snd_pcm_set_params''
                    [r_size r, format, unat (st_channels cfg), unat (st_frame_clk_freq cfg), 1, 500000]) s
              in if r_ret p < 0 then (r_ret p, s)
                 else (0, s\<lparr>al_cfg := cfg, al_state := I2S_STATE_READY\<rparr>))"

definition i2s_alsa_configure :: "env \<Rightarrow> i2s_dir \<Rightarrow> i2s_stream \<Rightarrow> i2s_alsa_data \<Rightarrow> int \<times> i2s_alsa_data" where
  "i2s_alsa_configure env dir cfg s =
     (if al_state s \<noteq> I2S_STATE_READY \<and> al_state s \<noteq> I2S_STATE_NOT_READY then (- EINVAL, s)
      else case alsa_stream dir of
             Inl e \<Rightarrow> (e, s)
           | Inr stream \<Rightarrow>
               (case alsa_format (st_word_size cfg) of
                  None \<Rightarrow> (- EINVAL, s)
                | Some format \<Rightarrow> alsa_open env stream format dir cfg s))"

definition EAGAIN :: int where "EAGAIN = 11"

primrec alsa_read_loop ::
  "nat \<Rightarrow> env \<Rightarrow> nat \<Rightarrow> nat \<Rightarrow> u32 \<Rightarrow> u8 list \<Rightarrow> i2s_alsa_data \<Rightarrow> ((int \<times> u8 list) \<times> i2s_alsa_data) option" where
  \<comment> \<open>the frames still to read and the bytes read; a read of \<open>f\<close> frames puts \<open>f * frame_bytes\<close> bytes into the buffer\<close>
  "alsa_read_loop 0 env h frame_bytes buffer_frames buf s = (if buffer_frames = 0 then Some ((0, buf), s) else None)"
| "alsa_read_loop (Suc turns) env h frame_bytes buffer_frames buf s =
     (if buffer_frames = 0 then Some ((0, buf), s)
      else let (r, s) = al_do env (SysCall ''snd_pcm_readi'' [h, unat buffer_frames]) s; frames = r_ret r
           in if 0 \<le> frames
              then alsa_read_loop turns env h frame_bytes (buffer_frames - word_of_int frames)
                     (buf @ map (r_byte r) [0..<nat frames * frame_bytes]) s
              else if frames \<noteq> - EAGAIN then Some ((frames, buf), s\<lparr>al_state := I2S_STATE_ERROR\<rparr>)
              else alsa_read_loop turns env h frame_bytes buffer_frames buf (snd (al_do env (SysCall ''k_yield'' []) s)))"

definition i2s_alsa_read ::
  "nat \<Rightarrow> env \<Rightarrow> i2s_alsa_data \<Rightarrow> ((int \<times> nat option \<times> u8 list) \<times> i2s_alsa_data) option" where
  \<comment> \<open>result, the block stored through \<open>mem_block\<close>, what was read into it; \<open>size\<close> is the size of the block on success\<close>
  "i2s_alsa_read turns env s =
     (case al_handle s of
        None \<Rightarrow> Some ((- 5, None, []), s)
      | Some h \<Rightarrow>
          if al_dir s \<noteq> I2S_DIR_RX then Some ((- 5, None, []), s)
          else if st_mem_slab (al_cfg s) = None then None
          else let (r, s) = al_do env slab_alloc s
               in if r_ret r < 0 then Some ((r_ret r, None, []), s)
                  else let frame_bytes = unat (st_channels (al_cfg s)) * (unat (st_word_size (al_cfg s)) div 8)
                       in if frame_bytes = 0 then None
                          else map_option (\<lambda>((ret, bs), s). ((ret, Some (r_size r), bs), s))
                            (alsa_read_loop turns env h frame_bytes (st_block_size (al_cfg s) div of_nat frame_bytes) [] s))"

definition i2s_alsa_write :: "i2s_alsa_data \<Rightarrow> int" where
  "i2s_alsa_write s = (if al_handle s = None \<or> al_dir s \<noteq> I2S_DIR_TX then - 5 else - 88)"

definition i2s_alsa_trigger :: "env \<Rightarrow> i2s_dir \<Rightarrow> i2s_trigger_cmd \<Rightarrow> i2s_alsa_data \<Rightarrow> int \<times> i2s_alsa_data" where
  "i2s_alsa_trigger env dir cmd s =
     (case al_handle s of
        None \<Rightarrow> (- 5, s)
      | Some h \<Rightarrow>
          if al_dir s \<noteq> dir then (- 5, s)
          else (case cmd of
                  I2S_TRIGGER_START \<Rightarrow> (case al_do env (SysCall ''snd_pcm_start'' [h]) s of (r, s) \<Rightarrow> (r_ret r, s))
                | _ \<Rightarrow> (- 88, s)))"

section \<open>What a read returns\<close>

text \<open>The bytes that \<open>snd_pcm_readi\<close> delivered, in order.\<close>

definition frames_delivered :: "nat \<Rightarrow> trace \<Rightarrow> u8 list" where
  "frames_delivered frame_bytes tr =
     concat (map (\<lambda>(c, r). case c of
       SysCall n args \<Rightarrow> if n = ''snd_pcm_readi'' \<and> 0 \<le> r_ret r then map (r_byte r) [0..<nat (r_ret r) * frame_bytes] else []
     | _ \<Rightarrow> []) tr)"

definition reads_at_most_asked :: "env \<Rightarrow> bool" where
  "reads_at_most_asked env \<longleftrightarrow> (\<forall>tr h n. r_ret (env tr (SysCall ''snd_pcm_readi'' [h, n])) \<le> int n)"

lemma delivered_append [simp]: "frames_delivered k (t @ u) = frames_delivered k t @ frames_delivered k u"
  by (simp add: frames_delivered_def)

lemma alsa_read_loop_result:
  assumes "reads_at_most_asked env" "alsa_read_loop turns env h k n bytes s = Some ((ret, out), s')"
  shows "\<exists>evs. al_calls s' = al_calls s @ evs \<and> out = bytes @ frames_delivered k evs \<and> ret \<le> 0 \<and>
    (ret = 0 \<longrightarrow> length out = length bytes + unat n * k) \<and> length out \<le> length bytes + unat n * k \<and>
    al_state s' = (if ret = 0 then al_state s else I2S_STATE_ERROR)"
  using assms(2)
proof (induction turns arbitrary: n bytes s)
  case 0
  then show ?case by (auto simp: frames_delivered_def split: if_splits)
next
  case (Suc turns)
  let ?c = "SysCall ''snd_pcm_readi'' [h, unat n]"
  let ?r = "env (al_calls s) ?c"
  let ?y = "(SysCall ''k_yield'' [], env (al_calls s @ [(?c, ?r)]) (SysCall ''k_yield'' []))"
  show ?case
  proof (cases "n = 0")
    case True
    with Suc.prems show ?thesis by (auto simp: frames_delivered_def)
  next
    case n: False
    consider (some) "0 \<le> r_ret ?r" | (error) "r_ret ?r < 0" "r_ret ?r \<noteq> - EAGAIN" | (again) "r_ret ?r = - EAGAIN"
      by linarith
    then show ?thesis
    proof cases
      case some
      have le: "nat (r_ret ?r) \<le> unat n" using assms(1) unfolding reads_at_most_asked_def nat_le_iff by blast
      have "word_of_int (r_ret ?r) = (of_nat (nat (r_ret ?r)) :: u32)" using some by simp
      then have left: "unat (n - word_of_int (r_ret ?r)) = unat n - nat (r_ret ?r)"
        using le unat_u32_less [of n] by (simp add: unat_sub_if' unat_of_nat take_bit_nat_eq_self)
      note run = Suc.prems [simplified alsa_read_loop.simps al_do_def Let_def prod.case, simplified n some simp_thms if_True if_False]
      from run n some have
        "alsa_read_loop turns env h k (n - word_of_int (r_ret ?r)) (bytes @ map (r_byte ?r) [0..<nat (r_ret ?r) * k])
           (s\<lparr>al_calls := al_calls s @ [(?c, ?r)]\<rparr>) = Some ((ret, out), s')"
        by simp
      from Suc.IH [OF this] obtain evs where evs: "al_calls s' = al_calls s @ (?c, ?r) # evs"
        "out = bytes @ map (r_byte ?r) [0..<nat (r_ret ?r) * k] @ frames_delivered k evs" "ret \<le> 0"
        "ret = 0 \<longrightarrow> length out = length bytes + nat (r_ret ?r) * k + (unat n - nat (r_ret ?r)) * k"
        "length out \<le> length bytes + nat (r_ret ?r) * k + (unat n - nat (r_ret ?r)) * k"
        "al_state s' = (if ret = 0 then al_state s else I2S_STATE_ERROR)"
        by (auto simp: left)
      moreover have "nat (r_ret ?r) * k + (unat n - nat (r_ret ?r)) * k = unat n * k"
        using le by (simp flip: add_mult_distrib)
      moreover have "frames_delivered k ((?c, ?r) # evs) = map (r_byte ?r) [0..<nat (r_ret ?r) * k] @ frames_delivered k evs"
        using some by (simp add: frames_delivered_def)
      ultimately show ?thesis by (intro exI [of _ "(?c, ?r) # evs"]) auto
    next
      case error
      with Suc.prems n show ?thesis
        by (intro exI [of _ "[(?c, ?r)]"]) (auto simp: al_do_def Let_def frames_delivered_def split: if_splits)
    next
      case again
      then have neg: "\<not> 0 \<le> r_ret ?r" by (simp add: EAGAIN_def)
      from Suc.prems n again neg have
        "alsa_read_loop turns env h k n bytes (s\<lparr>al_calls := al_calls s @ [(?c, ?r), ?y]\<rparr>) = Some ((ret, out), s')"
        by (simp add: al_do_def Let_def)
      from Suc.IH [OF this] obtain evs where evs: "al_calls s' = al_calls s @ (?c, ?r) # ?y # evs"
        "out = bytes @ frames_delivered k evs" "ret \<le> 0"
        "ret = 0 \<longrightarrow> length out = length bytes + unat n * k" "length out \<le> length bytes + unat n * k"
        "al_state s' = (if ret = 0 then al_state s else I2S_STATE_ERROR)" by auto
      moreover have "frames_delivered k ((?c, ?r) # ?y # evs) = frames_delivered k evs"
        using neg by (simp add: frames_delivered_def)
      ultimately show ?thesis by (intro exI [of _ "(?c, ?r) # ?y # evs"]) auto
    qed
  qed
qed

text \<open>
  After \<open>snd_pcm_set_params\<close> failed the stream is open with the configuration of zeros, and a read is not refused: it
  allocates from a null memory slab.
\<close>

definition no_params_env :: env where
  "no_params_env = failing_env (\<lambda>c. case c of SysCall n args \<Rightarrow> n = ''snd_pcm_set_params'' | _ \<Rightarrow> False)"

lemma alsa_read_unconfigured:
  "alsa_format (st_word_size cfg) = Some f \<Longrightarrow>
   fst (i2s_alsa_configure no_params_env I2S_DIR_RX cfg i2s_alsa_data_init) = - 5 \<and>
   i2s_alsa_read turns env (snd (i2s_alsa_configure no_params_env I2S_DIR_RX cfg i2s_alsa_data_init)) = None"
  by (simp add: i2s_alsa_configure_def alsa_stream_def alsa_open_def al_do_def i2s_alsa_read_def i2s_alsa_data_init_def
      i2s_stream_zero_def no_params_env_def failing_env_def quiet_reply_def Let_def)

section \<open>Generating a tone\<close>

record i2s_tone_data =
  tn_dir :: i2s_dir
  tn_cfg :: i2s_stream
  tn_state :: i2s_state
  phase :: real
  tn_calls :: trace

definition i2s_tone_data_init :: i2s_tone_data where
  "i2s_tone_data_init = \<lparr>tn_dir = I2S_DIR_RX, tn_cfg = i2s_stream_zero, tn_state = I2S_STATE_NOT_READY, phase = 0,
     tn_calls = []\<rparr>"

definition i2s_tone_configure :: "i2s_dir \<Rightarrow> i2s_stream \<Rightarrow> i2s_tone_data \<Rightarrow> int \<times> i2s_tone_data" where
  "i2s_tone_configure dir cfg s =
     (if tn_state s \<noteq> I2S_STATE_READY \<and> tn_state s \<noteq> I2S_STATE_NOT_READY then (- EINVAL, s)
      else case dir of
        I2S_DIR_TX \<Rightarrow> (- 88, s) | I2S_DIR_BOTH \<Rightarrow> (- 88, s) | I2S_DIR_OTHER \<Rightarrow> (- EINVAL, s)
      | I2S_DIR_RX \<Rightarrow>
          if st_word_size cfg \<notin> {8, 16, 24, 32} then (- EINVAL, s)
          else (0, s\<lparr>tn_dir := dir, tn_cfg := cfg, tn_state := I2S_STATE_READY\<rparr>))"

definition M_PI :: real where "M_PI = 3.14159265358979323846"

definition two_pi :: "rounding \<Rightarrow> real" where "two_pi fl = fl (2 * fl M_PI)"

definition cycle_samples :: "rounding \<Rightarrow> u32 \<Rightarrow> i2s_stream \<Rightarrow> real" where
  "cycle_samples fl frequency cfg = fl (fl (real (unat (st_frame_clk_freq cfg))) / fl (real (unat frequency)))"

definition tone_amplitude :: "u8 \<Rightarrow> int option" where
  \<comment> \<open>\<open>None\<close>: a shift of an \<open>int\<close> by its width, or out of its sign\<close>
  "tone_amplitude width = (if 31 \<le> unat width then None else Some ((2 ^ unat width - 1) div 2))"

definition truncate :: "real \<Rightarrow> int" where
  \<comment> \<open>a conversion to an integer type\<close>
  "truncate x = (if x < 0 then \<lceil>x\<rceil> else \<lfloor>x\<rfloor>)"

definition tone_sample :: "rounding \<Rightarrow> (real \<Rightarrow> real) \<Rightarrow> real \<Rightarrow> real \<Rightarrow> int \<Rightarrow> nat \<Rightarrow> u32" where
  \<comment> \<open>\<open>sinf\<close>, the phase at the start of the block, the length of a cycle, the amplitude, the index of the frame\<close>
  "tone_sample fl sinf ph cyc amplitude i =
     (let p = fl (ph + fl (fl (fl (real i) / cyc) * two_pi fl))
      in word_of_int (truncate (fl (sinf p * fl (real_of_int amplitude)))))"

primrec put_channels :: "nat \<Rightarrow> nat \<Rightarrow> nat \<Rightarrow> u8 list \<Rightarrow> u8 list \<Rightarrow> u8 list" where
  \<comment> \<open>the same sample for the last \<open>n\<close> channels of a frame, from an offset\<close>
  "put_channels 0 sample_bytes off val buffer = buffer"
| "put_channels (Suc n) sample_bytes off val buffer =
     put_channels n sample_bytes (off + sample_bytes) val (blit off (take sample_bytes val) buffer)"

primrec put_frames :: "nat \<Rightarrow> nat \<Rightarrow> nat \<Rightarrow> (nat \<Rightarrow> u32) \<Rightarrow> nat \<Rightarrow> u8 list \<Rightarrow> u8 list" where
  \<comment> \<open>the last \<open>n\<close> frames, from the frame \<open>i\<close>\<close>
  "put_frames 0 channels sample_bytes val i buffer = buffer"
| "put_frames (Suc n) channels sample_bytes val i buffer =
     put_frames n channels sample_bytes val (Suc i)
       (put_channels channels sample_bytes (i * (sample_bytes * channels)) (put_le32 (val i)) buffer)"

definition next_phase :: "rounding \<Rightarrow> u32 \<Rightarrow> i2s_stream \<Rightarrow> nat \<Rightarrow> real" where
  "next_phase fl frequency cfg frames =
     fl (frac (fl (fl (real frames) / cycle_samples fl frequency cfg)) * two_pi fl)"

definition i2s_tone_read ::
  "env \<Rightarrow> rounding \<Rightarrow> (real \<Rightarrow> real) \<Rightarrow> u32 \<Rightarrow> i2s_tone_data \<Rightarrow> ((int \<times> nat option \<times> u8 list) \<times> i2s_tone_data) option" where
  \<comment> \<open>the tone's frequency is positive; the assertion of the source holds or is disabled\<close>
  "i2s_tone_read env fl sinf frequency s =
     (if tn_state s = I2S_STATE_NOT_READY \<or> tn_dir s \<noteq> I2S_DIR_RX then Some ((- 5, None, []), s)
      else if st_mem_slab (tn_cfg s) = None then None
      else let cfg = tn_cfg s; r = env (tn_calls s) slab_alloc;
               s = s\<lparr>tn_calls := tn_calls s @ [(slab_alloc, r)]\<rparr>
           in if r_ret r < 0 then Some ((r_ret r, None, []), s)
              else let sample_bytes = st_word_size cfg div 8; frame_bytes = sample_bytes * st_channels cfg
                   in if frame_bytes = 0 then None
                      else case tone_amplitude (st_word_size cfg) of
                        None \<Rightarrow> None
                      | Some amplitude \<Rightarrow>
                          let frames = unat (st_block_size cfg) div unat frame_bytes;
                              val = tone_sample fl sinf (phase s) (cycle_samples fl frequency cfg) amplitude;
                              buffer = put_frames frames (unat (st_channels cfg)) (unat sample_bytes) val 0
                                (map (r_byte r) [0..<unat (st_block_size cfg)])
                          in Some ((0, Some (r_size r), buffer),
                               s\<lparr>phase := next_phase fl frequency cfg frames,
                                 tn_calls := tn_calls s @ [(MSleep 100, env (tn_calls s) (MSleep 100))]\<rparr>))"

definition i2s_tone_write :: int where "i2s_tone_write = - 88"

definition i2s_tone_trigger :: "i2s_dir \<Rightarrow> i2s_trigger_cmd \<Rightarrow> i2s_tone_data \<Rightarrow> int" where
  "i2s_tone_trigger dir cmd s =
     (if tn_dir s \<noteq> dir then - 5 else case cmd of I2S_TRIGGER_START \<Rightarrow> 0 | _ \<Rightarrow> - 88)"

section \<open>The blocks of a tone\<close>

lemma put_channels_frame:
  assumes "off + n * sb \<le> length buffer" "sb \<le> length val"
  shows "put_channels n sb off val buffer = blit off (concat (replicate n (take sb val))) buffer"
  using assms
proof (induction n arbitrary: off buffer)
  case 0
  then show ?case by (simp add: blit_def)
next
  case (Suc n)
  have "put_channels n sb (off + sb) val (blit off (take sb val) buffer) =
    blit (off + sb) (concat (replicate n (take sb val))) (blit off (take sb val) buffer)"
    using Suc.prems by (intro Suc.IH) (simp_all add: algebra_simps)
  also have "\<dots> = blit off (concat (replicate (Suc n) (take sb val))) buffer"
    using Suc.prems take_blit_end [of off buffer "take sb val"]
    by (simp add: blit_def [of "off + sb"] drop_blit min_absorb2) (simp add: blit_def add.assoc min_absorb2)
  finally show ?case by simp
qed

lemma length_frame: "sb \<le> length val \<Longrightarrow> length (concat (replicate n (take sb val))) = n * sb"
  by (simp add: length_concat sum_list_replicate min_absorb2)

lemma put_frames_bytes:
  assumes "i * (sb * ch) + n * (sb * ch) \<le> length buffer" "sb \<le> 4"
  shows "put_frames n ch sb val i buffer = blit (i * (sb * ch))
    (concat (map (\<lambda>j. concat (replicate ch (take sb (put_le32 (val j))))) [i..<i + n])) buffer"
  using assms(1)
proof (induction n arbitrary: i buffer)
  case 0
  then show ?case by (simp add: blit_def)
next
  case (Suc n)
  let ?f = "\<lambda>j. concat (replicate ch (take sb (put_le32 (val j))))"
  have len: "length (?f j) = ch * sb" for j using assms(2) by (simp add: length_frame)
  have one: "put_channels ch sb (i * (sb * ch)) (put_le32 (val i)) buffer = blit (i * (sb * ch)) (?f i) buffer"
    using Suc.prems assms(2) by (intro put_channels_frame) (simp_all add: algebra_simps)
  have "put_frames n ch sb val (Suc i) (blit (i * (sb * ch)) (?f i) buffer) =
    blit (Suc i * (sb * ch)) (concat (map ?f [Suc i..<Suc i + n])) (blit (i * (sb * ch)) (?f i) buffer)"
    using Suc.prems len by (intro Suc.IH) (simp add: algebra_simps)
  also have "\<dots> = blit (i * (sb * ch)) (?f i @ concat (map ?f [Suc i..<Suc i + n])) buffer"
  proof -
    let ?o = "i * (sb * ch)"
    let ?b = "blit ?o (?f i) buffer"
    have o: "Suc i * (sb * ch) = ?o + length (?f i)" by (simp add: len algebra_simps)
    have fits: "?o + length (?f i) \<le> length buffer" using Suc.prems by (simp add: len algebra_simps)
    then have "take (?o + length (?f i)) ?b = take ?o buffer @ ?f i" by (intro take_blit_end) simp
    moreover have "drop (?o + length (?f i) + k) ?b = drop (?o + length (?f i) + k) buffer" for k
      using fits by (intro drop_blit) simp_all
    ultimately show ?thesis unfolding o by (simp add: blit_def [of "?o + length (?f i)"]) (simp add: blit_def add.assoc)
  qed
  finally show ?case by (simp add: one upt_conv_Cons del: upt_Suc)
qed

text \<open>The phase of the next block does not depend on the phase of the block it follows.\<close>

lemma tone_phase_not_accumulated:
  assumes "i2s_tone_read env fl sinf f s = Some ((0, b, buffer), s')"
    and "i2s_tone_read env fl sinf f s' = Some ((0, b', buffer'), s'')"
  shows "phase s'' = phase s'"
  using assms
  by (auto simp: i2s_tone_read_def Let_def split: if_splits option.splits)

lemma tone_32_bits_undefined:
  assumes "st_word_size (tn_cfg s) = 32" "0 \<le> r_ret (env (tn_calls s) slab_alloc)"
    "tn_state s \<noteq> I2S_STATE_NOT_READY" "tn_dir s = I2S_DIR_RX"
  shows "i2s_tone_read env fl sinf f s = None"
  using assms by (auto simp: i2s_tone_read_def tone_amplitude_def Let_def)

section \<open>The codec that does nothing\<close>

definition dummy_codec_initialize :: int where "dummy_codec_initialize = 0"
definition dummy_codec_configure :: int where "dummy_codec_configure = 0"
definition dummy_codec_start_input :: int where "dummy_codec_start_input = 0"
definition dummy_codec_stop_input :: int where "dummy_codec_stop_input = 0"

definition dummy_codec_get_property :: "input_codec_property \<Rightarrow> audio_channel \<Rightarrow> int + int" where
  "dummy_codec_get_property p ch = Inl (- ENOTSUP)"

definition dummy_codec_set_property :: "input_codec_property \<Rightarrow> audio_channel \<Rightarrow> int \<Rightarrow> int" where
  "dummy_codec_set_property p ch v = - ENOTSUP"

definition dummy_codec_apply_properties :: int where "dummy_codec_apply_properties = 0"

end
