(* ===== verification/Spec2Isabelle.thy ===== *)
theory Spec2Isabelle
  imports Disk_Cache Led Charger Regulators Adc Recording Lftpd_Session Zeus_System Audio Power_Switch
    Hci_Ipc Sd_Card Sgtl5000 Mgr_Run Services Shell Simulator
begin

text \<open>
  Verification library for the firmware of zeus-le, a wireless microphone system: a central node announces its clock and
  its commands in periodic Bluetooth advertisements, audio nodes follow that clock, discipline their audio clock with it
  and record to an SD card, so that the recordings of all nodes are aligned to a sample. The theories model the C and C++
  code under \<^verbatim>\<open>src/firmware\<close>; paths below are relative to it.

  \<^bold>\<open>How code is modelled.\<close> \<^verbatim>\<open>Prelude\<close> has the machine integers (words of their width), errno values, Zephyr's bit-field macros,
  byte buffers and the two monads: code that always returns runs in the state monad, code that may not return or may access
  memory out of bounds is in the option monad with \<open>None\<close> for that outcome. \<^verbatim>\<open>Zephyr\<close> has the calls of the kernel, the buses, the
  file system, sockets and the Bluetooth host: none of that code is part of the repository, so a call is an event of a trace,
  answered by a parameter \<open>env\<close> that may depend on the whole trace. Every statement therefore holds for every sequence of
  failures, unless it names a hypothesis on \<open>env\<close> (that a bus is honest: what was written is read back; that a file
  system or a socket behaves as documented; that a call succeeds). Where functions of a static object
  change its \<open>struct\<close>, the model has a record with the fields of the source. Floating point numbers are reals with
  a rounding function as a parameter. Mutexes are left out: an operation is one step, which is what they make it. Logging
  is left out.

  \<^bold>\<open>Storage.\<close> \<^verbatim>\<open>Disk_Cache\<close> (\<^verbatim>\<open>audio/app/src/drivers/disk/disk_cache.c\<close>): the write-through LRU cache of sectors, which
  takes its blocks from a memory slab and is interpreted as a device of sectors (a locale). Its invariant (entries are distinct, within the disk, equal to it, and blocks are not lost) is kept by
  every operation; reads and writes refine an array of sectors; a hit that is evicted while a miss is served is the proved
  exception. \<^verbatim>\<open>Wav\<close> (\<^verbatim>\<open>wav.c\<close>): header, size limit and alignment; what a session of successful calls writes parses as a WAV file.
  \<^verbatim>\<open>Recorder\<close> and \<^verbatim>\<open>Recording\<close> (\<^verbatim>\<open>record.c\<close>): the state machine of the recorder, file names and indices, where a block is cut, the closing
  thread; all data recorded without error is in the files, in order, over any number of roll-overs. \<^verbatim>\<open>Sd_Card\<close> (\<^verbatim>\<open>sd_card.c\<close>): the
  card is initialised, mounted, unmounted and released in order, with the recorder's calls in the same trace.

  \<^bold>\<open>Time and commands.\<close> \<^verbatim>\<open>Protocol\<close> (\<^verbatim>\<open>protocol.h\<close>, \<open>mgr_parse_adv_data\<close>): the advertisement and its bytes. \<^verbatim>\<open>Central\<close> (\<^verbatim>\<open>central/app/src/sync.c\<close>,
  \<^verbatim>\<open>main.c\<close>, \<^verbatim>\<open>central/net/src/main.c\<close>): what the central node announces. \<^verbatim>\<open>Freq_Est\<close> (\<^verbatim>\<open>freq_est.c\<close>, \<^verbatim>\<open>freq_ctlr.c\<close>, \<^verbatim>\<open>fixed.h\<close>): the
  estimator, equal to a textbook Kalman filter in exact arithmetic, and its recovery from outliers for any rounding.
  \<^verbatim>\<open>Sync_Timer\<close> (\<^verbatim>\<open>sync_timer.c\<close>): which local and central times the estimator is given. \<^verbatim>\<open>Mgr\<close> and \<^verbatim>\<open>Mgr_Run\<close> (\<^verbatim>\<open>mgr.cpp\<close>, \<^verbatim>\<open>coroutine.hpp\<close>): the
  handling of advertisements, and the coroutines as points of suspension; what the module holds of the Bluetooth host at every
  point, and that its calls return. \<^verbatim>\<open>Zeus_System\<close> composes the central node, lossy reception and the recorder: commands are
  executed in order and once. \<^verbatim>\<open>Hci_Ipc\<close> (\<^verbatim>\<open>hci_ipc/src/hci_ipc.c\<close>): the transport between the two cores as a pair of queues that lose no packet
  and no buffer.

  \<^bold>\<open>Audio.\<close> \<^verbatim>\<open>Audio\<close> (\<^verbatim>\<open>audio.c\<close>): the thread that reads blocks and steers the audio clock, gain settings and their storage.
  \<^verbatim>\<open>Codec\<close> (\<^verbatim>\<open>tlv320adcx120.c\<close>, \<^verbatim>\<open>input_codec.h\<close>) and \<^verbatim>\<open>Sgtl5000\<close> (\<^verbatim>\<open>sgtl5000.c\<close>): the drivers of the two converters, whose registers agree
  with what the driver remembers after any operations and failures.

  \<^bold>\<open>Power and indicators.\<close> \<^verbatim>\<open>Bq2515x_Mfd\<close>, \<^verbatim>\<open>Charger\<close>, \<^verbatim>\<open>Regulators\<close>, \<^verbatim>\<open>Adc\<close> (\<^verbatim>\<open>drivers/mfd\<close>, \<^verbatim>\<open>charger\<close>, \<^verbatim>\<open>regulator\<close>, \<^verbatim>\<open>sensor\<close>): the charger chip, its
  interrupts, which are never lost, its currents, its supply voltages, the RT6160 regulator and the measurements. The locale
  of a port of registers is interpreted on the bus of the charger chip. \<^verbatim>\<open>Lp58xx\<close> and \<^verbatim>\<open>Led\<close> (\<^verbatim>\<open>drivers/led/lp58xx.c\<close>, \<^verbatim>\<open>common/src/led.c\<close>): the LED controller,
  the bytes of its animations, and the patterns that show the state of a node. \<^verbatim>\<open>Power_Switch\<close> (\<^verbatim>\<open>common/src/power.c\<close>, \<^verbatim>\<open>audio/app/src/power.c\<close>):
  switching on and off, composed with the charger, the LEDs and the recorder.

  \<^bold>\<open>Files over the network.\<close> \<^verbatim>\<open>Lftpd_Path\<close>, \<^verbatim>\<open>Lftpd_Inet\<close>, \<^verbatim>\<open>Lftpd\<close>, \<^verbatim>\<open>Lftpd_Session\<close> (\<^verbatim>\<open>lftpd\<close>): the FTP server: paths, lines from a fragmented
  stream, responses, every command, and the descriptors of a connection, all of which are closed.

  \<^bold>\<open>Fuel and bounds.\<close> Loops whose end depends on the environment take a number of turns as argument, and \<open>None\<close> says that it was used up: the
  directory scan of \<^verbatim>\<open>Recorder\<close> (its number of entries plus one suffices), the audio thread, which ends only on an error, the
  loops of \<^verbatim>\<open>Lftpd\<close> and \<^verbatim>\<open>Lftpd_Inet\<close> (one more than the chunks or lines that arrive), sending in \<^verbatim>\<open>Hci_Ipc\<close> (one more than the refusals;
  \<open>service_accepts\<close> says so) and \<open>mgr_run\<close>, for which eight is proved to be enough while the scanner can be started. The theorems about such
  code either state that enough fuel gives a result or hold for every fuel; loops over fixed tables and arrays are
  structural recursions.

  \<^bold>\<open>The rest of a node.\<close> \<^verbatim>\<open>Services\<close>: the boot sequence of an audio node (\<^verbatim>\<open>audio/app/src/main.c\<close>, \<^verbatim>\<open>audio/net/src/main.c\<close>), the USB console, the
  WiFi chip, and the network services (\<^verbatim>\<open>ftp.c\<close>, \<^verbatim>\<open>net_audio.c\<close>). \<^verbatim>\<open>Shell\<close> (\<^verbatim>\<open>audio/app/src/shell.c\<close>, \<^verbatim>\<open>common/src/shell.c\<close>): the commands, which numbers
  they accept and how a measurement is printed. \<^verbatim>\<open>Simulator\<close> (\<^verbatim>\<open>i2s_alsa.c\<close>, \<^verbatim>\<open>i2s_tone.c\<close>, \<^verbatim>\<open>dummy_codec.c\<close>): the drivers of a node
  that runs on a host; what a block holds after reading from the sound card in pieces, and the blocks of a tone.

  \<^bold>\<open>Not modelled.\<close> \<open>mgr_switch_to_work_queue\<close>, which nothing calls; the tests of \<^verbatim>\<open>lftpd\<close>; the macros that instantiate drivers from the device tree, whose
  values are parameters. Preemption inside an operation and the timing of the kernel are outside the models.
\<close>

end
